theory Spec2Isabelle
  imports Main "HOL-Library.AList" "HOL-Library.Char_ord" "HOL-Library.List_Lexorder"
begin

section \<open>Data model\<close>

text \<open>
  A Python \<^verbatim>\<open>datetime\<close> is a point on the time line between 0001-01-01 00:00:00 and
  9999-12-31 23:59:59.999999, counted here in microseconds (its resolution) from the
  first of them: the 3652059 days of the years 1 to 9999 are 315537897600000000
  microseconds. \<^verbatim>\<open>timedelta(minutes=m)\<close> is \<open>m\<close> minutes in that unit. An integer
  outside the range stands for no datetime, and the one operation below that can leave
  the range, adding a \<^verbatim>\<open>timedelta\<close>, tests for it.
\<close>

type_synonym datetime = int

definition datetime_min :: datetime where
  "datetime_min = 0"

definition datetime_max :: datetime where
  "datetime_max = 315537897599999999"

definition is_datetime :: "int \<Rightarrow> bool" where
  "is_datetime t = (datetime_min \<le> t \<and> t \<le> datetime_max)"

definition timedelta_minutes :: "int \<Rightarrow> int" where
  "timedelta_minutes m = 60000000 * m"

datatype error =
  AssertionError | IndexError | TypeError | KeyError | ValueError | OverflowError | SystemExit

text \<open>
  \<^verbatim>\<open>d + timedelta(minutes=m)\<close>: Python raises OverflowError when the sum is not a
  datetime. (A \<^verbatim>\<open>timedelta\<close> is itself limited to 999999999 days and its constructor
  raises the same error beyond; such a span added to a datetime leaves the range of
  datetimes anyway, so the one test covers both.)
\<close>

definition datetime_add :: "datetime \<Rightarrow> int \<Rightarrow> error + datetime" where
  "datetime_add d delta = (if is_datetime (d + delta) then Inr (d + delta) else Inl OverflowError)"

text \<open>
  The value of a draft fact's \<^verbatim>\<open>start\<close> or \<^verbatim>\<open>end\<close> attribute: \<^verbatim>\<open>None\<close>, a
  \<^verbatim>\<open>datetime\<close>, or the text of a relative time that is still to be resolved.
\<close>

datatype dt_field = NoneT | Datetime datetime | Text string

text \<open>
  The attributes of a fact that the functions below read or write. A draft fact holds
  a \<open>dt_field\<close> in its two times; a fact read from the store holds a datetime or
  \<^verbatim>\<open>None\<close>.
\<close>

record 't fact_of =
  pk :: "int option"
  start :: 't
  end' :: 't
  deleted :: bool
  dirty_reasons :: "string set"

type_synonym fact = "dt_field fact_of"
type_synonym stored_fact = "datetime option fact_of"

definition field_of :: "datetime option \<Rightarrow> dt_field" where
  "field_of t = (case t of None \<Rightarrow> NoneT | Some d \<Rightarrow> Datetime d)"

definition as_fact :: "stored_fact \<Rightarrow> fact" where
  "as_fact s = \<lparr>pk = pk s, start = field_of (start s), end' = field_of (end' s),
     deleted = deleted s, dirty_reasons = dirty_reasons s\<rparr>"

text \<open>The attribute names \<^verbatim>\<open>'start'\<close> and \<^verbatim>\<open>'end'\<close> passed as \<^verbatim>\<open>which\<close>.\<close>

datatype which = Start | End

definition which_name :: "which \<Rightarrow> string" where
  "which_name w = (case w of Start \<Rightarrow> ''start'' | End \<Rightarrow> ''end'')"

definition getattr :: "fact \<Rightarrow> which \<Rightarrow> dt_field" where
  "getattr fct w = (case w of Start \<Rightarrow> start fct | End \<Rightarrow> end' fct)"

definition setattr :: "fact \<Rightarrow> which \<Rightarrow> dt_field \<Rightarrow> fact" where
  "setattr fct w v = (case w of Start \<Rightarrow> fct\<lparr>start := v\<rparr> | End \<Rightarrow> fct\<lparr>end' := v\<rparr>)"

text \<open>
  Facts are Python objects, and a conflict holds references to them. A reference is the
  position of a new fact in \<^verbatim>\<open>new_facts\<close>, or names the antecedent or the subsequent
  stored fact. A conflict is the triple (edited fact, other fact or \<^verbatim>\<open>None\<close>, reason).
\<close>

datatype fact_ref = NewFact nat | AnteFact | SeqtFact

type_synonym conflict = "fact_ref \<times> fact_ref option \<times> string"

text \<open>
  \<^verbatim>\<open>later_facts\<close>: a list of references, each paired with the state of the object it
  points to. The facts in it are the ones after the fact being processed, which the
  running pass has not touched yet.
\<close>

type_synonym later = "(fact_ref \<times> fact) list"

text \<open>
  The functions imported from \<^verbatim>\<open>nark.helpers.dated\<close>, a library outside this
  repository, are parameters. \<open>'c\<close> is whatever \<^verbatim>\<open>parse_clock_time\<close> returns.
\<close>

record 'c dated =
  parse_clock_time :: "string \<Rightarrow> 'c option"
  parse_relative_minutes :: "string \<Rightarrow> int option"
  datetime_from_clock_prior :: "datetime \<Rightarrow> 'c \<Rightarrow> datetime"
  datetime_from_clock_after :: "datetime \<Rightarrow> 'c \<Rightarrow> datetime"

section \<open>Import: completing the times of new facts (transcode.py)\<close>

fun enumerate_from :: "nat \<Rightarrow> fact list \<Rightarrow> later" where
  "enumerate_from i [] = []"
| "enumerate_from i (f # fs) = (NewFact i, f) # enumerate_from (Suc i) fs"

definition prev_and_later ::
  "fact list \<Rightarrow> stored_fact option \<Rightarrow> stored_fact option \<Rightarrow> error + (datetime option \<times> later)" where
  "prev_and_later new_facts ante_fact seqt_fact =
     (case (case ante_fact of
              None \<Rightarrow> Inr None
            | Some a \<Rightarrow> (case end' a of None \<Rightarrow> Inl AssertionError | Some d \<Rightarrow> Inr (Some d))) of
        Inl e \<Rightarrow> Inl e
      | Inr prev_time \<Rightarrow>
          (case seqt_fact of
             None \<Rightarrow> Inr (prev_time, enumerate_from 0 new_facts)
           | Some s \<Rightarrow>
               (case start s of
                  None \<Rightarrow> Inl AssertionError
                | Some d \<Rightarrow> Inr (prev_time, enumerate_from 0 new_facts @ [(SeqtFact, as_fact s)]))))"

fun find_next_datetime :: "later \<Rightarrow> (datetime \<times> fact_ref) option" where
  "find_next_datetime [] = None"
| "find_next_datetime ((r, fct) # later_facts) =
     (case start fct of
        Datetime d \<Rightarrow> Some (d, r)
      | _ \<Rightarrow> (case end' fct of
                Datetime d \<Rightarrow> Some (d, r)
              | _ \<Rightarrow> find_next_datetime later_facts))"

subsection \<open>Clock times\<close>

definition clock_reason :: "which \<Rightarrow> string" where
  "clock_reason w = ''Cannot infer date of '' @ which_name w @ '' time specified with clock time''"

definition infer_datetime_from_clock ::
  "'c dated \<Rightarrow> 'c \<Rightarrow> fact_ref \<Rightarrow> fact \<Rightarrow> which \<Rightarrow> datetime option \<Rightarrow> later \<Rightarrow> conflict list
    \<Rightarrow> datetime option \<times> fact \<times> conflict list" where
  "infer_datetime_from_clock N clock_time r fct w prev_time later_facts conflicts =
     (let at_oppo = (if w = Start then End else Start);
          dt_oppo = getattr fct at_oppo;
          dt_suss =
            (case dt_oppo of
               Datetime d \<Rightarrow>
                 (if w = Start then Some (datetime_from_clock_prior N d clock_time)
                  else Some (datetime_from_clock_after N d clock_time))
             | _ \<Rightarrow>
                 (case prev_time of
                    Some p \<Rightarrow> Some (datetime_from_clock_after N p clock_time)
                  | None \<Rightarrow>
                      (case find_next_datetime later_facts of
                         Some (next_time, next_fact) \<Rightarrow>
                           Some (datetime_from_clock_prior N next_time clock_time)
                       | None \<Rightarrow> None)))
      in case dt_suss of
           Some d \<Rightarrow> (Some d, setattr fct w (Datetime d), conflicts)
         | None \<Rightarrow> (prev_time, fct, conflicts @ [(r, None, clock_reason w)]))"

definition fix_clock_time_relative ::
  "'c dated \<Rightarrow> fact_ref \<Rightarrow> fact \<Rightarrow> which \<Rightarrow> datetime option \<Rightarrow> later \<Rightarrow> conflict list
    \<Rightarrow> datetime option \<times> fact \<times> conflict list" where
  "fix_clock_time_relative N r fct w prev_time later_facts conflicts =
     (case getattr fct w of
        NoneT \<Rightarrow> (prev_time, fct, conflicts)
      | Datetime d \<Rightarrow> (Some d, fct, conflicts)
      | Text dt_fact \<Rightarrow>
          (case parse_clock_time N dt_fact of
             None \<Rightarrow> (prev_time, fct, conflicts)
           | Some clock_time \<Rightarrow>
               infer_datetime_from_clock N clock_time r fct w prev_time later_facts conflicts))"

text \<open>
  The loop of \<^verbatim>\<open>fix_clock_times_relative\<close>. \<open>todo\<close> is what is left of
  \<^verbatim>\<open>new_facts\<close>, each fact with its reference; the result is the facts as the loop
  leaves them, and the conflicts. \<^verbatim>\<open>later_facts[0]\<close> of an empty list raises
  IndexError, and the assertion compares references.
\<close>

fun fix_clock_times_loop ::
  "'c dated \<Rightarrow> datetime option \<Rightarrow> later \<Rightarrow> later \<Rightarrow> conflict list \<Rightarrow> error + (fact list \<times> conflict list)" where
  "fix_clock_times_loop N prev_time later_facts [] conflicts = Inr ([], conflicts)"
| "fix_clock_times_loop N prev_time later_facts ((r, fct) # todo) conflicts =
     (case later_facts of
        [] \<Rightarrow> Inl IndexError
      | (r0, fact0) # popped \<Rightarrow>
          if r0 \<noteq> r then Inl AssertionError
          else
            (case fix_clock_time_relative N r fct Start prev_time popped conflicts of
               (prev1, fact1, conflicts1) \<Rightarrow>
                 (case fix_clock_time_relative N r fact1 End prev1 popped conflicts1 of
                    (prev2, fact2, conflicts2) \<Rightarrow>
                      (case fix_clock_times_loop N prev2 popped todo conflicts2 of
                         Inl e \<Rightarrow> Inl e
                       | Inr (facts, conflicts3) \<Rightarrow> Inr (fact2 # facts, conflicts3)))))"

definition fix_clock_times_relative ::
  "'c dated \<Rightarrow> fact list \<Rightarrow> stored_fact option \<Rightarrow> stored_fact option \<Rightarrow> conflict list
    \<Rightarrow> error + (fact list \<times> conflict list)" where
  "fix_clock_times_relative N new_facts ante_fact seqt_fact conflicts =
     (case prev_and_later new_facts ante_fact seqt_fact of
        Inl e \<Rightarrow> Inl e
      | Inr (prev_time, later_facts) \<Rightarrow>
          fix_clock_times_loop N prev_time later_facts (enumerate_from 0 new_facts) conflicts)"

subsection \<open>Relative minutes\<close>

definition delta_reason :: "which \<Rightarrow> string" where
  "delta_reason w = ''Cannot infer date of '' @ which_name w @ '' time specified with delta time''"

text \<open>
  The three anchors of \<^verbatim>\<open>infer_datetime_from_delta\<close> give \<^verbatim>\<open>dt_suss\<close>, or raise where
  the sum does; the field is set, or the conflict recorded, after that.
\<close>

definition infer_datetime_from_delta ::
  "int \<Rightarrow> fact_ref \<Rightarrow> fact \<Rightarrow> which \<Rightarrow> datetime option \<Rightarrow> later \<Rightarrow> conflict list
    \<Rightarrow> error + (datetime option \<times> fact \<times> conflict list)" where
  "infer_datetime_from_delta delta_mins r fct w prev_time later_facts conflicts =
     (case
        (if delta_mins \<ge> 0 then
           (case prev_time of
              Some p \<Rightarrow> map_sum id Some (datetime_add p (timedelta_minutes delta_mins))
            | None \<Rightarrow> Inr None)
         else
           (case (w, end' fct) of
              (Start, Datetime e) \<Rightarrow> map_sum id Some (datetime_add e (timedelta_minutes delta_mins))
            | _ \<Rightarrow>
                (case find_next_datetime later_facts of
                   Some (next_time, next_fact) \<Rightarrow>
                     map_sum id Some (datetime_add next_time (timedelta_minutes delta_mins))
                 | None \<Rightarrow> Inr None))) of
        Inl e \<Rightarrow> Inl e
      | Inr dt_suss \<Rightarrow>
          (case dt_suss of
             Some d \<Rightarrow> Inr (Some d, setattr fct w (Datetime d), conflicts)
           | None \<Rightarrow> Inr (prev_time, fct, conflicts @ [(r, None, delta_reason w)])))"

definition fix_delta_time_relative ::
  "'c dated \<Rightarrow> fact_ref \<Rightarrow> fact \<Rightarrow> which \<Rightarrow> datetime option \<Rightarrow> later \<Rightarrow> conflict list
    \<Rightarrow> error + (datetime option \<times> fact \<times> conflict list)" where
  "fix_delta_time_relative N r fct w prev_time later_facts conflicts =
     (case getattr fct w of
        NoneT \<Rightarrow> Inr (prev_time, fct, conflicts)
      | Datetime d \<Rightarrow> Inr (Some d, fct, conflicts)
      | Text dt_fact \<Rightarrow>
          (case parse_relative_minutes N dt_fact of
             None \<Rightarrow> Inr (prev_time, fct, conflicts)
           | Some delta_mins \<Rightarrow>
               infer_datetime_from_delta delta_mins r fct w prev_time later_facts conflicts))"

fun fix_delta_times_loop ::
  "'c dated \<Rightarrow> datetime option \<Rightarrow> later \<Rightarrow> later \<Rightarrow> conflict list \<Rightarrow> error + (fact list \<times> conflict list)" where
  "fix_delta_times_loop N prev_time later_facts [] conflicts = Inr ([], conflicts)"
| "fix_delta_times_loop N prev_time later_facts ((r, fct) # todo) conflicts =
     (case later_facts of
        [] \<Rightarrow> Inl IndexError
      | (r0, fact0) # popped \<Rightarrow>
          if r0 \<noteq> r then Inl AssertionError
          else
            (case fix_delta_time_relative N r fct Start prev_time popped conflicts of
               Inl e \<Rightarrow> Inl e
             | Inr (prev1, fact1, conflicts1) \<Rightarrow>
                 (case fix_delta_time_relative N r fact1 End prev1 popped conflicts1 of
                    Inl e \<Rightarrow> Inl e
                  | Inr (prev2, fact2, conflicts2) \<Rightarrow>
                      (case fix_delta_times_loop N prev2 popped todo conflicts2 of
                         Inl e \<Rightarrow> Inl e
                       | Inr (facts, conflicts3) \<Rightarrow> Inr (fact2 # facts, conflicts3)))))"

definition fix_delta_times_relative ::
  "'c dated \<Rightarrow> fact list \<Rightarrow> stored_fact option \<Rightarrow> stored_fact option \<Rightarrow> conflict list
    \<Rightarrow> error + (fact list \<times> conflict list)" where
  "fix_delta_times_relative N new_facts ante_fact seqt_fact conflicts =
     (case prev_and_later new_facts ante_fact seqt_fact of
        Inl e \<Rightarrow> Inl e
      | Inr (prev_time, later_facts) \<Rightarrow>
          fix_delta_times_loop N prev_time later_facts (enumerate_from 0 new_facts) conflicts)"

text \<open>
  A field that still holds a relative time of one of the two kinds: a text that
  \<^verbatim>\<open>parse_clock_time\<close>, or \<^verbatim>\<open>parse_relative_minutes\<close>, accepts.
\<close>

definition clock_token :: "'c dated \<Rightarrow> dt_field \<Rightarrow> bool" where
  "clock_token N v = (case v of Text tok \<Rightarrow> parse_clock_time N tok \<noteq> None | _ \<Rightarrow> False)"

definition delta_token :: "'c dated \<Rightarrow> dt_field \<Rightarrow> bool" where
  "delta_token N v = (case v of Text tok \<Rightarrow> parse_relative_minutes N tok \<noteq> None | _ \<Rightarrow> False)"

subsection \<open>Blank times\<close>

text \<open>Python's truth value of an attribute: \<^verbatim>\<open>None\<close> and the empty text are false.\<close>

definition truthy :: "dt_field \<Rightarrow> bool" where
  "truthy v = (case v of NoneT \<Rightarrow> False | Datetime d \<Rightarrow> True | Text s \<Rightarrow> s \<noteq> [])"

definition blank_reason :: "which \<Rightarrow> string" where
  "blank_reason w = ''Cannot infer date of '' @ which_name w @ '' time left blank''"

text \<open>\<open>now\<close> is \<^verbatim>\<open>controller.store.now\<close>.\<close>

definition fix_blank_time_relative ::
  "datetime \<Rightarrow> fact_ref \<Rightarrow> fact \<Rightarrow> which \<Rightarrow> datetime option \<Rightarrow> later \<Rightarrow> conflict list
    \<Rightarrow> error + (datetime option \<times> fact \<times> conflict list)" where
  "fix_blank_time_relative now r fct w prev_time later_facts conflicts =
     (case getattr fct w of
        Datetime d \<Rightarrow> Inr (Some d, fct, conflicts)
      | Text s \<Rightarrow> Inl AssertionError
      | NoneT \<Rightarrow>
          (let dt_suss =
                 (case w of
                    Start \<Rightarrow> prev_time
                  | End \<Rightarrow>
                      (case find_next_datetime later_facts of
                         Some (d, next_fact) \<Rightarrow> Some d
                       | None \<Rightarrow> Some now))
           in case dt_suss of
                Some d \<Rightarrow> Inr (Some d, setattr fct w (Datetime d), conflicts)
              | None \<Rightarrow> Inr (prev_time, fct, conflicts @ [(r, None, blank_reason w)])))"

fun fix_blank_times_loop ::
  "datetime \<Rightarrow> datetime option \<Rightarrow> later \<Rightarrow> later \<Rightarrow> conflict list \<Rightarrow> error + (fact list \<times> conflict list)" where
  "fix_blank_times_loop now prev_time later_facts [] conflicts = Inr ([], conflicts)"
| "fix_blank_times_loop now prev_time later_facts ((r, fct) # todo) conflicts =
     (case later_facts of
        [] \<Rightarrow> Inl IndexError
      | (r0, fact0) # popped \<Rightarrow>
          if r0 \<noteq> r then Inl AssertionError
          else if \<not> (truthy (start fct) \<or> truthy (end' fct)) then Inl AssertionError
          else
            (case fix_blank_time_relative now r fct Start prev_time popped conflicts of
               Inl e \<Rightarrow> Inl e
             | Inr (prev1, fact1, conflicts1) \<Rightarrow>
                 (case fix_blank_time_relative now r fact1 End prev1 popped conflicts1 of
                    Inl e \<Rightarrow> Inl e
                  | Inr (prev2, fact2, conflicts2) \<Rightarrow>
                      (case fix_blank_times_loop now prev2 popped todo conflicts2 of
                         Inl e \<Rightarrow> Inl e
                       | Inr (facts, conflicts3) \<Rightarrow> Inr (fact2 # facts, conflicts3)))))"

definition fix_blank_times_relative ::
  "datetime \<Rightarrow> fact list \<Rightarrow> stored_fact option \<Rightarrow> stored_fact option \<Rightarrow> conflict list
    \<Rightarrow> error + (fact list \<times> conflict list)" where
  "fix_blank_times_relative now new_facts ante_fact seqt_fact conflicts =
     (case prev_and_later new_facts ante_fact seqt_fact of
        Inl e \<Rightarrow> Inl e
      | Inr (prev_time, later_facts) \<Rightarrow>
          fix_blank_times_loop now prev_time later_facts (enumerate_from 0 new_facts) conflicts)"

text \<open>
  For stating what the passes do: the datetime a field holds, if it holds one; the
  entry \<^verbatim>\<open>prev_and_later\<close> appends to \<^verbatim>\<open>later_facts\<close> for the subsequent stored fact;
  and a fact that the blank-times pass accepts, that is one with no text left in its
  times and with at least one of them set.
\<close>

definition the_datetime :: "dt_field \<Rightarrow> datetime option" where
  "the_datetime v = (case v of Datetime d \<Rightarrow> Some d | _ \<Rightarrow> None)"

definition seqt_entry :: "stored_fact option \<Rightarrow> later" where
  "seqt_entry seqt_fact = (case seqt_fact of None \<Rightarrow> [] | Some s \<Rightarrow> [(SeqtFact, as_fact s)])"

definition is_text :: "dt_field \<Rightarrow> bool" where
  "is_text v = (case v of Text s \<Rightarrow> True | _ \<Rightarrow> False)"

definition ready_for_blanks :: "fact \<Rightarrow> bool" where
  "ready_for_blanks fct =
     (\<not> is_text (start fct) \<and> \<not> is_text (end' fct) \<and> (truthy (start fct) \<or> truthy (end' fct)))"

text \<open>
  The blank-times pass as the specification words it fills an end with "the earliest
  datetime found among later facts": the least of the datetimes that the starts and ends
  of the facts in \<^verbatim>\<open>later_facts\<close> hold, for comparison with \<open>find_next_datetime\<close>.
\<close>

definition later_datetimes :: "later \<Rightarrow> datetime list" where
  "later_datetimes later_facts =
     concat (map (\<lambda>(r, fct).
                    (case start fct of Datetime d \<Rightarrow> [d] | _ \<Rightarrow> [])
                    @ (case end' fct of Datetime d \<Rightarrow> [d] | _ \<Rightarrow> []))
               later_facts)"

definition earliest_datetime :: "later \<Rightarrow> datetime option" where
  "earliest_datetime later_facts =
     (case later_datetimes later_facts of [] \<Rightarrow> None | d # ds \<Rightarrow> Some (fold min ds d))"

subsection \<open>The sanity check\<close>

text \<open>
  Python's \<^verbatim>\<open><\<close> on the values an attribute can hold: two datetimes compare by time,
  two texts lexicographically, and anything else raises TypeError.
\<close>

definition py_lt :: "dt_field \<Rightarrow> dt_field \<Rightarrow> error + bool" where
  "py_lt a b =
     (case (a, b) of
        (Datetime x, Datetime y) \<Rightarrow> Inr (x < y)
      | (Text x, Text y) \<Rightarrow> Inr (x < y)
      | _ \<Rightarrow> Inl TypeError)"

definition starts_before_reason :: string where
  "starts_before_reason = ''New fact starts before previous fact ends''"

definition ends_after_reason :: string where
  "ends_after_reason = ''New fact ends after next fact starts''"

definition starts_after_ends_reason :: string where
  "starts_after_ends_reason = ''New fact starts after it ends/ends before it starts''"

definition verify_datetimes_missing_already_caught :: "fact_ref \<Rightarrow> conflict list \<Rightarrow> error + unit" where
  "verify_datetimes_missing_already_caught r conflicts =
     (let found_it = filter (\<lambda>conflict. r = fst conflict) conflicts
      in if length found_it > 0 then Inr () else Inl AssertionError)"

text \<open>
  The three checks of one iteration, each returning the running \<^verbatim>\<open>prev_time\<close> and the
  conflicts. In the sanity check \<^verbatim>\<open>prev_time\<close> is whatever a truthy attribute holds.
\<close>

definition check_start ::
  "fact_ref \<Rightarrow> fact \<Rightarrow> dt_field \<Rightarrow> fact_ref option \<Rightarrow> conflict list \<Rightarrow> error + (dt_field \<times> conflict list)" where
  "check_start r fct prev_time prev_fact conflicts =
     (if \<not> truthy (start fct) then
        (case verify_datetimes_missing_already_caught r conflicts of
           Inl e \<Rightarrow> Inl e
         | Inr u \<Rightarrow> Inr (prev_time, conflicts))
      else
        (case (if truthy prev_time then py_lt (start fct) prev_time else Inr False) of
           Inl e \<Rightarrow> Inl e
         | Inr before \<Rightarrow>
             Inr (start fct,
                  if before then conflicts @ [(r, prev_fact, starts_before_reason)] else conflicts)))"

definition check_end ::
  "fact_ref \<Rightarrow> fact \<Rightarrow> dt_field \<Rightarrow> later \<Rightarrow> conflict list \<Rightarrow> error + (dt_field \<times> conflict list)" where
  "check_end r fct prev_time later_facts conflicts =
     (if \<not> truthy (end' fct) then
        (case verify_datetimes_missing_already_caught r conflicts of
           Inl e \<Rightarrow> Inl e
         | Inr u \<Rightarrow> Inr (prev_time, conflicts))
      else
        (case find_next_datetime later_facts of
           None \<Rightarrow> Inr (end' fct, conflicts)
         | Some (next_time, next_fact) \<Rightarrow>
             (case py_lt (Datetime next_time) (end' fct) of
                Inl e \<Rightarrow> Inl e
              | Inr after \<Rightarrow>
                  Inr (end' fct,
                       if after then conflicts @ [(r, Some next_fact, ends_after_reason)]
                       else conflicts))))"

definition check_order :: "fact_ref \<Rightarrow> fact \<Rightarrow> conflict list \<Rightarrow> error + conflict list" where
  "check_order r fct conflicts =
     (if truthy (start fct) \<and> truthy (end' fct) then
        (case py_lt (end' fct) (start fct) of
           Inl e \<Rightarrow> Inl e
         | Inr inverted \<Rightarrow>
             Inr (if inverted then conflicts @ [(r, None, starts_after_ends_reason)] else conflicts))
      else Inr conflicts)"

fun verify_datetimes_loop ::
  "dt_field \<Rightarrow> fact_ref option \<Rightarrow> later \<Rightarrow> later \<Rightarrow> conflict list \<Rightarrow> error + conflict list" where
  "verify_datetimes_loop prev_time prev_fact later_facts [] conflicts = Inr conflicts"
| "verify_datetimes_loop prev_time prev_fact later_facts ((r, fct) # todo) conflicts =
     (case later_facts of
        [] \<Rightarrow> Inl IndexError
      | (r0, fact0) # popped \<Rightarrow>
          if r0 \<noteq> r then Inl AssertionError
          else
            (case check_start r fct prev_time prev_fact conflicts of
               Inl e \<Rightarrow> Inl e
             | Inr (prev1, conflicts1) \<Rightarrow>
                 (case check_end r fct prev1 popped conflicts1 of
                    Inl e \<Rightarrow> Inl e
                  | Inr (prev2, conflicts2) \<Rightarrow>
                      (case check_order r fct conflicts2 of
                         Inl e \<Rightarrow> Inl e
                       | Inr conflicts3 \<Rightarrow>
                           verify_datetimes_loop prev2 (Some r) popped todo conflicts3))))"

definition verify_datetimes_sanity ::
  "fact list \<Rightarrow> stored_fact option \<Rightarrow> stored_fact option \<Rightarrow> conflict list \<Rightarrow> error + conflict list" where
  "verify_datetimes_sanity new_facts ante_fact seqt_fact conflicts =
     (case prev_and_later new_facts ante_fact seqt_fact of
        Inl e \<Rightarrow> Inl e
      | Inr (prev_time, later_facts) \<Rightarrow>
          verify_datetimes_loop (field_of prev_time)
            (case ante_fact of None \<Rightarrow> None | Some a \<Rightarrow> Some AnteFact)
            later_facts (enumerate_from 0 new_facts) conflicts)"

text \<open>
  The conflict detector as the specification words it, for comparison with the loop
  above. \<open>fact_times\<close> lists the times of a sequence in the order the loop meets them,
  and \<open>last_truthy\<close> is the last of them that holds a value, or the given one when
  none does: the running \<^verbatim>\<open>prev_time\<close>. \<open>expected_conflicts\<close> are the conflicts of one
  fact: its start before \<^verbatim>\<open>prev_time\<close> (against the preceding fact), its end
  after the next datetime (against the fact that holds it), and its start after its end.
\<close>

definition fact_times :: "fact list \<Rightarrow> dt_field list" where
  "fact_times fs = concat (map (\<lambda>f. [start f, end' f]) fs)"

definition last_truthy :: "dt_field \<Rightarrow> dt_field list \<Rightarrow> dt_field" where
  "last_truthy p ts = (case List.find truthy (rev ts) of None \<Rightarrow> p | Some t \<Rightarrow> t)"

definition expected_conflicts ::
  "fact_ref \<Rightarrow> fact \<Rightarrow> dt_field \<Rightarrow> fact_ref option \<Rightarrow> later \<Rightarrow> conflict list" where
  "expected_conflicts r fct prev_time prev_fact later_facts =
     (case (start fct, prev_time) of
        (Datetime s, Datetime p) \<Rightarrow> if s < p then [(r, prev_fact, starts_before_reason)] else []
      | _ \<Rightarrow> [])
     @ (case (end' fct, find_next_datetime later_facts) of
          (Datetime e, Some (next_time, next_fact)) \<Rightarrow>
            if e > next_time then [(r, Some next_fact, ends_after_reason)] else []
        | _ \<Rightarrow> [])
     @ (case (start fct, end' fct) of
          (Datetime s, Datetime e) \<Rightarrow> if s > e then [(r, None, starts_after_ends_reason)] else []
        | _ \<Rightarrow> [])"

definition no_text :: "fact \<Rightarrow> bool" where
  "no_text fct = (\<not> is_text (start fct) \<and> \<not> is_text (end' fct))"

text \<open>
  The fact a conflict "starts before previous fact ends" names: the antecedent stored
  fact (if there is one) for the first new fact, the preceding new fact otherwise.
\<close>

definition prev_fact_ref :: "fact_ref option \<Rightarrow> nat \<Rightarrow> nat \<Rightarrow> fact_ref option" where
  "prev_fact_ref first k i = (case i of 0 \<Rightarrow> first | Suc j \<Rightarrow> Some (NewFact (k + j)))"

definition ante_ref :: "stored_fact option \<Rightarrow> fact_ref option" where
  "ante_ref ante_fact = (case ante_fact of None \<Rightarrow> None | Some a \<Rightarrow> Some AnteFact)"

subsection \<open>The import, from the hydrated facts on\<close>

datatype time_hint =
  verify_none | verify_start | verify_end | verify_both | verify_then | verify_still
  | verify_after | verify_last

text \<open>
  What the import reaches through \<^verbatim>\<open>controller\<close> and through functions that are not in
  these sources: the store's \<^verbatim>\<open>antecedent\<close> and \<^verbatim>\<open>subsequent\<close> queries and its
  \<^verbatim>\<open>now\<close>; \<^verbatim>\<open>mend_facts_times\<close> and the four-argument \<^verbatim>\<open>save_facts_maybe\<close>
  that transcode.py imports, each giving the conflicts it finds for one fact; and the
  carousel's answer \<^verbatim>\<open>gallop()\<close>.
\<close>

record controller =
  antecedent :: "datetime \<Rightarrow> stored_fact option"
  subsequent :: "datetime \<Rightarrow> stored_fact option"
  now :: datetime
  mend_facts_times :: "fact \<Rightarrow> time_hint \<Rightarrow> (fact \<times> fact) list"
  save_facts_maybe_conflicts :: "fact \<Rightarrow> bool \<Rightarrow> (fact \<times> fact) list"
  gallop :: "fact list \<Rightarrow> bool"

text \<open>
  What an import does that can be observed from outside: a conflict it prints, a fact it
  hands to \<^verbatim>\<open>mend_facts_times\<close>, a pair (edited fact, original) that
  \<^verbatim>\<open>echo_saved_fact_conflict\<close> prints for a new fact, and a fact it saves to the store,
  writes to the output file or only echoes. New facts are named by their position in
  \<^verbatim>\<open>new_facts\<close>.
\<close>

datatype import_event =
  ConflictShown conflict
  | MendTimes nat time_hint
  | SavedConflictShown nat fact fact
  | FactSaved nat
  | FactWritten nat
  | FactEchoed nat

fun antecedent_fact :: "controller \<Rightarrow> fact list \<Rightarrow> stored_fact option" where
  "antecedent_fact C [] = None"
| "antecedent_fact C (fct # new_facts) =
     (case start fct of
        Datetime d \<Rightarrow> antecedent C d
      | _ \<Rightarrow> (case end' fct of
                Datetime d \<Rightarrow> antecedent C d
              | _ \<Rightarrow> antecedent_fact C new_facts))"

fun subsequent_of_reversed :: "controller \<Rightarrow> fact list \<Rightarrow> stored_fact option" where
  "subsequent_of_reversed C [] = None"
| "subsequent_of_reversed C (fct # reversed_facts) =
     (case end' fct of
        Datetime d \<Rightarrow> subsequent C d
      | _ \<Rightarrow> (case start fct of
                Datetime d \<Rightarrow> subsequent C d
              | _ \<Rightarrow> subsequent_of_reversed C reversed_facts))"

definition subsequent_fact :: "controller \<Rightarrow> fact list \<Rightarrow> stored_fact option" where
  "subsequent_fact C new_facts = subsequent_of_reversed C (rev new_facts)"

text \<open>
  Modelled from the spec: \<^verbatim>\<open>barf_and_exit\<close> (cmd_common.py, not in these sources) ends the
  program, so what follows its call does not run. Before it, one block is printed for
  every conflict.
\<close>

definition barf_on_overlapping_facts_new :: "conflict list \<Rightarrow> (error + unit) \<times> import_event list" where
  "barf_on_overlapping_facts_new conflicts =
     (if conflicts = [] then (Inr (), [])
      else (Inl SystemExit, map ConflictShown conflicts))"

definition must_complete_times ::
  "'c dated \<Rightarrow> controller \<Rightarrow> fact list \<Rightarrow> (error + fact list) \<times> import_event list" where
  "must_complete_times N C new_facts =
     (if new_facts = [] then (Inr new_facts, [])
      else
        (let conflicts = [];
             ante_fact = antecedent_fact C new_facts;
             seqt_fact = subsequent_fact C new_facts
         in case fix_clock_times_relative N new_facts ante_fact seqt_fact conflicts of
              Inl e \<Rightarrow> (Inl e, [])
            | Inr (facts1, conflicts1) \<Rightarrow>
                (case fix_delta_times_relative N facts1 ante_fact seqt_fact conflicts1 of
                   Inl e \<Rightarrow> (Inl e, [])
                 | Inr (facts2, conflicts2) \<Rightarrow>
                     (case fix_blank_times_relative (now C) facts2 ante_fact seqt_fact conflicts2 of
                        Inl e \<Rightarrow> (Inl e, [])
                      | Inr (facts3, conflicts3) \<Rightarrow>
                          (case verify_datetimes_sanity facts3 ante_fact seqt_fact conflicts3 of
                             Inl e \<Rightarrow> (Inl e, [])
                           | Inr conflicts4 \<Rightarrow>
                               (case barf_on_overlapping_facts_new conflicts4 of
                                  (Inl e, out) \<Rightarrow> (Inl e, out)
                                | (Inr u, out) \<Rightarrow> (Inr facts3, out)))))))"

text \<open>
  The loop of \<^verbatim>\<open>must_not_conflict_existing\<close>: \<^verbatim>\<open>all_conflicts\<close>, the new facts for
  which \<^verbatim>\<open>mend_facts_times\<close> reports conflicts with stored facts, each with what was
  reported, and the calls made. \<^verbatim>\<open>barf_on_overlapping_facts_old\<close> prints one block
  for every reported pair and leaves through \<^verbatim>\<open>barf_and_exit\<close>.
\<close>

fun must_not_conflict_loop ::
  "controller \<Rightarrow> nat \<Rightarrow> fact list \<Rightarrow> (nat \<times> (fact \<times> fact) list) list \<times> import_event list" where
  "must_not_conflict_loop C idx [] = ([], [])"
| "must_not_conflict_loop C idx (fct # todo) =
     (let conflicts = mend_facts_times C fct verify_both;
          (all_conflicts, out) = must_not_conflict_loop C (Suc idx) todo
      in ((if conflicts \<noteq> [] then [(idx, conflicts)] else []) @ all_conflicts,
          MendTimes idx verify_both # out))"

definition barf_on_overlapping_facts_old ::
  "(nat \<times> (fact \<times> fact) list) list \<Rightarrow> (error + unit) \<times> import_event list" where
  "barf_on_overlapping_facts_old conflicts =
     (if conflicts = [] then (Inr (), [])
      else (Inl SystemExit,
            concat (map (\<lambda>(idx, resolved_edits).
                      map (\<lambda>(edited_fact, original). SavedConflictShown idx edited_fact original)
                        resolved_edits) conflicts)))"

definition must_not_conflict_existing :: "controller \<Rightarrow> fact list \<Rightarrow> (error + unit) \<times> import_event list" where
  "must_not_conflict_existing C new_facts =
     (case must_not_conflict_loop C 0 new_facts of
        (all_conflicts, out) \<Rightarrow>
          (case barf_on_overlapping_facts_old all_conflicts of
             (res, shown) \<Rightarrow> (res, out @ shown)))"

text \<open>
  \<^verbatim>\<open>persist_fact\<close> and the loop of \<^verbatim>\<open>record_new_facts\<close>. A conflict reported while
  saving fails an assertion; \<^verbatim>\<open>prompt_and_save\<close> catches it and leaves through
  \<^verbatim>\<open>dob_in_user_exit\<close>. \<open>file_out\<close> says whether an output file was given.
\<close>

definition persist_fact_import ::
  "controller \<Rightarrow> fact \<Rightarrow> nat \<Rightarrow> bool \<Rightarrow> bool \<Rightarrow> (error + unit) \<times> import_event list" where
  "persist_fact_import C fct idx file_out dry =
     (if \<not> dry then
        (if \<not> file_out then
           (if save_facts_maybe_conflicts C fct dry \<noteq> [] then (Inl AssertionError, [FactSaved idx])
            else (Inr (), [FactSaved idx]))
         else (Inr (), [FactWritten idx]))
      else (Inr (), [FactEchoed idx]))"

fun record_new_facts ::
  "controller \<Rightarrow> nat \<Rightarrow> fact list \<Rightarrow> bool \<Rightarrow> bool \<Rightarrow> (error + unit) \<times> import_event list" where
  "record_new_facts C idx [] file_out dry = (Inr (), [])"
| "record_new_facts C idx (fct # todo) file_out dry =
     (case persist_fact_import C fct idx file_out dry of
        (Inl e, out) \<Rightarrow> (Inl e, out)
      | (Inr u, out) \<Rightarrow>
          (case record_new_facts C (Suc idx) todo file_out dry of
             (res, out') \<Rightarrow> (res, out @ out')))"

definition prompt_and_save_import ::
  "controller \<Rightarrow> fact list \<Rightarrow> bool \<Rightarrow> bool \<Rightarrow> bool \<Rightarrow> (error + unit) \<times> import_event list" where
  "prompt_and_save_import C new_facts file_out yes dry =
     (let confirmed_all = (if yes then True else gallop C new_facts)
      in if \<not> confirmed_all then (Inr (), [])
         else
           (case record_new_facts C 0 new_facts file_out dry of
              (Inl e, out) \<Rightarrow> (Inl SystemExit, out)
            | (Inr u, out) \<Rightarrow> (Inr (), out)))"

text \<open>
  \<^verbatim>\<open>_import_facts\<close> from the line after \<^verbatim>\<open>hydrate_facts\<close>: \<open>new_facts\<close> are the
  hydrated drafts in their sorted order.
\<close>

definition import_facts ::
  "'c dated \<Rightarrow> controller \<Rightarrow> fact list \<Rightarrow> bool \<Rightarrow> bool \<Rightarrow> bool \<Rightarrow> (error + unit) \<times> import_event list" where
  "import_facts N C new_facts file_out yes dry =
     (case must_complete_times N C new_facts of
        (Inl e, out1) \<Rightarrow> (Inl e, out1)
      | (Inr facts, out1) \<Rightarrow>
          (case must_not_conflict_existing C facts of
             (Inl e, out2) \<Rightarrow> (Inl e, out1 @ out2)
           | (Inr u, out2) \<Rightarrow>
               (case prompt_and_save_import C facts file_out yes dry of
                  (res, out3) \<Rightarrow> (res, out1 @ out2 @ out3))))"

section \<open>Saving a batch of facts (create.py)\<close>

text \<open>
  The facts of a batch are Python objects that several lists refer to and that saving
  mutates, so they live in a heap, addressed by their identity. A run leaves a trace of
  what it did to the outside: a fact handed to the mender with its time hint, a
  confirmation prompt (its number, the edited fact and the original), and a fact saved to
  the store, written to the output file or only echoed.
\<close>

type_synonym addr = nat

datatype event =
  Mended addr time_hint
  | Prompted nat addr addr
  | Saved addr
  | Written addr
  | Echoed addr

record 's world =
  heap :: "addr \<Rightarrow> fact"
  store :: 's
  trace :: "event list"

text \<open>
  \<^verbatim>\<open>other_edits\<close>, a dict from \<^verbatim>\<open>pk\<close> to fact: an association list in insertion order,
  with \<^verbatim>\<open>AList.update\<close> for a store and \<^verbatim>\<open>AList.delete\<close> for \<^verbatim>\<open>del\<close>.
\<close>

type_synonym other_edits = "(int option \<times> addr) list"

text \<open>
  What create.py calls and these sources do not hold. \<^verbatim>\<open>mend_fact_timey_wimey\<close>
  (helpers/fix_times.py) reads the store and \<^verbatim>\<open>other_edits\<close>, may mutate fact objects,
  and returns the facts to save and the (edited, original) conflicts, or raises
  ValueError (\<^verbatim>\<open>None\<close> here). \<^verbatim>\<open>controller.facts.save\<close> returns the stored fact and the
  new store, or raises (\<^verbatim>\<open>None\<close>). \<^verbatim>\<open>click.confirm\<close> is the user's answer to the prompt
  with the given number for the given original and edited fact.
\<close>

record 's collaborators =
  mend_fact_timey_wimey ::
    "(addr \<Rightarrow> fact) \<Rightarrow> 's \<Rightarrow> addr \<Rightarrow> time_hint \<Rightarrow> other_edits
      \<Rightarrow> ((addr list \<times> (addr \<times> addr) list) \<times> (addr \<Rightarrow> fact)) option"
  facts_save :: "'s \<Rightarrow> fact \<Rightarrow> int option list \<Rightarrow> (fact \<times> 's) option"
  confirm :: "nat \<Rightarrow> fact \<Rightarrow> fact \<Rightarrow> bool"

subsection \<open>Confirming the edits\<close>

definition cull_stopped_ongoing :: "(addr \<Rightarrow> fact) \<Rightarrow> (addr \<times> addr) list \<Rightarrow> (addr \<times> addr) list" where
  "cull_stopped_ongoing h conflicts =
     filter (\<lambda>con. ''stopped'' \<notin> dirty_reasons (h (fst con))) conflicts"

text \<open>
  The loop of \<^verbatim>\<open>_must_confirm_fact_edits\<close>: the two counters when it ends, and the
  prompts it has shown.
\<close>

fun confirm_loop ::
  "'s collaborators \<Rightarrow> (addr \<Rightarrow> fact) \<Rightarrow> bool \<Rightarrow> nat \<Rightarrow> nat \<Rightarrow> (addr \<times> addr) list
    \<Rightarrow> (nat \<times> nat) \<times> event list" where
  "confirm_loop X h yes n_conflict n_confirms [] = ((n_conflict, n_confirms), [])"
| "confirm_loop X h yes n_conflict n_confirms ((edited_fact, original) # conflicts) =
     (if \<not> yes then
        (let confirmed = confirm X (n_conflict + 1) (h original) (h edited_fact);
             (counts, out) =
               confirm_loop X h yes (n_conflict + 1) (n_confirms + (if confirmed then 1 else 0)) conflicts
         in (counts, Prompted (n_conflict + 1) edited_fact original # out))
      else confirm_loop X h yes (n_conflict + 1) n_confirms conflicts)"

text \<open>
  Modelled from the spec: \<^verbatim>\<open>dob_in_user_exit\<close> (helpers, not in these sources) prints its
  message and ends the program, so nothing after it runs.
\<close>

definition must_confirm_fact_edits ::
  "'s collaborators \<Rightarrow> 's world \<Rightarrow> (addr \<times> addr) list \<Rightarrow> bool \<Rightarrow> bool \<Rightarrow> (error + unit) \<times> 's world" where
  "must_confirm_fact_edits X w conflicts yes dry =
     (let culled = cull_stopped_ongoing (heap w) conflicts
      in if culled = [] then (Inr (), w)
         else
           (case confirm_loop X (heap w) (yes \<or> dry) 0 0 culled of
              ((n_conflict, n_confirms), out) \<Rightarrow>
                if n_conflict \<noteq> n_confirms
                then (Inl SystemExit, w\<lparr>trace := trace w @ out\<rparr>)
                else (Inr (), w\<lparr>trace := trace w @ out\<rparr>)))"

subsection \<open>Saving\<close>

definition save_fact ::
  "'s collaborators \<Rightarrow> 's world \<Rightarrow> addr \<Rightarrow> bool \<Rightarrow> int option list \<Rightarrow> (error + fact list) \<times> 's world" where
  "save_fact X w a dry ignore_pks =
     (let w1 = (case pk (heap w a) of
                  Some k \<Rightarrow>
                    if k \<noteq> 0 \<and> k < 0 then w\<lparr>heap := (heap w)(a := (heap w a)\<lparr>pk := None\<rparr>)\<rparr> else w
                | None \<Rightarrow> w);
          fct = heap w1 a
      in if pk fct = None \<and> deleted fct then (Inr [], w1)
         else if \<not> dry then
           (case facts_save X (store w1) fct ignore_pks of
              None \<Rightarrow> (Inl SystemExit, w1)
            | Some (new_fact, st) \<Rightarrow>
                (Inr [new_fact], w1\<lparr>store := st, trace := trace w1 @ [Saved a]\<rparr>))
         else (Inr [fct], w1\<lparr>trace := trace w1 @ [Echoed a]\<rparr>))"

text \<open>The two loops of \<^verbatim>\<open>_save_facts_maybe\<close>, over the conflicts and over the new facts.\<close>

fun save_edited_loop ::
  "'s collaborators \<Rightarrow> 's world \<Rightarrow> (addr \<times> addr) list \<Rightarrow> bool \<Rightarrow> (error + fact list) \<times> 's world" where
  "save_edited_loop X w [] dry = (Inr [], w)"
| "save_edited_loop X w ((edited_fact, original) # conflicts) dry =
     (if \<not> dry then
        (case save_fact X w edited_fact dry [] of
           (Inl e, w1) \<Rightarrow> (Inl e, w1)
         | (Inr saved, w1) \<Rightarrow>
             (case save_edited_loop X w1 conflicts dry of
                (Inl e, w2) \<Rightarrow> (Inl e, w2)
              | (Inr others, w2) \<Rightarrow> (Inr (saved @ others), w2)))
      else save_edited_loop X w conflicts dry)"

fun save_new_loop ::
  "'s collaborators \<Rightarrow> 's world \<Rightarrow> addr list \<Rightarrow> int option list \<Rightarrow> bool \<Rightarrow> (error + fact list) \<times> 's world" where
  "save_new_loop X w [] ignore_pks dry = (Inr [], w)"
| "save_new_loop X w (a # new_facts) ignore_pks dry =
     (case save_fact X w a dry ignore_pks of
        (Inl e, w1) \<Rightarrow> (Inl e, w1)
      | (Inr saved, w1) \<Rightarrow>
          (case save_new_loop X w1 new_facts ignore_pks dry of
             (Inl e, w2) \<Rightarrow> (Inl e, w2)
           | (Inr others, w2) \<Rightarrow> (Inr (saved @ others), w2)))"

definition save_facts_maybe ::
  "'s collaborators \<Rightarrow> 's world \<Rightarrow> addr list \<Rightarrow> (addr \<times> addr) list \<Rightarrow> int option list \<Rightarrow> bool
    \<Rightarrow> (error + fact list) \<times> 's world" where
  "save_facts_maybe X w new_facts conflicts ignore_pks dry =
     (case save_edited_loop X w conflicts dry of
        (Inl e, w1) \<Rightarrow> (Inl e, w1)
      | (Inr edited, w1) \<Rightarrow>
          (case save_new_loop X w1 new_facts ignore_pks dry of
             (Inl e, w2) \<Rightarrow> (Inl e, w2)
           | (Inr new, w2) \<Rightarrow> (Inr (edited @ new), w2)))"

definition mend_facts_confirm_and_save_maybe ::
  "'s collaborators \<Rightarrow> 's world \<Rightarrow> addr \<Rightarrow> time_hint \<Rightarrow> other_edits \<Rightarrow> bool \<Rightarrow> bool
    \<Rightarrow> (error + fact list) \<times> 's world" where
  "mend_facts_confirm_and_save_maybe X w a hint other_edits yes dry =
     (case mend_fact_timey_wimey X (heap w) (store w) a hint other_edits of
        None \<Rightarrow> (Inl ValueError, w\<lparr>trace := trace w @ [Mended a hint]\<rparr>)
      | Some ((new_fact_or_two, conflicts), h) \<Rightarrow>
          (let w1 = w\<lparr>heap := h, trace := trace w @ [Mended a hint]\<rparr>;
               ignore_pks = map fst other_edits
           in case must_confirm_fact_edits X w1 conflicts yes dry of
                (Inl e, w2) \<Rightarrow> (Inl e, w2)
              | (Inr u, w2) \<Rightarrow> save_facts_maybe X w2 new_fact_or_two conflicts ignore_pks dry))"

subsection \<open>The save loop\<close>

definition persist_fact_save ::
  "'s collaborators \<Rightarrow> 's world \<Rightarrow> addr \<Rightarrow> bool \<Rightarrow> other_edits \<Rightarrow> bool \<Rightarrow> bool
    \<Rightarrow> (error + fact list) \<times> 's world" where
  "persist_fact_save X w a is_final_fact other_edits yes dry =
     (let hint = (if \<not> is_final_fact then verify_both else verify_last)
      in mend_facts_confirm_and_save_maybe X w a hint other_edits yes dry)"

text \<open>\<open>file_out\<close> says whether an output file was given.\<close>

definition persist_fact ::
  "'s collaborators \<Rightarrow> 's world \<Rightarrow> addr \<Rightarrow> other_edits \<Rightarrow> bool \<Rightarrow> bool \<Rightarrow> bool \<Rightarrow> bool \<Rightarrow> bool
    \<Rightarrow> (error + fact list) \<times> 's world" where
  "persist_fact X w a other_edits is_first_fact is_final_fact file_out yes dry =
     (if \<not> dry then
        (if \<not> file_out then persist_fact_save X w a is_final_fact other_edits yes dry
         else (Inr [heap w a], w\<lparr>trace := trace w @ [Written a]\<rparr>))
      else (Inr [heap w a], w\<lparr>trace := trace w @ [Echoed a]\<rparr>))"

text \<open>
  The key \<^verbatim>\<open>fact.pk is not None and fact.pk or fact_pk\<close>: the fact's \<^verbatim>\<open>pk\<close> when it is
  neither \<^verbatim>\<open>None\<close> nor zero, and the \<^verbatim>\<open>pk\<close> it had before it was persisted otherwise.
\<close>

definition edits_key :: "int option \<Rightarrow> int option \<Rightarrow> int option" where
  "edits_key now_pk fact_pk =
     (case now_pk of None \<Rightarrow> fact_pk | Some k \<Rightarrow> if k \<noteq> 0 then Some k else fact_pk)"

text \<open>
  The loop of \<^verbatim>\<open>record_ready_facts\<close> over \<^verbatim>\<open>enumerate(ready_facts)\<close>; \<open>n\<close> is
  \<^verbatim>\<open>len(ready_facts)\<close>. It returns \<^verbatim>\<open>new_and_edited\<close> and \<^verbatim>\<open>other_edits\<close> as the loop
  leaves them; \<^verbatim>\<open>del\<close> of a missing key raises KeyError.
\<close>

fun record_ready_loop ::
  "'s collaborators \<Rightarrow> 's world \<Rightarrow> nat \<Rightarrow> nat \<Rightarrow> addr list \<Rightarrow> other_edits \<Rightarrow> bool \<Rightarrow> bool \<Rightarrow> bool
    \<Rightarrow> (error + (fact list \<times> other_edits)) \<times> 's world" where
  "record_ready_loop X w n idx [] other_edits file_out yes dry = (Inr ([], other_edits), w)"
| "record_ready_loop X w n idx (a # todo) other_edits file_out yes dry =
     (let is_first_fact = (idx = 0);
          is_final_fact = (int idx = int n - 1);
          fact_pk = pk (heap w a)
      in case persist_fact X w a other_edits is_first_fact is_final_fact file_out yes dry of
           (Inl e, w1) \<Rightarrow> (Inl e, w1)
         | (Inr saved, w1) \<Rightarrow>
             (let key = edits_key (pk (heap w1 a)) fact_pk
              in if key \<notin> set (map fst other_edits) then (Inl KeyError, w1)
                 else
                   (case record_ready_loop X w1 n (Suc idx) todo (AList.delete key other_edits)
                           file_out yes dry of
                      (Inl e, w2) \<Rightarrow> (Inl e, w2)
                    | (Inr (others, left), w2) \<Rightarrow> (Inr (saved @ others, left), w2))))"

definition initial_other_edits :: "(addr \<Rightarrow> fact) \<Rightarrow> addr list \<Rightarrow> other_edits" where
  "initial_other_edits h ready_facts = foldl (\<lambda>d a. AList.update (pk (h a)) a d) [] ready_facts"

definition record_ready_facts ::
  "'s collaborators \<Rightarrow> 's world \<Rightarrow> addr list \<Rightarrow> bool \<Rightarrow> bool \<Rightarrow> bool \<Rightarrow> (error + unit) \<times> 's world" where
  "record_ready_facts X w ready_facts file_out yes dry =
     (let other_edits = initial_other_edits (heap w) ready_facts
      in case record_ready_loop X w (length ready_facts) 0 ready_facts other_edits file_out yes dry of
           (Inl e, w1) \<Rightarrow> (Inl e, w1)
         | (Inr (new_and_edited, left), w1) \<Rightarrow>
             if length left = 0 then (Inr (), w1) else (Inl AssertionError, w1))"


definition is_saved :: "event \<Rightarrow> bool" where
  "is_saved ev = (case ev of Saved a \<Rightarrow> True | _ \<Rightarrow> False)"

definition hint_at :: "nat \<Rightarrow> nat \<Rightarrow> time_hint" where
  "hint_at n i = (if int i = int n - 1 then verify_last else verify_both)"


section \<open>Values used in the examples\<close>

text \<open>
  An instance of the library functions for the examples: a clock time is the time of day
  in microseconds, the closest occurrence before an anchor is the latest one not after
  it, and the closest occurrence after an anchor is the earliest one not before it. Times
  in the examples count from 2024-01-01T00:00, the datetime 738885 days after the first
  one: \<open>hours h\<close> is \<open>h\<close> hours after it.
\<close>

definition example_dated :: "int dated" where
  "example_dated =
     \<lparr>parse_clock_time = (\<lambda>s. if s = ''14:30'' then Some 52200000000 else None),
      parse_relative_minutes =
        (\<lambda>s. if s = ''+30'' then Some 30 else if s = ''-15'' then Some (- 15) else None),
      datetime_from_clock_prior = (\<lambda>d c. d - ((d - c) mod 86400000000)),
      datetime_from_clock_after = (\<lambda>d c. d + ((c - d) mod 86400000000))\<rparr>"

definition draft :: "int \<Rightarrow> dt_field \<Rightarrow> dt_field \<Rightarrow> fact" where
  "draft k s e = \<lparr>pk = Some k, start = s, end' = e, deleted = False, dirty_reasons = {}\<rparr>"

definition hours :: "int \<Rightarrow> datetime" where
  "hours h = 63839664000000000 + 3600000000 * h"

definition stored :: "int \<Rightarrow> datetime option \<Rightarrow> datetime option \<Rightarrow> stored_fact" where
  "stored k s e = \<lparr>pk = Some k, start = s, end' = e, deleted = False, dirty_reasons = {}\<rparr>"

text \<open>An empty store at 20:00 whose collaborators report nothing and confirm everything.\<close>

definition example_controller :: controller where
  "example_controller =
     \<lparr>antecedent = (\<lambda>t. None), subsequent = (\<lambda>t. None), now = hours 20,
      mend_facts_times = (\<lambda>f h. []), save_facts_maybe_conflicts = (\<lambda>f d. []),
      gallop = (\<lambda>fs. True)\<rparr>"

text \<open>
  A heap for the examples: new facts with placeholder identities at the addresses 0, 1
  and 2; at 7 a stored fact that the mender has stopped, with its original at 8; at 9 a
  stored fact that the mender has edited otherwise, with its original at 10. The store is
  the list of the facts saved so far. Of the three sets of collaborators, the first mender
  reports both edits as conflicts and the user rejects them; the second mender reports
  none; the third mender reports the edit of the fact at 9 when it mends the new fact at
  1, and nothing for any other fact, and the user rejects it.
\<close>

definition example_heap :: "addr \<Rightarrow> fact" where
  "example_heap =
     (\<lambda>a. draft (- int a - 1) (Datetime (hours (int a))) (Datetime (hours (int a + 1))))
       (7 := \<lparr>pk = Some 7, start = Datetime (hours 0), end' = Datetime (hours 9), deleted = False,
              dirty_reasons = {''stopped''}\<rparr>,
        8 := \<lparr>pk = Some 7, start = Datetime (hours 0), end' = NoneT, deleted = False,
              dirty_reasons = {}\<rparr>,
        9 := \<lparr>pk = Some 9, start = Datetime (hours 30), end' = Datetime (hours 31), deleted = False,
              dirty_reasons = {''end''}\<rparr>,
        10 := \<lparr>pk = Some 9, start = Datetime (hours 30), end' = Datetime (hours 32), deleted = False,
              dirty_reasons = {}\<rparr>)"

definition example_world :: "fact list world" where
  "example_world = \<lparr>heap = example_heap, store = [], trace = []\<rparr>"

definition rejecting :: "fact list collaborators" where
  "rejecting =
     \<lparr>mend_fact_timey_wimey = (\<lambda>h st a hint oe. Some (([a], [(7, 8), (9, 10)]), h)),
      facts_save = (\<lambda>st f ignore_pks. Some (f, st @ [f])),
      confirm = (\<lambda>n original edited. False)\<rparr>"


definition rejecting_second :: "fact list collaborators" where
  "rejecting_second =
     \<lparr>mend_fact_timey_wimey = (\<lambda>h st a hint oe. Some (([a], if a = 1 then [(9, 10)] else []), h)),
      facts_save = (\<lambda>st f ignore_pks. Some (f, st @ [f])),
      confirm = (\<lambda>n original edited. False)\<rparr>"

section \<open>Facts about the passes\<close>

lemma nth_enumerate_from:
  "i < length fs \<Longrightarrow> enumerate_from k fs ! i = (NewFact (k + i), fs ! i)"
proof (induction fs arbitrary: k i)
  case Nil
  then show ?case by simp
next
  case (Cons f fs)
  then show ?case by (cases i) simp_all
qed

lemma length_enumerate_from [simp]: "length (enumerate_from k fs) = length fs"
  by (induction fs arbitrary: k) simp_all

lemma getattr_setattr:
  "getattr (setattr f w v) w' = (if w' = w then v else getattr f w')"
  by (cases w; cases w') (simp_all add: getattr_def setattr_def)

lemma clock_step_keeps_datetime:
  assumes "fix_clock_time_relative N r f w p l c = (p', f', c')"
    and "getattr f w0 = Datetime d"
  shows "getattr f' w0 = Datetime d"
  using assms
  by (auto simp: fix_clock_time_relative_def infer_datetime_from_clock_def Let_def getattr_setattr
      split: dt_field.splits option.splits if_splits)

lemma delta_step_keeps_datetime:
  assumes "fix_delta_time_relative N r f w p l c = Inr (p', f', c')"
    and "getattr f w0 = Datetime d"
  shows "getattr f' w0 = Datetime d"
  using assms
  by (auto simp: fix_delta_time_relative_def infer_datetime_from_delta_def Let_def getattr_setattr
      split: dt_field.splits option.splits if_splits prod.splits which.splits sum.splits)

lemma clock_loop_keeps_datetime:
  assumes "fix_clock_times_loop N prev later todo cs = Inr (fs', cs')"
  shows "length fs' = length todo
       \<and> (\<forall>i<length todo. \<forall>w d. getattr (snd (todo ! i)) w = Datetime d \<longrightarrow> getattr (fs' ! i) w = Datetime d)"
  using assms
proof (induction todo arbitrary: prev later cs fs' cs')
  case Nil
  then show ?case by simp
next
  case (Cons rf todo)
  obtain r f where rf: "rf = (r, f)" by (cases rf)
  from Cons.prems rf obtain r0 f0 popped where later: "later = (r0, f0) # popped"
    by (cases later) auto
  obtain p1 f1 c1 where s1: "fix_clock_time_relative N r f Start prev popped cs = (p1, f1, c1)"
    by (cases "fix_clock_time_relative N r f Start prev popped cs")
  obtain p2 f2 c2 where s2: "fix_clock_time_relative N r f1 End p1 popped c1 = (p2, f2, c2)"
    by (cases "fix_clock_time_relative N r f1 End p1 popped c1")
  from Cons.prems rf later s1 s2 obtain tl' where
    rec: "fix_clock_times_loop N p2 popped todo c2 = Inr (tl', cs')" and fs': "fs' = f2 # tl'"
    by (auto split: if_splits sum.splits)
  from Cons.IH [OF rec] have ih: "length tl' = length todo"
    "\<And>i w d. i < length todo \<Longrightarrow> getattr (snd (todo ! i)) w = Datetime d \<Longrightarrow> getattr (tl' ! i) w = Datetime d"
    by auto
  have head: "\<And>w d. getattr f w = Datetime d \<Longrightarrow> getattr f2 w = Datetime d"
    using clock_step_keeps_datetime [OF s1] clock_step_keeps_datetime [OF s2] by blast
  show ?case
  proof (intro conjI allI impI)
    show "length fs' = length (rf # todo)" using fs' ih(1) by simp
  next
    fix i w d
    assume "i < length (rf # todo)" and "getattr (snd ((rf # todo) ! i)) w = Datetime d"
    then show "getattr (fs' ! i) w = Datetime d"
      using fs' rf head ih(2) by (cases i) auto
  qed
qed

lemma delta_loop_keeps_datetime:
  assumes "fix_delta_times_loop N prev later todo cs = Inr (fs', cs')"
  shows "length fs' = length todo
       \<and> (\<forall>i<length todo. \<forall>w d. getattr (snd (todo ! i)) w = Datetime d \<longrightarrow> getattr (fs' ! i) w = Datetime d)"
  using assms
proof (induction todo arbitrary: prev later cs fs' cs')
  case Nil
  then show ?case by simp
next
  case (Cons rf todo)
  obtain r f where rf: "rf = (r, f)" by (cases rf)
  from Cons.prems rf obtain r0 f0 popped where later: "later = (r0, f0) # popped"
    by (cases later) auto
  from Cons.prems rf later obtain p1 f1 c1 where
    s1: "fix_delta_time_relative N r f Start prev popped cs = Inr (p1, f1, c1)"
    by (auto split: if_splits sum.splits)
  from Cons.prems rf later s1 obtain p2 f2 c2 where
    s2: "fix_delta_time_relative N r f1 End p1 popped c1 = Inr (p2, f2, c2)"
    by (auto split: if_splits sum.splits)
  from Cons.prems rf later s1 s2 obtain tl' where
    rec: "fix_delta_times_loop N p2 popped todo c2 = Inr (tl', cs')" and fs': "fs' = f2 # tl'"
    by (auto split: if_splits sum.splits)
  from Cons.IH [OF rec] have ih: "length tl' = length todo"
    "\<And>i w d. i < length todo \<Longrightarrow> getattr (snd (todo ! i)) w = Datetime d \<Longrightarrow> getattr (tl' ! i) w = Datetime d"
    by auto
  have head: "\<And>w d. getattr f w = Datetime d \<Longrightarrow> getattr f2 w = Datetime d"
    using delta_step_keeps_datetime [OF s1] delta_step_keeps_datetime [OF s2] by blast
  show ?case
  proof (intro conjI allI impI)
    show "length fs' = length (rf # todo)" using fs' ih(1) by simp
  next
    fix i w d
    assume "i < length (rf # todo)" and "getattr (snd ((rf # todo) ! i)) w = Datetime d"
    then show "getattr (fs' ! i) w = Datetime d"
      using fs' rf head ih(2) by (cases i) auto
  qed
qed

lemma clock_reason_inj [simp]: "clock_reason w = clock_reason w' \<longleftrightarrow> w = w'"
  by (cases w; cases w') (simp_all add: clock_reason_def which_name_def)

lemma delta_reason_inj [simp]: "delta_reason w = delta_reason w' \<longleftrightarrow> w = w'"
  by (cases w; cases w') (simp_all add: delta_reason_def which_name_def)

lemma clock_step_report:
  assumes "fix_clock_time_relative N r f w p l c = (p', f', c')"
  shows "(c' = c \<and> \<not> clock_token N (getattr f' w)
          \<or> c' = c @ [(r, None, clock_reason w)] \<and> clock_token N (getattr f' w))
       \<and> (\<forall>w'. w' \<noteq> w \<longrightarrow> getattr f' w' = getattr f w')"
  using assms
  by (auto simp: fix_clock_time_relative_def infer_datetime_from_clock_def Let_def getattr_setattr
      clock_token_def split: dt_field.splits option.splits if_splits)

lemma delta_step_report:
  assumes "fix_delta_time_relative N r f w p l c = Inr (p', f', c')"
  shows "(c' = c \<and> \<not> delta_token N (getattr f' w)
          \<or> c' = c @ [(r, None, delta_reason w)] \<and> delta_token N (getattr f' w))
       \<and> (\<forall>w'. w' \<noteq> w \<longrightarrow> getattr f' w' = getattr f w')"
  using assms
  by (auto simp: fix_delta_time_relative_def infer_datetime_from_delta_def Let_def getattr_setattr
      delta_token_def
      split: dt_field.splits option.splits if_splits prod.splits which.splits sum.splits)

lemma datetime_add_error: "datetime_add d delta = Inl e \<Longrightarrow> e = OverflowError"
  by (simp add: datetime_add_def split: if_splits)

lemma delta_step_error:
  assumes "fix_delta_time_relative N r f w p l c = Inl e"
  shows "e = OverflowError"
proof -
  have lifted: "\<And>d delta. map_sum id Some (datetime_add d delta) = Inl e \<Longrightarrow> e = OverflowError"
    by (simp add: datetime_add_def split: if_splits)
  from assms show ?thesis
    by (auto simp: fix_delta_time_relative_def infer_datetime_from_delta_def
        split: dt_field.splits option.splits if_splits prod.splits which.splits sum.splits
        dest: lifted)
qed

lemma clock_fact_report:
  assumes s1: "fix_clock_time_relative N r f Start p l c = (p1, f1, c1)"
    and s2: "fix_clock_time_relative N r f1 End p1 l c1 = (p2, f2, c2)"
  shows "\<exists>a. c2 = c @ a
          \<and> (\<forall>x\<in>set a. \<exists>w. x = (r, None, clock_reason w) \<and> clock_token N (getattr f2 w))
          \<and> (\<forall>w. clock_token N (getattr f2 w) \<longrightarrow> (r, None, clock_reason w) \<in> set a)"
proof -
  from clock_step_report [OF s1] have
    a1: "c1 = c \<and> \<not> clock_token N (getattr f1 Start)
         \<or> c1 = c @ [(r, None, clock_reason Start)] \<and> clock_token N (getattr f1 Start)"
    by simp
  from clock_step_report [OF s2] have
    a2: "c2 = c1 \<and> \<not> clock_token N (getattr f2 End)
         \<or> c2 = c1 @ [(r, None, clock_reason End)] \<and> clock_token N (getattr f2 End)"
    and keep: "getattr f2 Start = getattr f1 Start"
    by simp_all
  have all_w: "\<And>P. (\<forall>w. P w) \<longleftrightarrow> P Start \<and> P End"
    by (metis which.exhaust)
  have ex_w: "\<And>P. (\<exists>w. P w) \<longleftrightarrow> P Start \<or> P End"
    by (metis which.exhaust)
  from a1 a2 show ?thesis
    by (elim disjE conjE) (simp_all add: keep all_w ex_w)
qed

lemma delta_fact_report:
  assumes s1: "fix_delta_time_relative N r f Start p l c = Inr (p1, f1, c1)"
    and s2: "fix_delta_time_relative N r f1 End p1 l c1 = Inr (p2, f2, c2)"
  shows "\<exists>a. c2 = c @ a
          \<and> (\<forall>x\<in>set a. \<exists>w. x = (r, None, delta_reason w) \<and> delta_token N (getattr f2 w))
          \<and> (\<forall>w. delta_token N (getattr f2 w) \<longrightarrow> (r, None, delta_reason w) \<in> set a)"
proof -
  from delta_step_report [OF s1] have
    a1: "c1 = c \<and> \<not> delta_token N (getattr f1 Start)
         \<or> c1 = c @ [(r, None, delta_reason Start)] \<and> delta_token N (getattr f1 Start)"
    by simp
  from delta_step_report [OF s2] have
    a2: "c2 = c1 \<and> \<not> delta_token N (getattr f2 End)
         \<or> c2 = c1 @ [(r, None, delta_reason End)] \<and> delta_token N (getattr f2 End)"
    and keep: "getattr f2 Start = getattr f1 Start"
    by simp_all
  have all_w: "\<And>P. (\<forall>w. P w) \<longleftrightarrow> P Start \<and> P End"
    by (metis which.exhaust)
  have ex_w: "\<And>P. (\<exists>w. P w) \<longleftrightarrow> P Start \<or> P End"
    by (metis which.exhaust)
  from a1 a2 show ?thesis
    by (elim disjE conjE) (simp_all add: keep all_w ex_w)
qed

lemma clock_loop_collects:
  "\<exists>fs' added.
     fix_clock_times_loop N prev (enumerate_from k fs @ sq) (enumerate_from k fs) cs = Inr (fs', cs @ added)
     \<and> length fs' = length fs
     \<and> (\<forall>x\<in>set added. \<exists>i w. i < length fs \<and> x = (NewFact (k + i), None, clock_reason w)
            \<and> clock_token N (getattr (fs' ! i) w))
     \<and> (\<forall>i w. i < length fs \<and> clock_token N (getattr (fs' ! i) w)
            \<longrightarrow> (NewFact (k + i), None, clock_reason w) \<in> set added)"
proof (induction fs arbitrary: k prev cs)
  case Nil
  show ?case by simp
next
  case (Cons f fs)
  let ?l = "enumerate_from (Suc k) fs @ sq"
  obtain p1 f1 c1 where s1: "fix_clock_time_relative N (NewFact k) f Start prev ?l cs = (p1, f1, c1)"
    by (cases "fix_clock_time_relative N (NewFact k) f Start prev ?l cs")
  obtain p2 f2 c2 where s2: "fix_clock_time_relative N (NewFact k) f1 End p1 ?l c1 = (p2, f2, c2)"
    by (cases "fix_clock_time_relative N (NewFact k) f1 End p1 ?l c1")
  from clock_fact_report [OF s1 s2] obtain a where
    a: "c2 = cs @ a"
    and a_sound: "\<And>x. x \<in> set a \<Longrightarrow> \<exists>w. x = (NewFact k, None, clock_reason w) \<and> clock_token N (getattr f2 w)"
    and a_complete: "\<And>w. clock_token N (getattr f2 w) \<Longrightarrow> (NewFact k, None, clock_reason w) \<in> set a"
    by blast
  from Cons.IH [where k = "Suc k" and prev = p2 and cs = c2] obtain tl' b where
    rec: "fix_clock_times_loop N p2 ?l (enumerate_from (Suc k) fs) c2 = Inr (tl', c2 @ b)"
    and len: "length tl' = length fs"
    and b_sound: "\<And>x. x \<in> set b \<Longrightarrow> \<exists>i w. i < length fs \<and> x = (NewFact (Suc k + i), None, clock_reason w)
            \<and> clock_token N (getattr (tl' ! i) w)"
    and b_complete: "\<And>i w. i < length fs \<Longrightarrow> clock_token N (getattr (tl' ! i) w)
            \<Longrightarrow> (NewFact (Suc k + i), None, clock_reason w) \<in> set b"
    by blast
  have run: "fix_clock_times_loop N prev (enumerate_from k (f # fs) @ sq) (enumerate_from k (f # fs)) cs
             = Inr (f2 # tl', cs @ (a @ b))"
    using s1 s2 rec a by simp
  have sound: "\<forall>x\<in>set (a @ b). \<exists>i w. i < length (f # fs) \<and> x = (NewFact (k + i), None, clock_reason w)
            \<and> clock_token N (getattr ((f2 # tl') ! i) w)"
  proof
    fix x assume "x \<in> set (a @ b)"
    then consider "x \<in> set a" | "x \<in> set b" by auto
    then show "\<exists>i w. i < length (f # fs) \<and> x = (NewFact (k + i), None, clock_reason w)
            \<and> clock_token N (getattr ((f2 # tl') ! i) w)"
    proof cases
      case 1
      from a_sound [OF this] obtain w where "x = (NewFact k, None, clock_reason w)"
        "clock_token N (getattr f2 w)" by blast
      then show ?thesis by (intro exI [of _ 0] exI [of _ w]) simp
    next
      case 2
      from b_sound [OF this] obtain i w where "i < length fs"
        "x = (NewFact (Suc k + i), None, clock_reason w)" "clock_token N (getattr (tl' ! i) w)"
        by blast
      then show ?thesis by (intro exI [of _ "Suc i"] exI [of _ w]) simp
    qed
  qed
  have complete: "\<forall>i w. i < length (f # fs) \<and> clock_token N (getattr ((f2 # tl') ! i) w)
            \<longrightarrow> (NewFact (k + i), None, clock_reason w) \<in> set (a @ b)"
  proof (intro allI impI)
    fix i w
    assume h: "i < length (f # fs) \<and> clock_token N (getattr ((f2 # tl') ! i) w)"
    show "(NewFact (k + i), None, clock_reason w) \<in> set (a @ b)"
    proof (cases i)
      case 0
      with h a_complete [of w] show ?thesis by simp
    next
      case (Suc j)
      with h b_complete [of j w] show ?thesis by simp
    qed
  qed
  show ?case
    using run len sound complete
    by (intro exI [of _ "f2 # tl'"] exI [of _ "a @ b"]) simp
qed

lemma delta_loop_collects:
  "fix_delta_times_loop N prev (enumerate_from k fs @ sq) (enumerate_from k fs) cs = Inl OverflowError
   \<or> (\<exists>fs' added.
     fix_delta_times_loop N prev (enumerate_from k fs @ sq) (enumerate_from k fs) cs = Inr (fs', cs @ added)
     \<and> length fs' = length fs
     \<and> (\<forall>x\<in>set added. \<exists>i w. i < length fs \<and> x = (NewFact (k + i), None, delta_reason w)
            \<and> delta_token N (getattr (fs' ! i) w))
     \<and> (\<forall>i w. i < length fs \<and> delta_token N (getattr (fs' ! i) w)
            \<longrightarrow> (NewFact (k + i), None, delta_reason w) \<in> set added))"
proof (induction fs arbitrary: k prev cs)
  case Nil
  show ?case by simp
next
  case (Cons f fs)
  let ?l = "enumerate_from (Suc k) fs @ sq"
  let ?run = "fix_delta_times_loop N prev (enumerate_from k (f # fs) @ sq) (enumerate_from k (f # fs)) cs"
  show ?case
  proof (cases "fix_delta_time_relative N (NewFact k) f Start prev ?l cs")
    case (Inl e)
    with delta_step_error [OF Inl] have "?run = Inl OverflowError" by simp
    then show ?thesis by blast
  next
    case (Inr res1)
    obtain p1 f1 c1 where res1: "res1 = (p1, f1, c1)" by (cases res1)
    from Inr res1 have
      s1: "fix_delta_time_relative N (NewFact k) f Start prev ?l cs = Inr (p1, f1, c1)" by simp
    show ?thesis
    proof (cases "fix_delta_time_relative N (NewFact k) f1 End p1 ?l c1")
      case (Inl e)
      with delta_step_error [OF Inl] s1 have "?run = Inl OverflowError" by simp
      then show ?thesis by blast
    next
      case (Inr res2)
      obtain p2 f2 c2 where res2: "res2 = (p2, f2, c2)" by (cases res2)
      from Inr res2 have
        s2: "fix_delta_time_relative N (NewFact k) f1 End p1 ?l c1 = Inr (p2, f2, c2)" by simp
      from delta_fact_report [OF s1 s2] obtain a where
        a: "c2 = cs @ a"
        and a_sound: "\<And>x. x \<in> set a \<Longrightarrow> \<exists>w. x = (NewFact k, None, delta_reason w) \<and> delta_token N (getattr f2 w)"
        and a_complete: "\<And>w. delta_token N (getattr f2 w) \<Longrightarrow> (NewFact k, None, delta_reason w) \<in> set a"
        by blast
      from Cons.IH [where k = "Suc k" and prev = p2 and cs = c2]
      consider
        (overflow) "fix_delta_times_loop N p2 ?l (enumerate_from (Suc k) fs) c2 = Inl OverflowError"
      | (returns) tl' b where
          "fix_delta_times_loop N p2 ?l (enumerate_from (Suc k) fs) c2 = Inr (tl', c2 @ b)"
          "length tl' = length fs"
          "\<And>x. x \<in> set b \<Longrightarrow> \<exists>i w. i < length fs \<and> x = (NewFact (Suc k + i), None, delta_reason w)
                \<and> delta_token N (getattr (tl' ! i) w)"
          "\<And>i w. i < length fs \<Longrightarrow> delta_token N (getattr (tl' ! i) w)
                \<Longrightarrow> (NewFact (Suc k + i), None, delta_reason w) \<in> set b"
        by blast
      then show ?thesis
      proof cases
        case overflow
        with s1 s2 have "?run = Inl OverflowError" by simp
        then show ?thesis by blast
      next
        case (returns tl' b)
        note rec = returns(1) and len = returns(2) and b_sound = returns(3) and b_complete = returns(4)
        have run: "?run = Inr (f2 # tl', cs @ (a @ b))"
          using s1 s2 rec a by simp
        have sound: "\<forall>x\<in>set (a @ b). \<exists>i w. i < length (f # fs) \<and> x = (NewFact (k + i), None, delta_reason w)
                  \<and> delta_token N (getattr ((f2 # tl') ! i) w)"
        proof
          fix x assume "x \<in> set (a @ b)"
          then consider "x \<in> set a" | "x \<in> set b" by auto
          then show "\<exists>i w. i < length (f # fs) \<and> x = (NewFact (k + i), None, delta_reason w)
                  \<and> delta_token N (getattr ((f2 # tl') ! i) w)"
          proof cases
            case 1
            from a_sound [OF this] obtain w where "x = (NewFact k, None, delta_reason w)"
              "delta_token N (getattr f2 w)" by blast
            then show ?thesis by (intro exI [of _ 0] exI [of _ w]) simp
          next
            case 2
            from b_sound [OF this] obtain i w where "i < length fs"
              "x = (NewFact (Suc k + i), None, delta_reason w)" "delta_token N (getattr (tl' ! i) w)"
              by blast
            then show ?thesis by (intro exI [of _ "Suc i"] exI [of _ w]) simp
          qed
        qed
        have complete: "\<forall>i w. i < length (f # fs) \<and> delta_token N (getattr ((f2 # tl') ! i) w)
                  \<longrightarrow> (NewFact (k + i), None, delta_reason w) \<in> set (a @ b)"
        proof (intro allI impI)
          fix i w
          assume h: "i < length (f # fs) \<and> delta_token N (getattr ((f2 # tl') ! i) w)"
          show "(NewFact (k + i), None, delta_reason w) \<in> set (a @ b)"
          proof (cases i)
            case 0
            with h a_complete [of w] show ?thesis by simp
          next
            case (Suc j)
            with h b_complete [of j w] show ?thesis by simp
          qed
        qed
        have "\<exists>fs' added. ?run = Inr (fs', cs @ added)
            \<and> length fs' = length (f # fs)
            \<and> (\<forall>x\<in>set added. \<exists>i w. i < length (f # fs) \<and> x = (NewFact (k + i), None, delta_reason w)
                   \<and> delta_token N (getattr (fs' ! i) w))
            \<and> (\<forall>i w. i < length (f # fs) \<and> delta_token N (getattr (fs' ! i) w)
                   \<longrightarrow> (NewFact (k + i), None, delta_reason w) \<in> set added)"
          using run len sound complete
          by (intro exI [of _ "f2 # tl'"] exI [of _ "a @ b"]) simp
        then show ?thesis by blast
      qed
    qed
  qed
qed

lemma prev_and_later_shape:
  assumes "prev_and_later new_facts ante_fact seqt_fact = Inr (prev0, later0)"
  shows "later0 = enumerate_from 0 new_facts @ seqt_entry seqt_fact
       \<and> prev0 = (case ante_fact of None \<Rightarrow> None | Some a \<Rightarrow> end' a)"
  using assms
  by (auto simp: prev_and_later_def seqt_entry_def split: option.splits sum.splits)

lemma blank_start_step:
  assumes "fix_blank_time_relative nw r f Start prev l c = Inr (p1, f1, c1)"
  shows "end' f1 = end' f \<and> \<not> is_text (start f)
       \<and> start f1 = (case start f of NoneT \<Rightarrow> field_of prev | v \<Rightarrow> v)
       \<and> c1 = c @ (if start f = NoneT \<and> prev = None then [(r, None, blank_reason Start)] else [])"
  using assms
  by (auto simp: fix_blank_time_relative_def getattr_def setattr_def Let_def field_of_def is_text_def
      split: dt_field.splits option.splits)

lemma blank_end_step:
  assumes "fix_blank_time_relative nw r f End prev l c = Inr (p2, f2, c2)"
  shows "start f2 = start f \<and> \<not> is_text (end' f) \<and> c2 = c
       \<and> end' f2 = (case end' f of
                      NoneT \<Rightarrow> Datetime (case find_next_datetime l of Some (d, nf) \<Rightarrow> d | None \<Rightarrow> nw)
                    | v \<Rightarrow> v)
       \<and> p2 = the_datetime (end' f2) \<and> p2 \<noteq> None"
  using assms
  by (auto simp: fix_blank_time_relative_def getattr_def setattr_def Let_def the_datetime_def is_text_def
      split: dt_field.splits option.splits)

lemma blank_loop_char:
  assumes "fix_blank_times_loop nw prev (enumerate_from k fs @ sq) (enumerate_from k fs) cs = Inr (fs', cs')"
  shows "length fs' = length fs
       \<and> (\<forall>i<length fs.
             start (fs' ! i) =
               (case start (fs ! i) of
                  NoneT \<Rightarrow> field_of (if i = 0 then prev else the_datetime (end' (fs' ! (i - 1))))
                | v \<Rightarrow> v)
           \<and> end' (fs' ! i) =
               (case end' (fs ! i) of
                  NoneT \<Rightarrow>
                    Datetime (case find_next_datetime (enumerate_from (Suc (k + i)) (drop (Suc i) fs) @ sq) of
                                Some (d, nf) \<Rightarrow> d
                              | None \<Rightarrow> nw)
                | v \<Rightarrow> v)
           \<and> the_datetime (end' (fs' ! i)) \<noteq> None)
       \<and> cs' = cs @ (if fs \<noteq> [] \<and> start (hd fs) = NoneT \<and> prev = None
                      then [(NewFact k, None, blank_reason Start)] else [])"
  using assms
proof (induction fs arbitrary: k prev cs fs' cs')
  case Nil
  then show ?case by simp
next
  case (Cons f fs)
  let ?l = "enumerate_from (Suc k) fs @ sq"
  from Cons.prems obtain p1 f1 c1 where
    s1: "fix_blank_time_relative nw (NewFact k) f Start prev ?l cs = Inr (p1, f1, c1)"
    by (auto split: if_splits sum.splits)
  from Cons.prems s1 obtain p2 f2 c2 where
    s2: "fix_blank_time_relative nw (NewFact k) f1 End p1 ?l c1 = Inr (p2, f2, c2)"
    by (auto split: if_splits sum.splits)
  from Cons.prems s1 s2 obtain tl' where
    rec: "fix_blank_times_loop nw p2 ?l (enumerate_from (Suc k) fs) c2 = Inr (tl', cs')"
    and fs': "fs' = f2 # tl'"
    by (auto split: if_splits sum.splits)
  note h1 = blank_start_step [OF s1]
  note h2 = blank_end_step [OF s2]
  note ih = Cons.IH [OF rec]
  from h2 have p2: "p2 = the_datetime (end' f2)" "p2 \<noteq> None" by blast+
  have cs': "cs' = cs @ (if start f = NoneT \<and> prev = None then [(NewFact k, None, blank_reason Start)] else [])"
    using ih h1 h2 p2 by simp
  have len: "length fs' = length (f # fs)" using ih fs' by simp
  have head_start: "start f2 = (case start f of NoneT \<Rightarrow> field_of prev | v \<Rightarrow> v)"
    using h1 h2 by simp
  have head_end: "end' f2 = (case end' f of
        NoneT \<Rightarrow> Datetime (case find_next_datetime ?l of Some (d, nf) \<Rightarrow> d | None \<Rightarrow> nw)
      | v \<Rightarrow> v)"
    using h1 h2 by simp
  have head_dt: "the_datetime (end' f2) \<noteq> None" using p2 by simp
  show ?case
  proof (intro conjI allI impI)
    show "length fs' = length (f # fs)" by (rule len)
  next
    show "cs' = cs @ (if f # fs \<noteq> [] \<and> start (hd (f # fs)) = NoneT \<and> prev = None
                      then [(NewFact k, None, blank_reason Start)] else [])"
      using cs' by simp
  next
    fix i assume i: "i < length (f # fs)"
    show "start (fs' ! i) =
               (case start ((f # fs) ! i) of
                  NoneT \<Rightarrow> field_of (if i = 0 then prev else the_datetime (end' (fs' ! (i - 1))))
                | v \<Rightarrow> v)"
    proof (cases i)
      case 0
      then show ?thesis using fs' head_start by (simp split: dt_field.splits)
    next
      case (Suc j)
      with i have j: "j < length fs" by simp
      from ih j have "start (tl' ! j) =
               (case start (fs ! j) of
                  NoneT \<Rightarrow> field_of (if j = 0 then p2 else the_datetime (end' (tl' ! (j - 1))))
                | v \<Rightarrow> v)" by blast
      then show ?thesis using Suc fs' p2 by (cases j) (simp_all split: dt_field.splits)
    qed
    show "end' (fs' ! i) =
               (case end' ((f # fs) ! i) of
                  NoneT \<Rightarrow>
                    Datetime (case find_next_datetime (enumerate_from (Suc (k + i)) (drop (Suc i) (f # fs)) @ sq) of
                                Some (d, nf) \<Rightarrow> d
                              | None \<Rightarrow> nw)
                | v \<Rightarrow> v)"
    proof (cases i)
      case 0
      then show ?thesis using fs' head_end by (simp split: dt_field.splits)
    next
      case (Suc j)
      with i have j: "j < length fs" by simp
      from ih j have "end' (tl' ! j) =
               (case end' (fs ! j) of
                  NoneT \<Rightarrow>
                    Datetime (case find_next_datetime (enumerate_from (Suc (Suc k + j)) (drop (Suc j) fs) @ sq) of
                                Some (d, nf) \<Rightarrow> d
                              | None \<Rightarrow> nw)
                | v \<Rightarrow> v)" by blast
      then show ?thesis using Suc fs' by (simp split: dt_field.splits)
    qed
    show "the_datetime (end' (fs' ! i)) \<noteq> None"
    proof (cases i)
      case 0
      then show ?thesis using fs' head_dt by simp
    next
      case (Suc j)
      with i have j: "j < length fs" by simp
      from ih j have "the_datetime (end' (tl' ! j)) \<noteq> None" by blast
      then show ?thesis using Suc fs' by simp
    qed
  qed
qed

lemma blank_step_total:
  assumes "\<not> is_text (getattr f w)"
  shows "\<exists>p' f' c'. fix_blank_time_relative nw r f w prev l c = Inr (p', f', c')
           \<and> (\<forall>w'. w' \<noteq> w \<longrightarrow> getattr f' w' = getattr f w')"
  using assms
  by (cases w)
    (auto simp: fix_blank_time_relative_def Let_def is_text_def getattr_setattr
      split: dt_field.splits option.splits)

lemma blank_loop_total:
  assumes "list_all ready_for_blanks fs"
  shows "\<exists>fs' cs'. fix_blank_times_loop nw prev (enumerate_from k fs @ sq) (enumerate_from k fs) cs
            = Inr (fs', cs')"
  using assms
proof (induction fs arbitrary: k prev cs)
  case Nil
  show ?case by simp
next
  case (Cons f fs)
  let ?l = "enumerate_from (Suc k) fs @ sq"
  from Cons.prems have rf: "ready_for_blanks f" and rest: "list_all ready_for_blanks fs" by simp_all
  from rf have ns: "\<not> is_text (getattr f Start)" and ne: "\<not> is_text (getattr f End)"
    and tr: "truthy (start f) \<or> truthy (end' f)"
    by (simp_all add: ready_for_blanks_def getattr_def)
  from blank_step_total [OF ns] obtain p1 f1 c1 where
    s1: "fix_blank_time_relative nw (NewFact k) f Start prev ?l cs = Inr (p1, f1, c1)"
    and k1: "getattr f1 End = getattr f End" by (metis which.distinct(1))
  from ne k1 have "\<not> is_text (getattr f1 End)" by simp
  from blank_step_total [OF this] obtain p2 f2 c2 where
    s2: "fix_blank_time_relative nw (NewFact k) f1 End p1 ?l c1 = Inr (p2, f2, c2)" by metis
  from Cons.IH [OF rest, where k = "Suc k" and prev = p2 and cs = c2] obtain tl' cs' where
    "fix_blank_times_loop nw p2 ?l (enumerate_from (Suc k) fs) c2 = Inr (tl', cs')" by blast
  with s1 s2 tr show ?case by simp
qed

lemma must_complete_times_steps:
  assumes "new_facts \<noteq> []"
    and "fix_clock_times_relative N new_facts (antecedent_fact C new_facts) (subsequent_fact C new_facts) []
           = Inr (facts1, conflicts1)"
    and "fix_delta_times_relative N facts1 (antecedent_fact C new_facts) (subsequent_fact C new_facts) conflicts1
           = Inr (facts2, conflicts2)"
    and "fix_blank_times_relative (now C) facts2 (antecedent_fact C new_facts) (subsequent_fact C new_facts) conflicts2
           = Inr (facts3, conflicts3)"
    and "verify_datetimes_sanity facts3 (antecedent_fact C new_facts) (subsequent_fact C new_facts) conflicts3
           = Inr conflicts4"
  shows "must_complete_times N C new_facts =
           (if conflicts4 = [] then (Inr facts3, []) else (Inl SystemExit, map ConflictShown conflicts4))"
  using assms by (simp add: must_complete_times_def barf_on_overlapping_facts_new_def)

lemma find_app:
  "List.find P (xs @ ys) = (case List.find P xs of None \<Rightarrow> List.find P ys | Some x \<Rightarrow> Some x)"
  by (induction xs) simp_all

lemma last_truthy_append:
  "last_truthy p (a @ b) = last_truthy (last_truthy p a) b"
  by (simp add: last_truthy_def find_app split: option.splits)

lemma last_truthy_Nil [simp]: "last_truthy p [] = p"
  by (simp add: last_truthy_def)

lemma fact_times_Cons: "fact_times (f # fs) = [start f, end' f] @ fact_times fs"
  by (simp add: fact_times_def)

lemma check_start_char:
  assumes "check_start r f prev pf cs = Inr (p1, c1)" and "\<not> is_text (start f)" and "\<not> is_text prev"
  shows "c1 = cs @ (case (start f, prev) of
                      (Datetime s, Datetime p) \<Rightarrow> if s < p then [(r, pf, starts_before_reason)] else []
                    | _ \<Rightarrow> [])
       \<and> p1 = last_truthy prev [start f] \<and> \<not> is_text p1"
  using assms
  by (auto simp: check_start_def truthy_def is_text_def py_lt_def last_truthy_def
      split: dt_field.splits sum.splits if_splits)

lemma check_end_char:
  assumes "check_end r f prev l cs = Inr (p2, c2)" and "\<not> is_text (end' f)" and "\<not> is_text prev"
  shows "c2 = cs @ (case (end' f, find_next_datetime l) of
                      (Datetime e, Some (next_time, next_fact)) \<Rightarrow>
                        if e > next_time then [(r, Some next_fact, ends_after_reason)] else []
                    | _ \<Rightarrow> [])
       \<and> p2 = last_truthy prev [end' f] \<and> \<not> is_text p2"
  using assms
  by (auto simp: check_end_def truthy_def is_text_def py_lt_def last_truthy_def
      split: dt_field.splits sum.splits if_splits option.splits)

lemma check_order_char:
  assumes "check_order r f cs = Inr c3" and "\<not> is_text (start f)" and "\<not> is_text (end' f)"
  shows "c3 = cs @ (case (start f, end' f) of
                      (Datetime s, Datetime e) \<Rightarrow> if s > e then [(r, None, starts_after_ends_reason)] else []
                    | _ \<Rightarrow> [])"
  using assms
  by (auto simp: check_order_def truthy_def is_text_def py_lt_def
      split: dt_field.splits sum.splits if_splits)

lemma verify_fact_char:
  assumes s1: "check_start r f prev pf cs = Inr (p1, c1)"
    and s2: "check_end r f p1 l c1 = Inr (p2, c2)"
    and s3: "check_order r f c2 = Inr c3"
    and nt: "no_text f" and np: "\<not> is_text prev"
  shows "c3 = cs @ expected_conflicts r f prev pf l
       \<and> p2 = last_truthy prev [start f, end' f] \<and> \<not> is_text p2"
proof -
  from nt have a: "\<not> is_text (start f)" and b: "\<not> is_text (end' f)" by (simp_all add: no_text_def)
  note h1 = check_start_char [OF s1 a np]
  then have np1: "\<not> is_text p1" by blast
  note h2 = check_end_char [OF s2 b np1]
  note h3 = check_order_char [OF s3 a b]
  from h1 have p1: "p1 = last_truthy prev [start f]" by blast
  from h2 have p2: "p2 = last_truthy p1 [end' f]" and np2: "\<not> is_text p2" by blast+
  have "last_truthy prev ([start f] @ [end' f]) = last_truthy (last_truthy prev [start f]) [end' f]"
    by (rule last_truthy_append)
  with p1 p2 have p2': "p2 = last_truthy prev [start f, end' f]" by simp
  from h1 h2 h3 have "c3 = cs @ expected_conflicts r f prev pf l"
    by (simp add: expected_conflicts_def)
  with p2' np2 show ?thesis by blast
qed

lemma verify_loop_char:
  assumes "verify_datetimes_loop prev pf (enumerate_from k fs @ sq) (enumerate_from k fs) cs = Inr out"
    and "list_all no_text fs" and "\<not> is_text prev"
  shows "out = cs @ concat (map (\<lambda>i. expected_conflicts (NewFact (k + i)) (fs ! i)
                                      (last_truthy prev (fact_times (take i fs)))
                                      (prev_fact_ref pf k i)
                                      (enumerate_from (Suc (k + i)) (drop (Suc i) fs) @ sq))
                             [0..<length fs])"
  using assms
proof (induction fs arbitrary: k prev pf cs)
  case Nil
  then show ?case by simp
next
  case (Cons f fs)
  let ?l = "enumerate_from (Suc k) fs @ sq"
  from Cons.prems(1) obtain p1 c1 where s1: "check_start (NewFact k) f prev pf cs = Inr (p1, c1)"
    by (auto split: sum.splits)
  from Cons.prems(1) s1 obtain p2 c2 where s2: "check_end (NewFact k) f p1 ?l c1 = Inr (p2, c2)"
    by (auto split: sum.splits)
  from Cons.prems(1) s1 s2 obtain c3 where s3: "check_order (NewFact k) f c2 = Inr c3"
    by (auto split: sum.splits)
  from Cons.prems(1) s1 s2 s3 have
    rec: "verify_datetimes_loop p2 (Some (NewFact k)) ?l (enumerate_from (Suc k) fs) c3 = Inr out"
    by simp
  from Cons.prems(2) have nt: "no_text f" and rest: "list_all no_text fs" by simp_all
  from verify_fact_char [OF s1 s2 s3 nt Cons.prems(3)] have
    c3: "c3 = cs @ expected_conflicts (NewFact k) f prev pf ?l"
    and p2: "p2 = last_truthy prev [start f, end' f]" and np2: "\<not> is_text p2" by blast+
  note ih = Cons.IH [OF rec rest np2]
  have tail: "map (\<lambda>i. expected_conflicts (NewFact (Suc k + i)) (fs ! i)
                        (last_truthy p2 (fact_times (take i fs)))
                        (prev_fact_ref (Some (NewFact k)) (Suc k) i)
                        (enumerate_from (Suc (Suc k + i)) (drop (Suc i) fs) @ sq)) [0..<length fs]
            = map (\<lambda>i. expected_conflicts (NewFact (k + Suc i)) ((f # fs) ! Suc i)
                        (last_truthy prev (fact_times (take (Suc i) (f # fs))))
                        (prev_fact_ref pf k (Suc i))
                        (enumerate_from (Suc (k + Suc i)) (drop (Suc (Suc i)) (f # fs)) @ sq)) [0..<length fs]"
  proof (rule map_cong [OF refl])
    fix i
    have a: "prev_fact_ref (Some (NewFact k)) (Suc k) i = prev_fact_ref pf k (Suc i)"
      by (cases i) (simp_all add: prev_fact_ref_def)
    have b: "last_truthy p2 (fact_times (take i fs)) = last_truthy prev (fact_times (take (Suc i) (f # fs)))"
      using last_truthy_append [of prev "[start f, end' f]" "fact_times (take i fs)"] p2
      by (simp add: fact_times_Cons)
    show "expected_conflicts (NewFact (Suc k + i)) (fs ! i)
                        (last_truthy p2 (fact_times (take i fs)))
                        (prev_fact_ref (Some (NewFact k)) (Suc k) i)
                        (enumerate_from (Suc (Suc k + i)) (drop (Suc i) fs) @ sq)
        = expected_conflicts (NewFact (k + Suc i)) ((f # fs) ! Suc i)
                        (last_truthy prev (fact_times (take (Suc i) (f # fs))))
                        (prev_fact_ref pf k (Suc i))
                        (enumerate_from (Suc (k + Suc i)) (drop (Suc (Suc i)) (f # fs)) @ sq)"
      by (simp only: a b) simp
  qed
  have head: "expected_conflicts (NewFact (k + 0)) ((f # fs) ! 0)
                (last_truthy prev (fact_times (take 0 (f # fs)))) (prev_fact_ref pf k 0)
                (enumerate_from (Suc (k + 0)) (drop (Suc 0) (f # fs)) @ sq)
              = expected_conflicts (NewFact k) f prev pf ?l"
    by (simp add: prev_fact_ref_def fact_times_def)
  have "out = c3 @ concat (map (\<lambda>i. expected_conflicts (NewFact (Suc k + i)) (fs ! i)
                        (last_truthy p2 (fact_times (take i fs)))
                        (prev_fact_ref (Some (NewFact k)) (Suc k) i)
                        (enumerate_from (Suc (Suc k + i)) (drop (Suc i) fs) @ sq)) [0..<length fs])"
    by (rule ih)
  then show ?case
    unfolding tail c3 length_Cons map_upt_Suc concat.simps head by simp
qed

lemma expected_conflicts_ref:
  "c \<in> set (expected_conflicts r f p pf l) \<Longrightarrow> fst c = r"
  by (auto simp: expected_conflicts_def split: dt_field.splits option.splits if_splits)

lemma check_start_outcome:
  assumes "\<not> is_text (start f)" and "\<not> is_text prev"
  shows "check_start r f prev pf cs =
           (if start f = NoneT \<and> \<not> (\<exists>c\<in>set cs. fst c = r) then Inl AssertionError
            else Inr (last_truthy prev [start f],
                      cs @ (case (start f, prev) of
                              (Datetime s, Datetime p) \<Rightarrow>
                                if s < p then [(r, pf, starts_before_reason)] else []
                            | _ \<Rightarrow> [])))"
  using assms
  by (cases "start f"; cases prev)
    (auto simp: check_start_def truthy_def is_text_def py_lt_def last_truthy_def
      verify_datetimes_missing_already_caught_def filter_empty_conv)

lemma check_end_outcome:
  assumes "\<not> is_text (end' f)"
  shows "check_end r f prev l cs =
           (if end' f = NoneT \<and> \<not> (\<exists>c\<in>set cs. fst c = r) then Inl AssertionError
            else Inr (last_truthy prev [end' f],
                      cs @ (case (end' f, find_next_datetime l) of
                              (Datetime e, Some (next_time, next_fact)) \<Rightarrow>
                                if e > next_time then [(r, Some next_fact, ends_after_reason)] else []
                            | _ \<Rightarrow> [])))"
  using assms
  by (cases "end' f"; cases "find_next_datetime l")
    (auto simp: check_end_def truthy_def is_text_def py_lt_def last_truthy_def
      verify_datetimes_missing_already_caught_def filter_empty_conv)

lemma check_order_outcome:
  assumes "\<not> is_text (start f)" and "\<not> is_text (end' f)"
  shows "check_order r f cs =
           Inr (cs @ (case (start f, end' f) of
                        (Datetime s, Datetime e) \<Rightarrow>
                          if s > e then [(r, None, starts_after_ends_reason)] else []
                      | _ \<Rightarrow> []))"
  using assms
  by (cases "start f"; cases "end' f")
    (auto simp: check_order_def truthy_def is_text_def py_lt_def)

lemma last_truthy_not_text:
  "\<not> is_text p \<Longrightarrow> \<not> is_text v \<Longrightarrow> \<not> is_text (last_truthy p [v])"
  by (cases v) (simp_all add: last_truthy_def truthy_def is_text_def)

lemma verify_loop_step:
  assumes nt: "no_text f" and np: "\<not> is_text prev"
  shows "(\<exists>p2. \<not> is_text p2
            \<and> verify_datetimes_loop prev pf ((NewFact k, f) # l) ((NewFact k, f) # todo) cs
               = verify_datetimes_loop p2 (Some (NewFact k)) l todo
                   (cs @ expected_conflicts (NewFact k) f prev pf l))
       \<or> verify_datetimes_loop prev pf ((NewFact k, f) # l) ((NewFact k, f) # todo) cs
            = Inl AssertionError"
proof -
  from nt have a: "\<not> is_text (start f)" and b: "\<not> is_text (end' f)" by (simp_all add: no_text_def)
  note s1 = check_start_outcome [OF a np, of "NewFact k" pf cs]
  have np1: "\<not> is_text (last_truthy prev [start f])" by (rule last_truthy_not_text [OF np a])
  have np2: "\<not> is_text (last_truthy (last_truthy prev [start f]) [end' f])"
    by (rule last_truthy_not_text [OF np1 b])
  show ?thesis
  proof (cases "start f = NoneT \<and> \<not> (\<exists>c\<in>set cs. fst c = NewFact k)")
    case True
    then show ?thesis using s1 by simp
  next
    case False
    let ?c1 = "cs @ (case (start f, prev) of
                              (Datetime s, Datetime p) \<Rightarrow>
                                if s < p then [(NewFact k, pf, starts_before_reason)] else []
                            | _ \<Rightarrow> [])"
    from False s1 have s1': "check_start (NewFact k) f prev pf cs = Inr (last_truthy prev [start f], ?c1)"
      by simp
    note s2 = check_end_outcome [OF b, of "NewFact k" "last_truthy prev [start f]" l ?c1]
    show ?thesis
    proof (cases "end' f = NoneT \<and> \<not> (\<exists>c\<in>set ?c1. fst c = NewFact k)")
      case True
      then show ?thesis using s1' s2 by simp
    next
      case False
      let ?c2 = "?c1 @ (case (end' f, find_next_datetime l) of
                              (Datetime e, Some (next_time, next_fact)) \<Rightarrow>
                                if e > next_time then [(NewFact k, Some next_fact, ends_after_reason)] else []
                            | _ \<Rightarrow> [])"
      from False s2 have s2': "check_end (NewFact k) f (last_truthy prev [start f]) l ?c1
          = Inr (last_truthy (last_truthy prev [start f]) [end' f], ?c2)" by simp
      note s3 = check_order_outcome [OF a b, of "NewFact k" ?c2]
      have "verify_datetimes_loop prev pf ((NewFact k, f) # l) ((NewFact k, f) # todo) cs
               = verify_datetimes_loop (last_truthy (last_truthy prev [start f]) [end' f])
                   (Some (NewFact k)) l todo
                   (cs @ expected_conflicts (NewFact k) f prev pf l)"
        using s1' s2' s3 by (simp add: expected_conflicts_def)
      with np2 show ?thesis by blast
    qed
  qed
qed

lemma verify_loop_fails:
  assumes "list_all no_text fs" and "\<not> is_text prev" and "i < length fs"
    and "start (fs ! i) = NoneT" and "\<forall>c\<in>set cs. fst c \<noteq> NewFact (k + i)"
  shows "verify_datetimes_loop prev pf (enumerate_from k fs @ sq) (enumerate_from k fs) cs
           = Inl AssertionError"
  using assms
proof (induction fs arbitrary: k i prev pf cs)
  case Nil
  then show ?case by simp
next
  case (Cons f fs)
  from Cons.prems(1) have nt: "no_text f" and rest: "list_all no_text fs" by simp_all
  show ?case
  proof (cases i)
    case 0
    from nt have a: "\<not> is_text (start f)" by (simp add: no_text_def)
    from 0 Cons.prems(4,5) have "start f = NoneT \<and> \<not> (\<exists>c\<in>set cs. fst c = NewFact k)" by simp
    with check_start_outcome [OF a Cons.prems(2), of "NewFact k" pf cs]
    have "check_start (NewFact k) f prev pf cs = Inl AssertionError" by simp
    then show ?thesis by simp
  next
    case (Suc j)
    from verify_loop_step [OF nt Cons.prems(2), of pf k "enumerate_from (Suc k) fs @ sq"
        "enumerate_from (Suc k) fs" cs]
    consider p2 where "\<not> is_text p2"
        "verify_datetimes_loop prev pf (enumerate_from k (f # fs) @ sq) (enumerate_from k (f # fs)) cs
         = verify_datetimes_loop p2 (Some (NewFact k)) (enumerate_from (Suc k) fs @ sq)
             (enumerate_from (Suc k) fs)
             (cs @ expected_conflicts (NewFact k) f prev pf (enumerate_from (Suc k) fs @ sq))"
      | "verify_datetimes_loop prev pf (enumerate_from k (f # fs) @ sq) (enumerate_from k (f # fs)) cs
         = Inl AssertionError"
      by auto
    then show ?thesis
    proof cases
      case 1
      have unflagged: "\<forall>c\<in>set (cs @ expected_conflicts (NewFact k) f prev pf (enumerate_from (Suc k) fs @ sq)).
                         fst c \<noteq> NewFact (Suc k + j)"
        using Cons.prems(5) Suc by (auto dest: expected_conflicts_ref)
      from Cons.prems(3,4) Suc have j: "j < length fs" "start (fs ! j) = NoneT" by simp_all
      from Cons.IH [OF rest 1(1) j unflagged] 1(2) show ?thesis by simp
    next
      case 2
      then show ?thesis .
    qed
  qed
qed

lemma verify_loop_total:
  assumes "list_all no_text fs" and "\<not> is_text prev"
    and "\<forall>i<length fs. start (fs ! i) = NoneT \<or> end' (fs ! i) = NoneT
            \<longrightarrow> (\<exists>c\<in>set cs. fst c = NewFact (k + i))"
  shows "\<exists>out. verify_datetimes_loop prev pf (enumerate_from k fs @ sq) (enumerate_from k fs) cs = Inr out"
  using assms
proof (induction fs arbitrary: k prev pf cs)
  case Nil
  then show ?case by simp
next
  case (Cons f fs)
  let ?l = "enumerate_from (Suc k) fs @ sq"
  from Cons.prems(1) have nt: "no_text f" and rest: "list_all no_text fs" by simp_all
  from nt have a: "\<not> is_text (start f)" and b: "\<not> is_text (end' f)" by (simp_all add: no_text_def)
  from Cons.prems(3) have flagged: "start f = NoneT \<or> end' f = NoneT \<Longrightarrow> \<exists>c\<in>set cs. fst c = NewFact k"
    by force
  have np1: "\<not> is_text (last_truthy prev [start f])"
    by (rule last_truthy_not_text [OF Cons.prems(2) a])
  have np2: "\<not> is_text (last_truthy (last_truthy prev [start f]) [end' f])"
    by (rule last_truthy_not_text [OF np1 b])
  let ?c1 = "cs @ (case (start f, prev) of
                              (Datetime s, Datetime p) \<Rightarrow>
                                if s < p then [(NewFact k, pf, starts_before_reason)] else []
                            | _ \<Rightarrow> [])"
  let ?c2 = "?c1 @ (case (end' f, find_next_datetime ?l) of
                              (Datetime e, Some (next_time, next_fact)) \<Rightarrow>
                                if e > next_time then [(NewFact k, Some next_fact, ends_after_reason)] else []
                            | _ \<Rightarrow> [])"
  let ?c3 = "?c2 @ (case (start f, end' f) of
                        (Datetime s, Datetime e) \<Rightarrow>
                          if s > e then [(NewFact k, None, starts_after_ends_reason)] else []
                      | _ \<Rightarrow> [])"
  have s1: "check_start (NewFact k) f prev pf cs = Inr (last_truthy prev [start f], ?c1)"
    using check_start_outcome [OF a Cons.prems(2), of "NewFact k" pf cs] flagged by auto
  have s2: "check_end (NewFact k) f (last_truthy prev [start f]) ?l ?c1
          = Inr (last_truthy (last_truthy prev [start f]) [end' f], ?c2)"
    using check_end_outcome [OF b, of "NewFact k" "last_truthy prev [start f]" ?l ?c1] flagged by auto
  have s3: "check_order (NewFact k) f ?c2 = Inr ?c3"
    by (rule check_order_outcome [OF a b])
  have keep: "\<forall>i<length fs. start (fs ! i) = NoneT \<or> end' (fs ! i) = NoneT
            \<longrightarrow> (\<exists>c\<in>set ?c3. fst c = NewFact (Suc k + i))"
  proof (intro allI impI)
    fix i assume "i < length fs" and "start (fs ! i) = NoneT \<or> end' (fs ! i) = NoneT"
    with Cons.prems(3) [rule_format, of "Suc i"] have "\<exists>c\<in>set cs. fst c = NewFact (k + Suc i)" by simp
    then show "\<exists>c\<in>set ?c3. fst c = NewFact (Suc k + i)" by auto
  qed
  from Cons.IH [OF rest np2 keep, of "Some (NewFact k)"] obtain out where
    "verify_datetimes_loop (last_truthy (last_truthy prev [start f]) [end' f]) (Some (NewFact k)) ?l
       (enumerate_from (Suc k) fs) ?c3 = Inr out" by blast
  with s1 s2 s3 show ?case by simp
qed

lemma must_complete_times_outcome:
  assumes "must_complete_times N C new_facts = (res, out)"
  shows "(\<exists>facts. res = Inr facts \<and> out = [])
       \<or> (\<exists>e. res = Inl e \<and> (\<forall>ev\<in>set out. \<exists>c. ev = ConflictShown c))"
  using assms
  by (auto simp: must_complete_times_def barf_on_overlapping_facts_new_def Let_def
      split: if_splits sum.splits prod.splits)

lemma must_not_conflict_loop_log:
  "snd (must_not_conflict_loop C k fs) = map (\<lambda>i. MendTimes i verify_both) [k..<k + length fs]"
proof (induction fs arbitrary: k)
  case Nil
  show ?case by simp
next
  case (Cons f fs)
  obtain ac lg where "must_not_conflict_loop C (Suc k) fs = (ac, lg)"
    by (cases "must_not_conflict_loop C (Suc k) fs")
  note rec = this
  from Cons.IH [of "Suc k"] rec
  have lg: "lg = map (\<lambda>i. MendTimes i verify_both) [Suc k..<Suc k + length fs]"
    by (simp only: snd_conv)
  have step: "snd (must_not_conflict_loop C k (f # fs)) = MendTimes k verify_both # lg"
    using rec by (simp add: Let_def)
  have "k < k + length (f # fs)" by simp
  then have "[k..<k + length (f # fs)] = k # [Suc k..<k + length (f # fs)]"
    by (rule upt_conv_Cons)
  moreover have "k + length (f # fs) = Suc k + length fs" by simp
  ultimately have upt: "[k..<k + length (f # fs)] = k # [Suc k..<Suc k + length fs]"
    by (simp only:)
  show ?case
    unfolding step lg upt by (simp only: list.map)
qed

lemma import_after_completing:
  assumes "must_complete_times N C new_facts = (Inr facts, out)"
  shows "\<exists>rest. snd (import_facts N C new_facts file_out yes dry)
           = map (\<lambda>i. MendTimes i verify_both) [0..<length facts] @ rest"
proof -
  from must_complete_times_outcome [OF assms] have out: "out = []" by auto
  obtain ac lg where loop: "must_not_conflict_loop C 0 facts = (ac, lg)"
    by (cases "must_not_conflict_loop C 0 facts")
  with must_not_conflict_loop_log [of C 0 facts]
  have lg: "lg = map (\<lambda>i. MendTimes i verify_both) [0..<length facts]" by simp
  show ?thesis
    using assms out loop lg
    by (auto simp: import_facts_def must_not_conflict_existing_def barf_on_overlapping_facts_old_def
        split: prod.splits sum.splits if_splits)
qed

lemma clock_reason_not_delta_reason [simp]: "clock_reason w \<noteq> delta_reason w'"
  by (cases w; cases w') (simp_all add: clock_reason_def delta_reason_def which_name_def)

lemma token_is_text:
  "clock_token N v \<Longrightarrow> is_text v" "delta_token N v \<Longrightarrow> is_text v"
  by (cases v; simp add: clock_token_def delta_token_def is_text_def)+

lemma delta_step_keeps_other:
  assumes "fix_delta_time_relative N r f w p l c = Inr (p', f', c')"
    and "\<not> delta_token N (getattr f w0)"
  shows "getattr f' w0 = getattr f w0"
  using assms
  by (auto simp: fix_delta_time_relative_def infer_datetime_from_delta_def getattr_setattr
      delta_token_def
      split: dt_field.splits option.splits if_splits prod.splits which.splits sum.splits)

lemma delta_loop_keeps_other:
  assumes "fix_delta_times_loop N prev later todo cs = Inr (fs', cs')"
  shows "\<forall>i<length todo. \<forall>w. \<not> delta_token N (getattr (snd (todo ! i)) w)
           \<longrightarrow> getattr (fs' ! i) w = getattr (snd (todo ! i)) w"
  using assms
proof (induction todo arbitrary: prev later cs fs' cs')
  case Nil
  then show ?case by simp
next
  case (Cons rf todo)
  obtain r f where rf: "rf = (r, f)" by (cases rf)
  from Cons.prems rf obtain r0 f0 popped where later: "later = (r0, f0) # popped"
    by (cases later) auto
  from Cons.prems rf later obtain p1 f1 c1 where
    s1: "fix_delta_time_relative N r f Start prev popped cs = Inr (p1, f1, c1)"
    by (auto split: if_splits sum.splits)
  from Cons.prems rf later s1 obtain p2 f2 c2 where
    s2: "fix_delta_time_relative N r f1 End p1 popped c1 = Inr (p2, f2, c2)"
    by (auto split: if_splits sum.splits)
  from Cons.prems rf later s1 s2 obtain tl' where
    rec: "fix_delta_times_loop N p2 popped todo c2 = Inr (tl', cs')" and fs': "fs' = f2 # tl'"
    by (auto split: if_splits sum.splits)
  from Cons.IH [OF rec] have ih:
    "\<And>i w. i < length todo \<Longrightarrow> \<not> delta_token N (getattr (snd (todo ! i)) w)
       \<Longrightarrow> getattr (tl' ! i) w = getattr (snd (todo ! i)) w"
    by auto
  have head: "getattr f2 w = getattr f w" if "\<not> delta_token N (getattr f w)" for w
  proof -
    from delta_step_keeps_other [OF s1 that] have k1: "getattr f1 w = getattr f w" .
    with that have "\<not> delta_token N (getattr f1 w)" by simp
    from delta_step_keeps_other [OF s2 this] k1 show ?thesis by simp
  qed
  show ?case
  proof (intro allI impI)
    fix i w
    assume "i < length (rf # todo)" and "\<not> delta_token N (getattr (snd ((rf # todo) ! i)) w)"
    then show "getattr (fs' ! i) w = getattr (snd ((rf # todo) ! i)) w"
      using fs' rf head ih by (cases i) auto
  qed
qed

lemma blank_step_error:
  assumes "fix_blank_time_relative nw r f w prev l c = Inl e"
  shows "e = AssertionError"
  using assms
  by (auto simp: fix_blank_time_relative_def Let_def split: dt_field.splits option.splits which.splits)

text \<open>
  The blank-times pass does not get past a fact with a text in one of its times: it
  fails an assertion, at that fact or before it.
\<close>

lemma blank_loop_text_fails:
  assumes "\<exists>f\<in>set fs. is_text (start f) \<or> is_text (end' f)"
  shows "fix_blank_times_loop nw prev (enumerate_from k fs @ sq) (enumerate_from k fs) cs = Inl AssertionError"
  using assms
proof (induction fs arbitrary: k prev cs)
  case Nil
  then show ?case by simp
next
  case (Cons f fs)
  let ?l = "enumerate_from (Suc k) fs @ sq"
  let ?run = "fix_blank_times_loop nw prev (enumerate_from k (f # fs) @ sq) (enumerate_from k (f # fs)) cs"
  show ?case
  proof (cases "fix_blank_time_relative nw (NewFact k) f Start prev ?l cs")
    case (Inl e)
    with blank_step_error [OF Inl] show ?thesis by simp
  next
    case (Inr res1)
    obtain p1 f1 c1 where res1: "res1 = (p1, f1, c1)" by (cases res1)
    from Inr res1 have
      s1: "fix_blank_time_relative nw (NewFact k) f Start prev ?l cs = Inr (p1, f1, c1)" by simp
    show ?thesis
    proof (cases "fix_blank_time_relative nw (NewFact k) f1 End p1 ?l c1")
      case (Inl e)
      with blank_step_error [OF Inl] s1 show ?thesis by simp
    next
      case (Inr res2)
      obtain p2 f2 c2 where res2: "res2 = (p2, f2, c2)" by (cases res2)
      from Inr res2 have
        s2: "fix_blank_time_relative nw (NewFact k) f1 End p1 ?l c1 = Inr (p2, f2, c2)" by simp
      from blank_start_step [OF s1] blank_end_step [OF s2]
      have "\<not> is_text (start f)" and "\<not> is_text (end' f)" by simp_all
      with Cons.prems have "\<exists>g\<in>set fs. is_text (start g) \<or> is_text (end' g)" by auto
      from Cons.IH [OF this, where k = "Suc k" and prev = p2 and cs = c2]
      have "fix_blank_times_loop nw p2 ?l (enumerate_from (Suc k) fs) c2 = Inl AssertionError" .
      with s1 s2 show ?thesis by simp
    qed
  qed
qed

lemma prev_and_later_other_facts:
  assumes "prev_and_later fs ante_fact seqt_fact = Inr (prev0, later0)"
  shows "prev_and_later fs' ante_fact seqt_fact = Inr (prev0, enumerate_from 0 fs' @ seqt_entry seqt_fact)"
  using assms
  by (auto simp: prev_and_later_def seqt_entry_def split: option.splits sum.splits)

lemma blank_pass_text_fails:
  assumes store_ok: "prev_and_later fs0 ante_fact seqt_fact = Inr (prev0, later0)"
    and left: "i < length fs" "is_text (getattr (fs ! i) w)"
  shows "fix_blank_times_relative nw fs ante_fact seqt_fact cs = Inl AssertionError"
proof -
  from left have "\<exists>f\<in>set fs. is_text (start f) \<or> is_text (end' f)"
    by (cases w) (auto simp: getattr_def intro: bexI [of _ "fs ! i"])
  from blank_loop_text_fails [OF this]
  show ?thesis
    by (simp add: fix_blank_times_relative_def prev_and_later_other_facts [OF store_ok])
qed

section \<open>Resolving relative times\<close>

text \<open>
  Claim C2. A field holding a clock-time text is resolved in this order of precedence:
  against the fact's other field when that is a datetime (the closest occurrence before
  it for a start, after it for an end); otherwise against \<^verbatim>\<open>prev_time\<close> when it is
  known (the closest occurrence after it); otherwise against the first datetime found in
  \<^verbatim>\<open>later_facts\<close>, the later new facts followed by the subsequent stored fact (the
  closest occurrence before it). With no anchor at all the field is left as it is and a
  conflict is recorded.
\<close>

theorem clock_time_precedence:
  assumes tok: "getattr fct w = Text tok" and clk: "parse_clock_time N tok = Some c"
  shows "(\<forall>d. getattr fct (if w = Start then End else Start) = Datetime d \<longrightarrow>
            fix_clock_time_relative N r fct w prev_time later_facts conflicts =
              (let t = (if w = Start then datetime_from_clock_prior N d c
                        else datetime_from_clock_after N d c)
               in (Some t, setattr fct w (Datetime t), conflicts)))
       \<and> ((\<forall>d. getattr fct (if w = Start then End else Start) \<noteq> Datetime d) \<longrightarrow>
            (\<forall>p. prev_time = Some p \<longrightarrow>
               fix_clock_time_relative N r fct w prev_time later_facts conflicts =
                 (let t = datetime_from_clock_after N p c
                  in (Some t, setattr fct w (Datetime t), conflicts)))
          \<and> (prev_time = None \<longrightarrow>
               (\<forall>next_time next_fact. find_next_datetime later_facts = Some (next_time, next_fact) \<longrightarrow>
                  fix_clock_time_relative N r fct w prev_time later_facts conflicts =
                    (let t = datetime_from_clock_prior N next_time c
                     in (Some t, setattr fct w (Datetime t), conflicts)))
             \<and> (find_next_datetime later_facts = None \<longrightarrow>
                  fix_clock_time_relative N r fct w prev_time later_facts conflicts =
                    (None, fct, conflicts @ [(r, None, clock_reason w)]))))"
  using tok clk
  by (auto simp: fix_clock_time_relative_def infer_datetime_from_clock_def Let_def
      split: dt_field.splits option.splits)

text \<open>
  The four branches at concrete facts: "14:30" as a start before a later fact starting
  at 2024-01-02T09:00 is 2024-01-01T14:30, and as an end after a start or a
  \<^verbatim>\<open>prev_time\<close> of 2024-01-01T09:00 it is 14:30 on the same day.
\<close>

theorem clock_time_precedence_witness:
  "getattr (draft (- 1) (Text ''14:30'') NoneT) Start = Text ''14:30''
   \<and> parse_clock_time example_dated ''14:30'' = Some 52200000000
   \<and> find_next_datetime [(NewFact 1, draft (- 2) (Datetime (hours 33)) NoneT)] = Some (hours 33, NewFact 1)
   \<and> fix_clock_time_relative example_dated (NewFact 0) (draft (- 1) (Text ''14:30'') NoneT) Start None
        [(NewFact 1, draft (- 2) (Datetime (hours 33)) NoneT)] []
      = (Some (hours 14 + 1800000000), draft (- 1) (Datetime (hours 14 + 1800000000)) NoneT, [])
   \<and> fix_clock_time_relative example_dated (NewFact 0) (draft (- 1) (Datetime (hours 9)) (Text ''14:30'')) End None [] []
      = (Some (hours 14 + 1800000000), draft (- 1) (Datetime (hours 9)) (Datetime (hours 14 + 1800000000)), [])
   \<and> fix_clock_time_relative example_dated (NewFact 0) (draft (- 1) NoneT (Text ''14:30'')) End (Some (hours 9)) [] []
      = (Some (hours 14 + 1800000000), draft (- 1) NoneT (Datetime (hours 14 + 1800000000)), [])
   \<and> fix_clock_time_relative example_dated (NewFact 0) (draft (- 1) NoneT (Text ''14:30'')) End None [] []
      = (None, draft (- 1) NoneT (Text ''14:30''), [(NewFact 0, None, clock_reason End)])"
proof -
  have t1: "getattr (draft (- 1) (Text ''14:30'') NoneT) Start = Text ''14:30''"
    by (simp add: getattr_def draft_def)
  have t2: "getattr (draft (- 1) (Datetime (hours 9)) (Text ''14:30'')) End = Text ''14:30''"
    by (simp add: getattr_def draft_def)
  have t3: "getattr (draft (- 1) NoneT (Text ''14:30'')) End = Text ''14:30''"
    by (simp add: getattr_def draft_def)
  have c: "parse_clock_time example_dated ''14:30'' = Some 52200000000"
    by (simp add: example_dated_def)
  have n: "find_next_datetime [(NewFact 1, draft (- 2) (Datetime (hours 33)) NoneT)] = Some (hours 33, NewFact 1)"
    by (simp add: draft_def)
  note a = clock_time_precedence [OF t1 c, of "NewFact 0" None "[(NewFact 1, draft (- 2) (Datetime (hours 33)) NoneT)]" "[]"]
  note b = clock_time_precedence [OF t2 c, of "NewFact 0" None "[]" "[]"]
  note d = clock_time_precedence [OF t3 c, of "NewFact 0" "Some (hours 9)" "[]" "[]"]
  note e = clock_time_precedence [OF t3 c, of "NewFact 0" None "[]" "[]"]
  show ?thesis
    using a b d e t1 c n
    by (simp add: getattr_def setattr_def draft_def example_dated_def hours_def)
qed

text \<open>
  Claim C3. A field holding a signed number of minutes: an offset that is not negative is
  added to \<^verbatim>\<open>prev_time\<close>, and with no \<^verbatim>\<open>prev_time\<close> the resolution fails (a conflict);
  a negative offset on a start whose fact has a datetime as its end is added to that end;
  any other negative offset is added to the first datetime found in \<^verbatim>\<open>later_facts\<close>,
  and fails when there is none. The field and the running \<^verbatim>\<open>prev_time\<close> take the sum
  whenever the sum is a datetime; when it lies outside the years 1 to 9999 the addition
  raises OverflowError and nothing is resolved.
\<close>

theorem minute_offset_resolution:
  assumes tok: "getattr fct w = Text tok" and mins: "parse_relative_minutes N tok = Some m"
  shows "(0 \<le> m \<longrightarrow>
            (\<forall>p. prev_time = Some p \<longrightarrow>
               fix_delta_time_relative N r fct w prev_time later_facts conflicts =
                 (if is_datetime (p + timedelta_minutes m)
                  then Inr (Some (p + timedelta_minutes m),
                            setattr fct w (Datetime (p + timedelta_minutes m)), conflicts)
                  else Inl OverflowError))
          \<and> (prev_time = None \<longrightarrow>
               fix_delta_time_relative N r fct w prev_time later_facts conflicts =
                 Inr (None, fct, conflicts @ [(r, None, delta_reason w)])))
       \<and> (m < 0 \<longrightarrow>
            (\<forall>e. w = Start \<and> end' fct = Datetime e \<longrightarrow>
               fix_delta_time_relative N r fct w prev_time later_facts conflicts =
                 (if is_datetime (e + timedelta_minutes m)
                  then Inr (Some (e + timedelta_minutes m),
                            setattr fct w (Datetime (e + timedelta_minutes m)), conflicts)
                  else Inl OverflowError))
          \<and> (\<not> (w = Start \<and> (\<exists>e. end' fct = Datetime e)) \<longrightarrow>
               (\<forall>next_time next_fact. find_next_datetime later_facts = Some (next_time, next_fact) \<longrightarrow>
                  fix_delta_time_relative N r fct w prev_time later_facts conflicts =
                    (if is_datetime (next_time + timedelta_minutes m)
                     then Inr (Some (next_time + timedelta_minutes m),
                               setattr fct w (Datetime (next_time + timedelta_minutes m)), conflicts)
                     else Inl OverflowError))
             \<and> (find_next_datetime later_facts = None \<longrightarrow>
                  fix_delta_time_relative N r fct w prev_time later_facts conflicts =
                    Inr (prev_time, fct, conflicts @ [(r, None, delta_reason w)]))))"
  using tok mins
  by (cases w; cases "end' fct")
    (auto simp: fix_delta_time_relative_def infer_datetime_from_delta_def datetime_add_def
      split: option.splits)

text \<open>
  "+30" as a start with \<^verbatim>\<open>prev_time\<close> T is T plus 30 minutes, "-15" as a start of a fact
  ending at E is E minus 15 minutes, and "-15" as an end is taken from the next datetime.
  "+30" after the last datetime there is, 9999-12-31 23:59:59.999999, overflows.
\<close>

theorem minute_offset_resolution_witness:
  "getattr (draft (- 1) (Text ''+30'') NoneT) Start = Text ''+30''
   \<and> parse_relative_minutes example_dated ''+30'' = Some 30
   \<and> fix_delta_time_relative example_dated (NewFact 0) (draft (- 1) (Text ''+30'') NoneT) Start
        (Some (hours 9)) [] []
      = Inr (Some (hours 9 + 1800000000), draft (- 1) (Datetime (hours 9 + 1800000000)) NoneT, [])
   \<and> fix_delta_time_relative example_dated (NewFact 0) (draft (- 1) (Text ''+30'') NoneT) Start
        None [] []
      = Inr (None, draft (- 1) (Text ''+30'') NoneT, [(NewFact 0, None, delta_reason Start)])
   \<and> fix_delta_time_relative example_dated (NewFact 0) (draft (- 1) (Text ''+30'') NoneT) Start
        (Some datetime_max) [] []
      = Inl OverflowError
   \<and> getattr (draft (- 1) (Text ''-15'') (Datetime (hours 9))) Start = Text ''-15''
   \<and> parse_relative_minutes example_dated ''-15'' = Some (- 15)
   \<and> fix_delta_time_relative example_dated (NewFact 0) (draft (- 1) (Text ''-15'') (Datetime (hours 9)))
        Start (Some (hours 2)) [] []
      = Inr (Some (hours 9 - 900000000), draft (- 1) (Datetime (hours 9 - 900000000)) (Datetime (hours 9)), [])
   \<and> getattr (draft (- 1) NoneT (Text ''-15'')) End = Text ''-15''
   \<and> fix_delta_time_relative example_dated (NewFact 0) (draft (- 1) NoneT (Text ''-15''))
        End (Some (hours 2)) [(SeqtFact, draft 7 (Datetime (hours 9)) (Datetime (hours 10)))] []
      = Inr (Some (hours 9 - 900000000), draft (- 1) NoneT (Datetime (hours 9 - 900000000)), [])"
proof -
  have t1: "getattr (draft (- 1) (Text ''+30'') NoneT) Start = Text ''+30''"
    by (simp add: getattr_def draft_def)
  have p1: "parse_relative_minutes example_dated ''+30'' = Some 30"
    by (simp add: example_dated_def)
  have t2: "getattr (draft (- 1) (Text ''-15'') (Datetime (hours 9))) Start = Text ''-15''"
    by (simp add: getattr_def draft_def)
  have p2: "parse_relative_minutes example_dated ''-15'' = Some (- 15)"
    by (simp add: example_dated_def)
  have t3: "getattr (draft (- 1) NoneT (Text ''-15'')) End = Text ''-15''"
    by (simp add: getattr_def draft_def)
  note a = minute_offset_resolution [OF t1 p1, where r = "NewFact 0" and prev_time = "Some (hours 9)"
      and later_facts = "[]" and conflicts = "[]"]
  note b = minute_offset_resolution [OF t1 p1, where r = "NewFact 0" and prev_time = None
      and later_facts = "[]" and conflicts = "[]"]
  note c = minute_offset_resolution [OF t2 p2, where r = "NewFact 0" and prev_time = "Some (hours 2)"
      and later_facts = "[]" and conflicts = "[]"]
  note d = minute_offset_resolution [OF t3 p2, where r = "NewFact 0" and prev_time = "Some (hours 2)"
      and later_facts = "[(SeqtFact, draft 7 (Datetime (hours 9)) (Datetime (hours 10)))]"
      and conflicts = "[]"]
  note e = minute_offset_resolution [OF t1 p1, where r = "NewFact 0" and prev_time = "Some datetime_max"
      and later_facts = "[]" and conflicts = "[]"]
  show ?thesis
    using a b c d e t1 t2 t3 p1 p2
    by (simp add: setattr_def draft_def timedelta_minutes_def hours_def is_datetime_def
        datetime_min_def datetime_max_def)
qed

text \<open>
  Claim C9. A start or end that already holds a datetime is left as it is by the
  clock-time pass and by the relative-minutes pass: handling such a field changes neither
  the fact nor the conflicts and only sets the running \<^verbatim>\<open>prev_time\<close> to its value, and
  after either pass over the whole sequence the field still holds the same datetime.
\<close>

theorem absolute_fields_unchanged:
  assumes i: "i < length new_facts" and abs: "getattr (new_facts ! i) w = Datetime d"
  shows "fix_clock_time_relative N r (new_facts ! i) w prev_time later_facts conflicts
           = (Some d, new_facts ! i, conflicts)
       \<and> fix_delta_time_relative N r (new_facts ! i) w prev_time later_facts conflicts
           = Inr (Some d, new_facts ! i, conflicts)
       \<and> (\<forall>facts' conflicts'.
             fix_clock_times_relative N new_facts ante_fact seqt_fact conflicts = Inr (facts', conflicts')
             \<longrightarrow> length facts' = length new_facts \<and> getattr (facts' ! i) w = Datetime d)
       \<and> (\<forall>facts' conflicts'.
             fix_delta_times_relative N new_facts ante_fact seqt_fact conflicts = Inr (facts', conflicts')
             \<longrightarrow> length facts' = length new_facts \<and> getattr (facts' ! i) w = Datetime d)"
proof (intro conjI allI impI)
  show "fix_clock_time_relative N r (new_facts ! i) w prev_time later_facts conflicts
          = (Some d, new_facts ! i, conflicts)"
    using abs by (simp add: fix_clock_time_relative_def)
  show "fix_delta_time_relative N r (new_facts ! i) w prev_time later_facts conflicts
          = Inr (Some d, new_facts ! i, conflicts)"
    using abs by (simp add: fix_delta_time_relative_def)
next
  fix facts' conflicts'
  assume "fix_clock_times_relative N new_facts ante_fact seqt_fact conflicts = Inr (facts', conflicts')"
  then obtain p l where
    "fix_clock_times_loop N p l (enumerate_from 0 new_facts) conflicts = Inr (facts', conflicts')"
    by (auto simp: fix_clock_times_relative_def split: sum.splits)
  from clock_loop_keeps_datetime [OF this] i abs
  have "length facts' = length new_facts \<and> getattr (facts' ! i) w = Datetime d"
    by (simp add: nth_enumerate_from)
  then show "length facts' = length new_facts" and "getattr (facts' ! i) w = Datetime d"
    by simp_all
next
  fix facts' conflicts'
  assume "fix_delta_times_relative N new_facts ante_fact seqt_fact conflicts = Inr (facts', conflicts')"
  then obtain p l where
    "fix_delta_times_loop N p l (enumerate_from 0 new_facts) conflicts = Inr (facts', conflicts')"
    by (auto simp: fix_delta_times_relative_def split: sum.splits)
  from delta_loop_keeps_datetime [OF this] i abs
  have "length facts' = length new_facts \<and> getattr (facts' ! i) w = Datetime d"
    by (simp add: nth_enumerate_from)
  then show "length facts' = length new_facts" and "getattr (facts' ! i) w = Datetime d"
    by simp_all
qed

lemma ex_two_facts_clock:
  "fix_clock_times_relative example_dated
     [draft (- 1) (Datetime (hours 9)) (Text ''14:30''), draft (- 2) (Text ''+30'') NoneT] None None []
   = Inr ([draft (- 1) (Datetime (hours 9)) (Datetime (hours 14 + 1800000000)), draft (- 2) (Text ''+30'') NoneT], [])"
  by (simp add: fix_clock_times_relative_def prev_and_later_def fix_clock_time_relative_def
      infer_datetime_from_clock_def getattr_def setattr_def draft_def example_dated_def hours_def)

lemma ex_two_facts_delta:
  "fix_delta_times_relative example_dated
     [draft (- 1) (Datetime (hours 9)) (Text ''14:30''), draft (- 2) (Text ''+30'') NoneT] None None []
   = Inr ([draft (- 1) (Datetime (hours 9)) (Text ''14:30''),
           draft (- 2) (Datetime (hours 9 + 1800000000)) NoneT], [])"
  by (simp add: fix_delta_times_relative_def prev_and_later_def fix_delta_time_relative_def
      infer_datetime_from_delta_def getattr_def setattr_def draft_def example_dated_def hours_def
      timedelta_minutes_def datetime_add_def is_datetime_def datetime_min_def datetime_max_def)

theorem absolute_fields_unchanged_witness:
  "(0::nat) < length [draft (- 1) (Datetime (hours 9)) (Text ''14:30''), draft (- 2) (Text ''+30'') NoneT]
   \<and> getattr ([draft (- 1) (Datetime (hours 9)) (Text ''14:30''), draft (- 2) (Text ''+30'') NoneT] ! 0) Start
       = Datetime (hours 9)
   \<and> fix_clock_times_relative example_dated
        [draft (- 1) (Datetime (hours 9)) (Text ''14:30''), draft (- 2) (Text ''+30'') NoneT] None None []
      = Inr ([draft (- 1) (Datetime (hours 9)) (Datetime (hours 14 + 1800000000)), draft (- 2) (Text ''+30'') NoneT], [])
   \<and> getattr ([draft (- 1) (Datetime (hours 9)) (Datetime (hours 14 + 1800000000)), draft (- 2) (Text ''+30'') NoneT] ! 0) Start
       = Datetime (hours 9)
   \<and> fix_delta_times_relative example_dated
        [draft (- 1) (Datetime (hours 9)) (Text ''14:30''), draft (- 2) (Text ''+30'') NoneT] None None []
      = Inr ([draft (- 1) (Datetime (hours 9)) (Text ''14:30''),
              draft (- 2) (Datetime (hours 9 + 1800000000)) NoneT], [])
   \<and> getattr ([draft (- 1) (Datetime (hours 9)) (Text ''14:30''),
                draft (- 2) (Datetime (hours 9 + 1800000000)) NoneT] ! 0) Start
       = Datetime (hours 9)"
proof -
  let ?fs = "[draft (- 1) (Datetime (hours 9)) (Text ''14:30''), draft (- 2) (Text ''+30'') NoneT]"
  have i: "(0::nat) < length ?fs" by simp
  have a: "getattr (?fs ! 0) Start = Datetime (hours 9)" by (simp add: getattr_def draft_def)
  from absolute_fields_unchanged [OF i a, where N = example_dated and ante_fact = None
      and seqt_fact = None and conflicts = "[]"] ex_two_facts_clock ex_two_facts_delta i a
  show ?thesis by simp
qed

text \<open>
  Claim C5. A relative time with no usable anchor raises nothing in the pass that meets
  it: the clock-time pass and the relative-minutes pass go over the whole sequence, and
  the conflicts they leave are exactly one triple (the fact's reference, \<^verbatim>\<open>None\<close>, the
  reason naming the field) for every field that still holds a relative time of the pass's
  kind. The import does not return them. A field that was not resolved still holds its
  text, and the blank-times pass, which \<^verbatim>\<open>must_complete_times\<close> runs next, asserts that
  every time that is set is a datetime: whenever a text is left after the two passes, and
  so whenever one of them has recorded such a conflict, \<^verbatim>\<open>must_complete_times\<close> ends in
  an AssertionError before \<^verbatim>\<open>barf_on_overlapping_facts_new\<close> has shown any conflict.
  (A conflict of the clock-time pass leaves its text in place unless the relative-minutes
  pass reads the same text as minutes.)
\<close>

theorem unresolved_token_aborts_import:
  assumes batch: "new_facts \<noteq> []"
    and clock: "fix_clock_times_relative N new_facts (antecedent_fact C new_facts)
                  (subsequent_fact C new_facts) [] = Inr (facts1, conflicts1)"
    and delta: "fix_delta_times_relative N facts1 (antecedent_fact C new_facts)
                  (subsequent_fact C new_facts) conflicts1 = Inr (facts2, conflicts2)"
  shows "length facts1 = length new_facts \<and> length facts2 = length new_facts
       \<and> (\<forall>x\<in>set conflicts2. \<exists>i w. i < length new_facts
             \<and> (x = (NewFact i, None, clock_reason w) \<and> clock_token N (getattr (facts1 ! i) w)
                \<or> x = (NewFact i, None, delta_reason w) \<and> delta_token N (getattr (facts2 ! i) w)))
       \<and> (\<forall>i w. i < length new_facts \<and> clock_token N (getattr (facts1 ! i) w)
             \<longrightarrow> (NewFact i, None, clock_reason w) \<in> set conflicts2)
       \<and> (\<forall>i w. i < length new_facts \<and> delta_token N (getattr (facts2 ! i) w)
             \<longrightarrow> (NewFact i, None, delta_reason w) \<in> set conflicts2)
       \<and> (\<forall>i w. i < length new_facts \<and> is_text (getattr (facts2 ! i) w)
             \<longrightarrow> must_complete_times N C new_facts = (Inl AssertionError, []))
       \<and> (\<forall>i w. (NewFact i, None, delta_reason w) \<in> set conflicts2
             \<longrightarrow> must_complete_times N C new_facts = (Inl AssertionError, []))
       \<and> (\<forall>i w. (NewFact i, None, clock_reason w) \<in> set conflicts2
                 \<and> \<not> delta_token N (getattr (facts1 ! i) w)
             \<longrightarrow> must_complete_times N C new_facts = (Inl AssertionError, []))"
proof -
  let ?a = "antecedent_fact C new_facts" and ?s = "subsequent_fact C new_facts"
  from clock obtain prev0 later0 where store_ok: "prev_and_later new_facts ?a ?s = Inr (prev0, later0)"
    by (auto simp: fix_clock_times_relative_def split: sum.splits)
  from prev_and_later_shape [OF store_ok]
  have later0: "later0 = enumerate_from 0 new_facts @ seqt_entry ?s" by simp
  from clock store_ok later0 have loop1:
    "fix_clock_times_loop N prev0 (enumerate_from 0 new_facts @ seqt_entry ?s)
       (enumerate_from 0 new_facts) [] = Inr (facts1, conflicts1)"
    by (simp add: fix_clock_times_relative_def)
  from clock_loop_collects [of N prev0 0 new_facts "seqt_entry ?s" "[]"] obtain fs1 added1 where
    run1: "fix_clock_times_loop N prev0 (enumerate_from 0 new_facts @ seqt_entry ?s)
             (enumerate_from 0 new_facts) [] = Inr (fs1, [] @ added1)"
    and l1: "length fs1 = length new_facts"
    and s1: "\<forall>x\<in>set added1. \<exists>i w. i < length new_facts \<and> x = (NewFact (0 + i), None, clock_reason w)
              \<and> clock_token N (getattr (fs1 ! i) w)"
    and c1: "\<forall>i w. i < length new_facts \<and> clock_token N (getattr (fs1 ! i) w)
              \<longrightarrow> (NewFact (0 + i), None, clock_reason w) \<in> set added1"
    by blast
  from run1 loop1 have fs1: "fs1 = facts1" and added1: "added1 = conflicts1" by simp_all
  have len1: "length facts1 = length new_facts" using l1 fs1 by simp
  have sound1: "\<forall>x\<in>set conflicts1. \<exists>i w. i < length new_facts \<and> x = (NewFact i, None, clock_reason w)
              \<and> clock_token N (getattr (facts1 ! i) w)"
    using s1 fs1 added1 by simp
  have complete1: "\<forall>i w. i < length new_facts \<and> clock_token N (getattr (facts1 ! i) w)
              \<longrightarrow> (NewFact i, None, clock_reason w) \<in> set conflicts1"
    using c1 fs1 added1 by simp
  from delta prev_and_later_other_facts [OF store_ok, of facts1] have loop2:
    "fix_delta_times_loop N prev0 (enumerate_from 0 facts1 @ seqt_entry ?s)
       (enumerate_from 0 facts1) conflicts1 = Inr (facts2, conflicts2)"
    by (simp add: fix_delta_times_relative_def)
  from delta_loop_collects [of N prev0 0 facts1 "seqt_entry ?s" conflicts1] loop2
  obtain fs2 added2 where
    run2: "fix_delta_times_loop N prev0 (enumerate_from 0 facts1 @ seqt_entry ?s)
             (enumerate_from 0 facts1) conflicts1 = Inr (fs2, conflicts1 @ added2)"
    and l2: "length fs2 = length facts1"
    and s2: "\<forall>x\<in>set added2. \<exists>i w. i < length facts1 \<and> x = (NewFact (0 + i), None, delta_reason w)
              \<and> delta_token N (getattr (fs2 ! i) w)"
    and c2: "\<forall>i w. i < length facts1 \<and> delta_token N (getattr (fs2 ! i) w)
              \<longrightarrow> (NewFact (0 + i), None, delta_reason w) \<in> set added2"
    by auto
  from run2 loop2 have fs2: "fs2 = facts2" and conflicts2: "conflicts2 = conflicts1 @ added2"
    by simp_all
  have len2: "length facts2 = length new_facts" using l2 fs2 len1 by simp
  have sound2: "\<forall>x\<in>set added2. \<exists>i w. i < length new_facts \<and> x = (NewFact i, None, delta_reason w)
              \<and> delta_token N (getattr (facts2 ! i) w)"
    using s2 fs2 len1 by simp
  have complete2: "\<forall>i w. i < length new_facts \<and> delta_token N (getattr (facts2 ! i) w)
              \<longrightarrow> (NewFact i, None, delta_reason w) \<in> set added2"
    using c2 fs2 len1 by simp
  have kept: "getattr (facts2 ! i) w = getattr (facts1 ! i) w"
    if "i < length new_facts" and "\<not> delta_token N (getattr (facts1 ! i) w)" for i w
    using delta_loop_keeps_other [OF loop2] that len1 by (simp add: nth_enumerate_from)
  have abort: "must_complete_times N C new_facts = (Inl AssertionError, [])"
    if "i < length new_facts" and "is_text (getattr (facts2 ! i) w)" for i w
  proof -
    from that len2 have "i < length facts2" by simp
    from blank_pass_text_fails [OF store_ok this that(2)]
    have "fix_blank_times_relative (now C) facts2 ?a ?s conflicts2 = Inl AssertionError" .
    with batch clock delta show ?thesis by (simp add: must_complete_times_def)
  qed
  have sound: "\<forall>x\<in>set conflicts2. \<exists>i w. i < length new_facts
             \<and> (x = (NewFact i, None, clock_reason w) \<and> clock_token N (getattr (facts1 ! i) w)
                \<or> x = (NewFact i, None, delta_reason w) \<and> delta_token N (getattr (facts2 ! i) w))"
  proof
    fix x assume "x \<in> set conflicts2"
    with conflicts2 consider "x \<in> set conflicts1" | "x \<in> set added2" by auto
    then show "\<exists>i w. i < length new_facts
             \<and> (x = (NewFact i, None, clock_reason w) \<and> clock_token N (getattr (facts1 ! i) w)
                \<or> x = (NewFact i, None, delta_reason w) \<and> delta_token N (getattr (facts2 ! i) w))"
    proof cases
      case 1
      with sound1 show ?thesis by blast
    next
      case 2
      with sound2 show ?thesis by blast
    qed
  qed
  have by_delta: "must_complete_times N C new_facts = (Inl AssertionError, [])"
    if "(NewFact i, None, delta_reason w) \<in> set conflicts2" for i w
  proof -
    from that conflicts2 consider "(NewFact i, None, delta_reason w) \<in> set conflicts1"
      | "(NewFact i, None, delta_reason w) \<in> set added2" by auto
    then show ?thesis
    proof cases
      case 1
      with sound1 obtain j v where
        "(NewFact i, None, delta_reason w) = (NewFact j, None, clock_reason v)" by blast
      then have "clock_reason v = delta_reason w" by simp
      then have False by simp
      then show ?thesis ..
    next
      case 2
      with sound2 obtain j v where "j < length new_facts"
        "(NewFact i, None, delta_reason w) = (NewFact j, None, delta_reason v)"
        "delta_token N (getattr (facts2 ! j) v)" by blast
      then have "i < length new_facts" and "delta_token N (getattr (facts2 ! i) w)" by simp_all
      with token_is_text(2) abort show ?thesis by blast
    qed
  qed
  have by_clock: "must_complete_times N C new_facts = (Inl AssertionError, [])"
    if "(NewFact i, None, clock_reason w) \<in> set conflicts2"
      and "\<not> delta_token N (getattr (facts1 ! i) w)" for i w
  proof -
    from that(1) conflicts2 consider "(NewFact i, None, clock_reason w) \<in> set conflicts1"
      | "(NewFact i, None, clock_reason w) \<in> set added2" by auto
    then show ?thesis
    proof cases
      case 1
      with sound1 obtain j v where "j < length new_facts"
        "(NewFact i, None, clock_reason w) = (NewFact j, None, clock_reason v)"
        "clock_token N (getattr (facts1 ! j) v)" by blast
      then have i: "i < length new_facts" and "clock_token N (getattr (facts1 ! i) w)" by simp_all
      with token_is_text(1) have "is_text (getattr (facts1 ! i) w)" by blast
      with kept [OF i that(2)] have "is_text (getattr (facts2 ! i) w)" by simp
      with abort [OF i] show ?thesis .
    next
      case 2
      with sound2 obtain j v where
        "(NewFact i, None, clock_reason w) = (NewFact j, None, delta_reason v)" by blast
      then have "clock_reason w = delta_reason v" by simp
      then have False by simp
      then show ?thesis ..
    qed
  qed
  show ?thesis
  proof (intro conjI allI impI)
    show "length facts1 = length new_facts" by (rule len1)
    show "length facts2 = length new_facts" by (rule len2)
    show "\<forall>x\<in>set conflicts2. \<exists>i w. i < length new_facts
             \<and> (x = (NewFact i, None, clock_reason w) \<and> clock_token N (getattr (facts1 ! i) w)
                \<or> x = (NewFact i, None, delta_reason w) \<and> delta_token N (getattr (facts2 ! i) w))"
      by (rule sound)
  next
    fix i w
    assume "i < length new_facts \<and> clock_token N (getattr (facts1 ! i) w)"
    with complete1 conflicts2 show "(NewFact i, None, clock_reason w) \<in> set conflicts2" by simp
  next
    fix i w
    assume "i < length new_facts \<and> delta_token N (getattr (facts2 ! i) w)"
    with complete2 conflicts2 show "(NewFact i, None, delta_reason w) \<in> set conflicts2" by simp
  next
    fix i w
    assume "i < length new_facts \<and> is_text (getattr (facts2 ! i) w)"
    then show "must_complete_times N C new_facts = (Inl AssertionError, [])"
      using abort by blast
  next
    fix i w
    assume "(NewFact i, None, delta_reason w) \<in> set conflicts2"
    then show "must_complete_times N C new_facts = (Inl AssertionError, [])"
      by (rule by_delta)
  next
    fix i w
    assume "(NewFact i, None, clock_reason w) \<in> set conflicts2
              \<and> \<not> delta_token N (getattr (facts1 ! i) w)"
    then show "must_complete_times N C new_facts = (Inl AssertionError, [])"
      using by_clock by blast
  qed
qed

text \<open>
  One fact whose start is "+30", imported into an empty store: the relative-minutes pass
  records that the start cannot be inferred and leaves the text in place, and the import
  ends in the AssertionError of the blank-times pass with nothing shown. So does a batch
  with two clock times and an offset that have no anchor.
\<close>

lemma ex_unanchored_batch:
  "import_facts example_dated example_controller
     [draft (- 1) (Text ''14:30'') NoneT, draft (- 2) (Text ''+30'') (Text ''14:30'')] False True False
   = (Inl AssertionError, [])"
  by (simp add: import_facts_def must_complete_times_def subsequent_fact_def example_controller_def
      fix_clock_times_relative_def fix_delta_times_relative_def fix_blank_times_relative_def
      prev_and_later_def fix_clock_time_relative_def fix_delta_time_relative_def
      fix_blank_time_relative_def infer_datetime_from_clock_def infer_datetime_from_delta_def
      truthy_def getattr_def setattr_def draft_def example_dated_def)

theorem unresolved_token_aborts_import_witness:
  "[draft (- 1) (Text ''+30'') NoneT] \<noteq> []
   \<and> fix_clock_times_relative example_dated [draft (- 1) (Text ''+30'') NoneT]
        (antecedent_fact example_controller [draft (- 1) (Text ''+30'') NoneT])
        (subsequent_fact example_controller [draft (- 1) (Text ''+30'') NoneT]) []
      = Inr ([draft (- 1) (Text ''+30'') NoneT], [])
   \<and> fix_delta_times_relative example_dated [draft (- 1) (Text ''+30'') NoneT]
        (antecedent_fact example_controller [draft (- 1) (Text ''+30'') NoneT])
        (subsequent_fact example_controller [draft (- 1) (Text ''+30'') NoneT]) []
      = Inr ([draft (- 1) (Text ''+30'') NoneT],
             [(NewFact 0, None, ''Cannot infer date of start time specified with delta time'')])
   \<and> must_complete_times example_dated example_controller [draft (- 1) (Text ''+30'') NoneT]
      = (Inl AssertionError, [])
   \<and> import_facts example_dated example_controller [draft (- 1) (Text ''+30'') NoneT] False True False
      = (Inl AssertionError, [])"
proof -
  let ?fs = "[draft (- 1) (Text ''+30'') NoneT]"
  have ne: "?fs \<noteq> []" by simp
  have clock: "fix_clock_times_relative example_dated ?fs (antecedent_fact example_controller ?fs)
                 (subsequent_fact example_controller ?fs) [] = Inr (?fs, [])"
    by (simp add: fix_clock_times_relative_def prev_and_later_def fix_clock_time_relative_def
        subsequent_fact_def getattr_def draft_def example_dated_def)
  have delta: "fix_delta_times_relative example_dated ?fs (antecedent_fact example_controller ?fs)
                 (subsequent_fact example_controller ?fs) []
               = Inr (?fs, [(NewFact 0, None, delta_reason Start)])"
    by (simp add: fix_delta_times_relative_def prev_and_later_def fix_delta_time_relative_def
        infer_datetime_from_delta_def subsequent_fact_def getattr_def draft_def example_dated_def)
  have recorded: "(NewFact 0, None, delta_reason Start) \<in> set [(NewFact 0, None, delta_reason Start)]"
    by simp
  note abort = unresolved_token_aborts_import [OF ne clock delta, THEN conjunct2, THEN conjunct2,
      THEN conjunct2, THEN conjunct2, THEN conjunct2, THEN conjunct2, THEN conjunct1, rule_format,
      OF recorded]
  have shown: "import_facts example_dated example_controller ?fs False True False
               = (Inl AssertionError, [])"
    using abort by (simp add: import_facts_def)
  have reason: "delta_reason Start = ''Cannot infer date of start time specified with delta time''"
    by (simp add: delta_reason_def which_name_def)
  show ?thesis
    using ne clock delta abort shown unfolding reason by (intro conjI)
qed

text \<open>
  Claim C10. The third pass of \<^verbatim>\<open>must_complete_times\<close>, run after the clock-time and
  the relative-minutes passes, fills every start that is still \<^verbatim>\<open>None\<close> with the running
  \<^verbatim>\<open>prev_time\<close> (the end of the antecedent stored fact for the first fact, the end
  of the preceding fact after that) and every end that is still \<^verbatim>\<open>None\<close> with the
  first datetime that \<^verbatim>\<open>find_next_datetime\<close> meets scanning the later facts in their
  order, the start of a fact before its end, and the subsequent stored fact last, or with
  \<^verbatim>\<open>now\<close> when it finds none. That is the next datetime in the sequence and not the
  earliest of the datetimes the later facts hold: the two differ below. Every end is a
  datetime afterwards, so the only conflict the pass can add is for the start of the
  first fact, when there is no antecedent. The pass returns for every sequence of facts
  that hold no text any more and have a start or an end each.
\<close>

theorem blank_times_filled:
  assumes store_ok: "prev_and_later new_facts ante_fact seqt_fact = Inr (prev0, later0)"
  shows "(list_all ready_for_blanks new_facts \<longrightarrow>
            (\<exists>facts' conflicts'.
               fix_blank_times_relative nw new_facts ante_fact seqt_fact conflicts = Inr (facts', conflicts')))
       \<and> (\<forall>facts' conflicts'.
            fix_blank_times_relative nw new_facts ante_fact seqt_fact conflicts = Inr (facts', conflicts') \<longrightarrow>
              length facts' = length new_facts
              \<and> (\<forall>i<length new_facts.
                    start (facts' ! i) =
                      (case start (new_facts ! i) of
                         NoneT \<Rightarrow> field_of (if i = 0 then prev0 else the_datetime (end' (facts' ! (i - 1))))
                       | v \<Rightarrow> v)
                  \<and> end' (facts' ! i) =
                      (case end' (new_facts ! i) of
                         NoneT \<Rightarrow>
                           Datetime
                             (case find_next_datetime
                                     (enumerate_from (Suc i) (drop (Suc i) new_facts) @ seqt_entry seqt_fact) of
                                Some (d, nf) \<Rightarrow> d
                              | None \<Rightarrow> nw)
                       | v \<Rightarrow> v)
                  \<and> the_datetime (end' (facts' ! i)) \<noteq> None)
              \<and> conflicts' =
                  conflicts @ (if new_facts \<noteq> [] \<and> start (hd new_facts) = NoneT \<and> prev0 = None
                               then [(NewFact 0, None, blank_reason Start)] else []))
       \<and> (\<forall>N C facts1 conflicts1 facts2 conflicts2 facts3 conflicts3 conflicts4.
            new_facts \<noteq> []
            \<and> fix_clock_times_relative N new_facts (antecedent_fact C new_facts) (subsequent_fact C new_facts) []
                = Inr (facts1, conflicts1)
            \<and> fix_delta_times_relative N facts1 (antecedent_fact C new_facts) (subsequent_fact C new_facts) conflicts1
                = Inr (facts2, conflicts2)
            \<and> fix_blank_times_relative (now C) facts2 (antecedent_fact C new_facts) (subsequent_fact C new_facts)
                  conflicts2
                = Inr (facts3, conflicts3)
            \<and> verify_datetimes_sanity facts3 (antecedent_fact C new_facts) (subsequent_fact C new_facts) conflicts3
                = Inr conflicts4
            \<longrightarrow> must_complete_times N C new_facts =
                  (if conflicts4 = [] then (Inr facts3, []) else (Inl SystemExit, map ConflictShown conflicts4)))"
proof -
  from prev_and_later_shape [OF store_ok] have
    later0: "later0 = enumerate_from 0 new_facts @ seqt_entry seqt_fact" by simp
  have unfold: "fix_blank_times_relative nw new_facts ante_fact seqt_fact conflicts =
      fix_blank_times_loop nw prev0 (enumerate_from 0 new_facts @ seqt_entry seqt_fact)
        (enumerate_from 0 new_facts) conflicts"
    using store_ok later0 by (simp add: fix_blank_times_relative_def)
  have total: "list_all ready_for_blanks new_facts \<longrightarrow>
            (\<exists>facts' conflicts'.
               fix_blank_times_relative nw new_facts ante_fact seqt_fact conflicts = Inr (facts', conflicts'))"
    using blank_loop_total [of new_facts nw prev0 0 "seqt_entry seqt_fact" conflicts] unfold by simp
  have char: "length facts' = length new_facts
              \<and> (\<forall>i<length new_facts.
                    start (facts' ! i) =
                      (case start (new_facts ! i) of
                         NoneT \<Rightarrow> field_of (if i = 0 then prev0 else the_datetime (end' (facts' ! (i - 1))))
                       | v \<Rightarrow> v)
                  \<and> end' (facts' ! i) =
                      (case end' (new_facts ! i) of
                         NoneT \<Rightarrow>
                           Datetime
                             (case find_next_datetime
                                     (enumerate_from (Suc i) (drop (Suc i) new_facts) @ seqt_entry seqt_fact) of
                                Some (d, nf) \<Rightarrow> d
                              | None \<Rightarrow> nw)
                       | v \<Rightarrow> v)
                  \<and> the_datetime (end' (facts' ! i)) \<noteq> None)
              \<and> conflicts' =
                  conflicts @ (if new_facts \<noteq> [] \<and> start (hd new_facts) = NoneT \<and> prev0 = None
                               then [(NewFact 0, None, blank_reason Start)] else [])"
    if run: "fix_blank_times_relative nw new_facts ante_fact seqt_fact conflicts = Inr (facts', conflicts')"
    for facts' conflicts'
  proof -
    from run unfold have "fix_blank_times_loop nw prev0 (enumerate_from 0 new_facts @ seqt_entry seqt_fact)
        (enumerate_from 0 new_facts) conflicts = Inr (facts', conflicts')" by simp
    from blank_loop_char [OF this, unfolded add_0] show ?thesis .
  qed
  show ?thesis
    using total char must_complete_times_steps by blast
qed

text \<open>
  Three facts and an empty store at 20:00: the first start cannot be filled, the second
  end becomes the third fact's start, and the last end becomes \<^verbatim>\<open>now\<close>.
\<close>

lemma ex_blank_pass:
  "fix_blank_times_relative (hours 20)
     [draft (- 1) NoneT (Datetime (hours 9)), draft (- 2) (Datetime (hours 10)) NoneT,
      draft (- 3) (Datetime (hours 12)) NoneT] None None []
   = Inr ([draft (- 1) NoneT (Datetime (hours 9)), draft (- 2) (Datetime (hours 10)) (Datetime (hours 12)),
           draft (- 3) (Datetime (hours 12)) (Datetime (hours 20))],
          [(NewFact 0, None, ''Cannot infer date of start time left blank'')])"
  by (simp add: fix_blank_times_relative_def prev_and_later_def fix_blank_time_relative_def
      getattr_def setattr_def draft_def blank_reason_def which_name_def truthy_def)

theorem blank_times_filled_witness:
  "prev_and_later
     [draft (- 1) NoneT (Datetime (hours 9)), draft (- 2) (Datetime (hours 10)) NoneT,
      draft (- 3) (Datetime (hours 12)) NoneT] None None
     = Inr (None, [(NewFact 0, draft (- 1) NoneT (Datetime (hours 9))),
                   (NewFact 1, draft (- 2) (Datetime (hours 10)) NoneT),
                   (NewFact 2, draft (- 3) (Datetime (hours 12)) NoneT)])
   \<and> list_all ready_for_blanks
        [draft (- 1) NoneT (Datetime (hours 9)), draft (- 2) (Datetime (hours 10)) NoneT,
         draft (- 3) (Datetime (hours 12)) NoneT]
   \<and> (\<exists>facts' conflicts'.
        fix_blank_times_relative (hours 20)
          [draft (- 1) NoneT (Datetime (hours 9)), draft (- 2) (Datetime (hours 10)) NoneT,
           draft (- 3) (Datetime (hours 12)) NoneT] None None []
          = Inr (facts', conflicts')
        \<and> facts' = [draft (- 1) NoneT (Datetime (hours 9)),
                     draft (- 2) (Datetime (hours 10)) (Datetime (hours 12)),
                     draft (- 3) (Datetime (hours 12)) (Datetime (hours 20))]
        \<and> conflicts' = [(NewFact 0, None, ''Cannot infer date of start time left blank'')]
        \<and> conflicts' = [] @ [(NewFact 0, None, blank_reason Start)]
        \<and> start (facts' ! 0) = NoneT
        \<and> end' (facts' ! 1) = Datetime (hours 12)
        \<and> end' (facts' ! 2) = Datetime (hours 20))"
proof -
  let ?fs = "[draft (- 1) NoneT (Datetime (hours 9)), draft (- 2) (Datetime (hours 10)) NoneT,
      draft (- 3) (Datetime (hours 12)) NoneT]"
  have ok: "prev_and_later ?fs None None
     = Inr (None, [(NewFact 0, draft (- 1) NoneT (Datetime (hours 9))),
                   (NewFact 1, draft (- 2) (Datetime (hours 10)) NoneT),
                   (NewFact 2, draft (- 3) (Datetime (hours 12)) NoneT)])"
    by (simp add: prev_and_later_def)
  have ready: "list_all ready_for_blanks ?fs"
    by (simp add: ready_for_blanks_def is_text_def truthy_def draft_def)
  note inst = blank_times_filled [OF ok, where nw = "hours 20" and conflicts = "[]"]
  from inst [THEN conjunct1] ready obtain facts' conflicts' where
    run: "fix_blank_times_relative (hours 20) ?fs None None [] = Inr (facts', conflicts')"
    by blast
  from inst [THEN conjunct2, THEN conjunct1, rule_format, OF run]
  have cs: "conflicts' = [] @ [(NewFact 0, None, blank_reason Start)]"
    by (simp add: draft_def)
  from run ex_blank_pass have val: "facts' = [draft (- 1) NoneT (Datetime (hours 9)),
                     draft (- 2) (Datetime (hours 10)) (Datetime (hours 12)),
                     draft (- 3) (Datetime (hours 12)) (Datetime (hours 20))]"
    "conflicts' = [(NewFact 0, None, ''Cannot infer date of start time left blank'')]"
    by simp_all
  show ?thesis
    using ok ready run cs val by (simp add: draft_def)
qed

text \<open>
  A fact from 9:00 with no end, before a fact entered as 12:00 to 11:00: the end becomes
  12:00, the first datetime of the later fact, while the earliest datetime among the
  later facts is 11:00.
\<close>

theorem blank_end_not_earliest_counterexample:
  "fix_blank_times_relative (hours 20)
     [draft (- 1) (Datetime (hours 9)) NoneT, draft (- 2) (Datetime (hours 12)) (Datetime (hours 11))]
     None None []
   = Inr ([draft (- 1) (Datetime (hours 9)) (Datetime (hours 12)),
           draft (- 2) (Datetime (hours 12)) (Datetime (hours 11))], [])
   \<and> earliest_datetime [(NewFact 1, draft (- 2) (Datetime (hours 12)) (Datetime (hours 11)))]
       = Some (hours 11)
   \<and> hours 11 < hours 12"
  by (simp add: fix_blank_times_relative_def prev_and_later_def fix_blank_time_relative_def
      getattr_def setattr_def draft_def truthy_def earliest_datetime_def later_datetimes_def
      hours_def)

section \<open>The conflict detector\<close>

text \<open>
  Claim C1, as amended. For a sequence whose times are \<^verbatim>\<open>None\<close> or datetimes, checked
  between the antecedent and the subsequent stored fact: the conflicts the detector adds
  are, fact by fact and in this order, "New fact starts before previous fact ends" when
  the start precedes the running \<^verbatim>\<open>prev_time\<close> (naming the preceding fact, or the
  antecedent stored fact for the first one), "New fact ends after next fact starts" when
  the end exceeds the next datetime found in the later facts and the subsequent stored
  fact (naming the fact that holds it), and "New fact starts after it ends/ends before it
  starts" when both times are there and the start exceeds the end. For an absent start or
  end it adds nothing: it asserts that a conflict naming the fact is already recorded, and
  fails with AssertionError when none is. The detector returns whenever every fact with
  an absent time is named by a conflict already.
\<close>

theorem sanity_conflicts:
  assumes store_ok: "prev_and_later new_facts ante_fact seqt_fact = Inr (prev0, later0)"
    and times: "list_all no_text new_facts"
  shows "(\<forall>out. verify_datetimes_sanity new_facts ante_fact seqt_fact conflicts = Inr out \<longrightarrow>
            out = conflicts @
              concat (map (\<lambda>i. expected_conflicts (NewFact i) (new_facts ! i)
                                  (last_truthy (field_of prev0) (fact_times (take i new_facts)))
                                  (prev_fact_ref (ante_ref ante_fact) 0 i)
                                  (enumerate_from (Suc i) (drop (Suc i) new_facts) @ seqt_entry seqt_fact))
                        [0..<length new_facts]))
       \<and> ((\<forall>i<length new_facts. start (new_facts ! i) = NoneT \<or> end' (new_facts ! i) = NoneT
              \<longrightarrow> (\<exists>c\<in>set conflicts. fst c = NewFact i))
            \<longrightarrow> (\<exists>out. verify_datetimes_sanity new_facts ante_fact seqt_fact conflicts = Inr out))
       \<and> ((\<exists>i<length new_facts. start (new_facts ! i) = NoneT \<and> (\<forall>c\<in>set conflicts. fst c \<noteq> NewFact i))
            \<longrightarrow> verify_datetimes_sanity new_facts ante_fact seqt_fact conflicts = Inl AssertionError)
       \<and> (\<forall>r fct p pf cs. start fct = NoneT \<longrightarrow>
             check_start r fct p pf cs
               = (if \<exists>c\<in>set cs. fst c = r then Inr (p, cs) else Inl AssertionError))
       \<and> (\<forall>r fct p l cs. end' fct = NoneT \<longrightarrow>
             check_end r fct p l cs
               = (if \<exists>c\<in>set cs. fst c = r then Inr (p, cs) else Inl AssertionError))"
proof -
  from prev_and_later_shape [OF store_ok] have
    later0: "later0 = enumerate_from 0 new_facts @ seqt_entry seqt_fact" by simp
  have np: "\<not> is_text (field_of prev0)"
    by (cases prev0) (simp_all add: field_of_def is_text_def)
  have unfold: "verify_datetimes_sanity new_facts ante_fact seqt_fact conflicts =
      verify_datetimes_loop (field_of prev0) (ante_ref ante_fact)
        (enumerate_from 0 new_facts @ seqt_entry seqt_fact) (enumerate_from 0 new_facts) conflicts"
    using store_ok later0 by (simp add: verify_datetimes_sanity_def ante_ref_def)
  have A: "out = conflicts @
              concat (map (\<lambda>i. expected_conflicts (NewFact i) (new_facts ! i)
                                  (last_truthy (field_of prev0) (fact_times (take i new_facts)))
                                  (prev_fact_ref (ante_ref ante_fact) 0 i)
                                  (enumerate_from (Suc i) (drop (Suc i) new_facts) @ seqt_entry seqt_fact))
                        [0..<length new_facts])"
    if "verify_datetimes_sanity new_facts ante_fact seqt_fact conflicts = Inr out" for out
  proof -
    from that unfold have "verify_datetimes_loop (field_of prev0) (ante_ref ante_fact)
        (enumerate_from 0 new_facts @ seqt_entry seqt_fact) (enumerate_from 0 new_facts) conflicts = Inr out"
      by simp
    from verify_loop_char [OF this times np, unfolded add_0] show ?thesis .
  qed
  have B: "\<exists>out. verify_datetimes_sanity new_facts ante_fact seqt_fact conflicts = Inr out"
    if "\<forall>i<length new_facts. start (new_facts ! i) = NoneT \<or> end' (new_facts ! i) = NoneT
              \<longrightarrow> (\<exists>c\<in>set conflicts. fst c = NewFact i)"
    using verify_loop_total [OF times np, of conflicts 0 "ante_ref ante_fact" "seqt_entry seqt_fact"]
      that unfold by simp
  have C: "verify_datetimes_sanity new_facts ante_fact seqt_fact conflicts = Inl AssertionError"
    if "\<exists>i<length new_facts. start (new_facts ! i) = NoneT \<and> (\<forall>c\<in>set conflicts. fst c \<noteq> NewFact i)"
  proof -
    from that obtain i where i: "i < length new_facts" "start (new_facts ! i) = NoneT"
      "\<forall>c\<in>set conflicts. fst c \<noteq> NewFact (0 + i)" by auto
    from verify_loop_fails [OF times np i] unfold show ?thesis by simp
  qed
  have D: "check_start r fct p pf cs
               = (if \<exists>c\<in>set cs. fst c = r then Inr (p, cs) else Inl AssertionError)"
    if "start fct = NoneT" for r fct p pf cs
    using that
    by (auto simp: check_start_def truthy_def verify_datetimes_missing_already_caught_def
        filter_empty_conv)
  have E: "check_end r fct p l cs
               = (if \<exists>c\<in>set cs. fst c = r then Inr (p, cs) else Inl AssertionError)"
    if "end' fct = NoneT" for r fct p l cs
    using that
    by (auto simp: check_end_def truthy_def verify_datetimes_missing_already_caught_def
        filter_empty_conv)
  show ?thesis
    using A B C D E by blast
qed

text \<open>
  The claim as stated (an absent start that is not flagged yields a "could not determine
  start" conflict) fails: one fact with no start and no conflict recorded for it ends the
  check with an assertion error.
\<close>

theorem sanity_missing_start_counterexample:
  "verify_datetimes_sanity [draft (- 1) NoneT (Datetime (hours 9))] None None [] = Inl AssertionError"
  by (simp add: verify_datetimes_sanity_def prev_and_later_def check_start_def truthy_def
      verify_datetimes_missing_already_caught_def draft_def field_of_def)

text \<open>
  Three facts, the second ending after the third starts and the third ending after the
  subsequent stored fact starts.
\<close>

lemma ex_sanity_run:
  "verify_datetimes_sanity
     [draft (- 1) (Datetime (hours 9)) (Datetime (hours 10)),
      draft (- 2) (Datetime (hours 10)) (Datetime (hours 12)),
      draft (- 3) (Datetime (hours 11)) (Datetime (hours 14))]
     None (Some (stored 7 (Some (hours 13)) (Some (hours 15)))) []
   = Inr [(NewFact 1, Some (NewFact 2), ''New fact ends after next fact starts''),
          (NewFact 2, Some (NewFact 1), ''New fact starts before previous fact ends''),
          (NewFact 2, Some SeqtFact, ''New fact ends after next fact starts'')]"
  by (simp add: verify_datetimes_sanity_def prev_and_later_def check_start_def check_end_def
      check_order_def truthy_def py_lt_def draft_def stored_def as_fact_def field_of_def hours_def
      starts_before_reason_def ends_after_reason_def)

theorem sanity_conflicts_witness:
  "prev_and_later
     [draft (- 1) (Datetime (hours 9)) (Datetime (hours 10)),
      draft (- 2) (Datetime (hours 10)) (Datetime (hours 12)),
      draft (- 3) (Datetime (hours 11)) (Datetime (hours 14))]
     None (Some (stored 7 (Some (hours 13)) (Some (hours 15))))
     = Inr (None,
            enumerate_from 0
              [draft (- 1) (Datetime (hours 9)) (Datetime (hours 10)),
               draft (- 2) (Datetime (hours 10)) (Datetime (hours 12)),
               draft (- 3) (Datetime (hours 11)) (Datetime (hours 14))]
            @ [(SeqtFact, as_fact (stored 7 (Some (hours 13)) (Some (hours 15))))])
   \<and> list_all no_text
        [draft (- 1) (Datetime (hours 9)) (Datetime (hours 10)),
         draft (- 2) (Datetime (hours 10)) (Datetime (hours 12)),
         draft (- 3) (Datetime (hours 11)) (Datetime (hours 14))]
   \<and> verify_datetimes_sanity
        [draft (- 1) (Datetime (hours 9)) (Datetime (hours 10)),
         draft (- 2) (Datetime (hours 10)) (Datetime (hours 12)),
         draft (- 3) (Datetime (hours 11)) (Datetime (hours 14))]
        None (Some (stored 7 (Some (hours 13)) (Some (hours 15)))) []
      = Inr [(NewFact 1, Some (NewFact 2), ''New fact ends after next fact starts''),
             (NewFact 2, Some (NewFact 1), ''New fact starts before previous fact ends''),
             (NewFact 2, Some SeqtFact, ''New fact ends after next fact starts'')]
   \<and> [(NewFact 1, Some (NewFact 2), ''New fact ends after next fact starts''),
       (NewFact 2, Some (NewFact 1), ''New fact starts before previous fact ends''),
       (NewFact 2, Some SeqtFact, ''New fact ends after next fact starts'')]
      = [] @ concat (map (\<lambda>i. expected_conflicts (NewFact i)
                ([draft (- 1) (Datetime (hours 9)) (Datetime (hours 10)),
                  draft (- 2) (Datetime (hours 10)) (Datetime (hours 12)),
                  draft (- 3) (Datetime (hours 11)) (Datetime (hours 14))] ! i)
                (last_truthy (field_of None)
                   (fact_times (take i
                      [draft (- 1) (Datetime (hours 9)) (Datetime (hours 10)),
                       draft (- 2) (Datetime (hours 10)) (Datetime (hours 12)),
                       draft (- 3) (Datetime (hours 11)) (Datetime (hours 14))])))
                (prev_fact_ref (ante_ref None) 0 i)
                (enumerate_from (Suc i)
                   (drop (Suc i)
                      [draft (- 1) (Datetime (hours 9)) (Datetime (hours 10)),
                       draft (- 2) (Datetime (hours 10)) (Datetime (hours 12)),
                       draft (- 3) (Datetime (hours 11)) (Datetime (hours 14))])
                 @ seqt_entry (Some (stored 7 (Some (hours 13)) (Some (hours 15))))))
              [0..<length
                 [draft (- 1) (Datetime (hours 9)) (Datetime (hours 10)),
                  draft (- 2) (Datetime (hours 10)) (Datetime (hours 12)),
                  draft (- 3) (Datetime (hours 11)) (Datetime (hours 14))]])"
proof -
  let ?fs = "[draft (- 1) (Datetime (hours 9)) (Datetime (hours 10)),
      draft (- 2) (Datetime (hours 10)) (Datetime (hours 12)),
      draft (- 3) (Datetime (hours 11)) (Datetime (hours 14))]"
  let ?sq = "Some (stored 7 (Some (hours 13)) (Some (hours 15)))"
  have ok: "prev_and_later ?fs None ?sq
     = Inr (None, enumerate_from 0 ?fs @ [(SeqtFact, as_fact (stored 7 (Some (hours 13)) (Some (hours 15))))])"
    by (simp add: prev_and_later_def stored_def)
  have nt: "list_all no_text ?fs"
    by (simp add: no_text_def is_text_def draft_def)
  note inst = sanity_conflicts [OF ok nt, where conflicts = "[]"]
  note spec = inst [THEN conjunct1, rule_format, OF ex_sanity_run]
  show ?thesis
    apply (intro conjI)
       apply (rule ok)
      apply (rule nt)
     apply (rule ex_sanity_run)
    apply (rule spec)
    done
qed

section \<open>The import as a whole\<close>

text \<open>
  Claim C4, as amended. An import whose completing of times ends in an error, which is
  what any conflict left by the four passes leads to, ends there: what it has printed are
  the conflicts, one block each, and no fact has been handed to \<^verbatim>\<open>mend_facts_times\<close>,
  saved or written. \<^verbatim>\<open>mend_facts_times\<close> is called, with \<^verbatim>\<open>verify_both\<close> and for every
  fact in turn, exactly when the passes leave no conflict. Three drafts with absolute
  times of which the second ends after the third starts give two conflicts, not one: the
  second fact "ends after next fact starts" against the third, and the third "starts
  before previous fact ends" against the second; nothing is saved.
\<close>

theorem import_store_check_only_without_conflicts:
  "(\<forall>e out. must_complete_times N C new_facts = (Inl e, out) \<longrightarrow>
      import_facts N C new_facts file_out yes dry = (Inl e, out)
      \<and> (\<forall>ev\<in>set out. \<exists>c. ev = ConflictShown c))
   \<and> (\<forall>i h. (MendTimes i h \<in> set (snd (import_facts N C new_facts file_out yes dry))
             \<or> FactSaved i \<in> set (snd (import_facts N C new_facts file_out yes dry))
             \<or> FactWritten i \<in> set (snd (import_facts N C new_facts file_out yes dry)))
        \<longrightarrow> (\<exists>facts. must_complete_times N C new_facts = (Inr facts, [])))
   \<and> (\<forall>facts out. must_complete_times N C new_facts = (Inr facts, out) \<longrightarrow>
        (\<exists>rest. snd (import_facts N C new_facts file_out yes dry)
           = map (\<lambda>i. MendTimes i verify_both) [0..<length facts] @ rest))
   \<and> (\<forall>facts1 conflicts1 facts2 conflicts2 facts3 conflicts3 conflicts4.
        new_facts \<noteq> []
        \<and> fix_clock_times_relative N new_facts (antecedent_fact C new_facts) (subsequent_fact C new_facts) []
            = Inr (facts1, conflicts1)
        \<and> fix_delta_times_relative N facts1 (antecedent_fact C new_facts) (subsequent_fact C new_facts) conflicts1
            = Inr (facts2, conflicts2)
        \<and> fix_blank_times_relative (now C) facts2 (antecedent_fact C new_facts) (subsequent_fact C new_facts)
              conflicts2
            = Inr (facts3, conflicts3)
        \<and> verify_datetimes_sanity facts3 (antecedent_fact C new_facts) (subsequent_fact C new_facts) conflicts3
            = Inr conflicts4
        \<and> conflicts4 \<noteq> []
        \<longrightarrow> import_facts N C new_facts file_out yes dry = (Inl SystemExit, map ConflictShown conflicts4))
   \<and> (\<forall>k1 k2 k3 s1 e1 s2 e2 s3 e3.
        antecedent C s1 = None \<and> subsequent C e3 = None
        \<and> s1 \<le> e1 \<and> e1 \<le> s2 \<and> s2 \<le> e2 \<and> s3 < e2 \<and> s3 \<le> e3
        \<longrightarrow> import_facts N C
              [draft k1 (Datetime s1) (Datetime e1), draft k2 (Datetime s2) (Datetime e2),
               draft k3 (Datetime s3) (Datetime e3)] file_out yes dry
            = (Inl SystemExit,
               [ConflictShown (NewFact 1, Some (NewFact 2), ends_after_reason),
                ConflictShown (NewFact 2, Some (NewFact 1), starts_before_reason)]))"
proof (intro conjI allI impI)
  fix e out
  assume a: "must_complete_times N C new_facts = (Inl e, out)"
  then show "import_facts N C new_facts file_out yes dry = (Inl e, out)"
    by (simp add: import_facts_def)
  from must_complete_times_outcome [OF a] show "\<forall>ev\<in>set out. \<exists>c. ev = ConflictShown c"
    by simp
next
  fix i h
  assume ev: "MendTimes i h \<in> set (snd (import_facts N C new_facts file_out yes dry))
             \<or> FactSaved i \<in> set (snd (import_facts N C new_facts file_out yes dry))
             \<or> FactWritten i \<in> set (snd (import_facts N C new_facts file_out yes dry))"
  obtain res out where m: "must_complete_times N C new_facts = (res, out)"
    by (cases "must_complete_times N C new_facts")
  show "\<exists>facts. must_complete_times N C new_facts = (Inr facts, [])"
  proof (cases res)
    case (Inl e)
    with m must_complete_times_outcome [OF m] have
      "import_facts N C new_facts file_out yes dry = (Inl e, out)"
      and "\<forall>ev\<in>set out. \<exists>c. ev = ConflictShown c"
      by (simp_all add: import_facts_def)
    with ev show ?thesis by auto
  next
    case (Inr facts)
    with m must_complete_times_outcome [OF m] show ?thesis by auto
  qed
next
  fix facts out
  assume "must_complete_times N C new_facts = (Inr facts, out)"
  from import_after_completing [OF this]
  show "\<exists>rest. snd (import_facts N C new_facts file_out yes dry)
           = map (\<lambda>i. MendTimes i verify_both) [0..<length facts] @ rest" .
next
  fix facts1 conflicts1 facts2 conflicts2 facts3 conflicts3 conflicts4
  assume h: "new_facts \<noteq> []
        \<and> fix_clock_times_relative N new_facts (antecedent_fact C new_facts) (subsequent_fact C new_facts) []
            = Inr (facts1, conflicts1)
        \<and> fix_delta_times_relative N facts1 (antecedent_fact C new_facts) (subsequent_fact C new_facts) conflicts1
            = Inr (facts2, conflicts2)
        \<and> fix_blank_times_relative (now C) facts2 (antecedent_fact C new_facts) (subsequent_fact C new_facts)
              conflicts2
            = Inr (facts3, conflicts3)
        \<and> verify_datetimes_sanity facts3 (antecedent_fact C new_facts) (subsequent_fact C new_facts) conflicts3
            = Inr conflicts4
        \<and> conflicts4 \<noteq> []"
  then have "must_complete_times N C new_facts = (Inl SystemExit, map ConflictShown conflicts4)"
    using must_complete_times_steps [of new_facts N C facts1 conflicts1 facts2 conflicts2 facts3
        conflicts3 conflicts4] by simp
  then show "import_facts N C new_facts file_out yes dry = (Inl SystemExit, map ConflictShown conflicts4)"
    by (simp add: import_facts_def)
next
  fix k1 k2 k3 s1 e1 s2 e2 s3 e3
  assume "antecedent C s1 = None \<and> subsequent C e3 = None
        \<and> s1 \<le> e1 \<and> e1 \<le> s2 \<and> s2 \<le> e2 \<and> s3 < e2 \<and> s3 \<le> e3"
  then have "must_complete_times N C
              [draft k1 (Datetime s1) (Datetime e1), draft k2 (Datetime s2) (Datetime e2),
               draft k3 (Datetime s3) (Datetime e3)]
            = (Inl SystemExit,
               [ConflictShown (NewFact 1, Some (NewFact 2), ends_after_reason),
                ConflictShown (NewFact 2, Some (NewFact 1), starts_before_reason)])"
    by (simp add: must_complete_times_def subsequent_fact_def
      fix_clock_times_relative_def fix_delta_times_relative_def fix_blank_times_relative_def
      verify_datetimes_sanity_def prev_and_later_def
      fix_clock_time_relative_def fix_delta_time_relative_def fix_blank_time_relative_def
      check_start_def check_end_def check_order_def truthy_def py_lt_def getattr_def
      barf_on_overlapping_facts_new_def draft_def field_of_def)
  then show "import_facts N C
              [draft k1 (Datetime s1) (Datetime e1), draft k2 (Datetime s2) (Datetime e2),
               draft k3 (Datetime s3) (Datetime e3)] file_out yes dry
            = (Inl SystemExit,
               [ConflictShown (NewFact 1, Some (NewFact 2), ends_after_reason),
                ConflictShown (NewFact 2, Some (NewFact 1), starts_before_reason)])"
    by (simp add: import_facts_def)
qed

text \<open>
  Drafts 9:00 to 10:00, 10:00 to 12:00 and 11:00 to 14:00 against an empty store: the
  claim's "exactly one conflict" fails, the import prints two.
\<close>

lemma ex_overlap_completing:
  "must_complete_times example_dated example_controller
     [draft (- 1) (Datetime (hours 9)) (Datetime (hours 10)),
      draft (- 2) (Datetime (hours 10)) (Datetime (hours 12)),
      draft (- 3) (Datetime (hours 11)) (Datetime (hours 14))]
   = (Inl SystemExit,
      [ConflictShown (NewFact 1, Some (NewFact 2), ''New fact ends after next fact starts''),
       ConflictShown (NewFact 2, Some (NewFact 1), ''New fact starts before previous fact ends'')])"
  by (simp add: must_complete_times_def subsequent_fact_def example_controller_def
      fix_clock_times_relative_def fix_delta_times_relative_def fix_blank_times_relative_def
      verify_datetimes_sanity_def prev_and_later_def
      fix_clock_time_relative_def fix_delta_time_relative_def fix_blank_time_relative_def
      check_start_def check_end_def check_order_def truthy_def py_lt_def getattr_def
      barf_on_overlapping_facts_new_def draft_def field_of_def hours_def
      starts_before_reason_def ends_after_reason_def)

theorem import_overlap_counterexample:
  "import_facts example_dated example_controller
     [draft (- 1) (Datetime (hours 9)) (Datetime (hours 10)),
      draft (- 2) (Datetime (hours 10)) (Datetime (hours 12)),
      draft (- 3) (Datetime (hours 11)) (Datetime (hours 14))] False True False
   = (Inl SystemExit,
      [ConflictShown (NewFact 1, Some (NewFact 2), ''New fact ends after next fact starts''),
       ConflictShown (NewFact 2, Some (NewFact 1), ''New fact starts before previous fact ends'')])
   \<and> length (snd (import_facts example_dated example_controller
        [draft (- 1) (Datetime (hours 9)) (Datetime (hours 10)),
         draft (- 2) (Datetime (hours 10)) (Datetime (hours 12)),
         draft (- 3) (Datetime (hours 11)) (Datetime (hours 14))] False True False)) = 2"
  using ex_overlap_completing by (simp add: import_facts_def)

text \<open>Without the third draft the import checks both facts against the store and saves them.\<close>

lemma ex_disjoint_import:
  "import_facts example_dated example_controller
     [draft (- 1) (Datetime (hours 9)) (Datetime (hours 10)),
      draft (- 2) (Datetime (hours 10)) (Datetime (hours 12))] False True False
   = (Inr (), [MendTimes 0 verify_both, MendTimes 1 verify_both, FactSaved 0, FactSaved 1])"
  by (simp add: import_facts_def must_complete_times_def subsequent_fact_def example_controller_def
      fix_clock_times_relative_def fix_delta_times_relative_def fix_blank_times_relative_def
      verify_datetimes_sanity_def prev_and_later_def
      fix_clock_time_relative_def fix_delta_time_relative_def fix_blank_time_relative_def
      check_start_def check_end_def check_order_def truthy_def py_lt_def getattr_def
      barf_on_overlapping_facts_new_def draft_def field_of_def hours_def
      must_not_conflict_existing_def barf_on_overlapping_facts_old_def prompt_and_save_import_def persist_fact_import_def)

theorem import_store_check_only_without_conflicts_witness:
  "must_complete_times example_dated example_controller
     [draft (- 1) (Datetime (hours 9)) (Datetime (hours 10)),
      draft (- 2) (Datetime (hours 10)) (Datetime (hours 12)),
      draft (- 3) (Datetime (hours 11)) (Datetime (hours 14))]
   = (Inl SystemExit,
      [ConflictShown (NewFact 1, Some (NewFact 2), ''New fact ends after next fact starts''),
       ConflictShown (NewFact 2, Some (NewFact 1), ''New fact starts before previous fact ends'')])
   \<and> import_facts example_dated example_controller
        [draft (- 1) (Datetime (hours 9)) (Datetime (hours 10)),
         draft (- 2) (Datetime (hours 10)) (Datetime (hours 12)),
         draft (- 3) (Datetime (hours 11)) (Datetime (hours 14))] False True False
      = (Inl SystemExit,
         [ConflictShown (NewFact 1, Some (NewFact 2), ''New fact ends after next fact starts''),
          ConflictShown (NewFact 2, Some (NewFact 1), ''New fact starts before previous fact ends'')])
   \<and> MendTimes 0 verify_both \<in> set (snd (import_facts example_dated example_controller
        [draft (- 1) (Datetime (hours 9)) (Datetime (hours 10)),
         draft (- 2) (Datetime (hours 10)) (Datetime (hours 12))] False True False))
   \<and> (\<exists>facts. must_complete_times example_dated example_controller
        [draft (- 1) (Datetime (hours 9)) (Datetime (hours 10)),
         draft (- 2) (Datetime (hours 10)) (Datetime (hours 12))] = (Inr facts, []))"
proof -
  note a = import_store_check_only_without_conflicts [where N = example_dated and C = example_controller
      and new_facts = "[draft (- 1) (Datetime (hours 9)) (Datetime (hours 10)),
         draft (- 2) (Datetime (hours 10)) (Datetime (hours 12)),
         draft (- 3) (Datetime (hours 11)) (Datetime (hours 14))]"
      and file_out = False and yes = True and dry = False,
      THEN conjunct1, rule_format, OF ex_overlap_completing, THEN conjunct1]
  have m: "MendTimes 0 verify_both \<in> set (snd (import_facts example_dated example_controller
        [draft (- 1) (Datetime (hours 9)) (Datetime (hours 10)),
         draft (- 2) (Datetime (hours 10)) (Datetime (hours 12))] False True False))"
    by (simp add: ex_disjoint_import)
  note b = import_store_check_only_without_conflicts [where N = example_dated and C = example_controller
      and new_facts = "[draft (- 1) (Datetime (hours 9)) (Datetime (hours 10)),
         draft (- 2) (Datetime (hours 10)) (Datetime (hours 12))]"
      and file_out = False and yes = True and dry = False,
      THEN conjunct2, THEN conjunct1, rule_format, of 0 verify_both, OF disjI1, OF m]
  show ?thesis
    apply (intro conjI)
       apply (rule ex_overlap_completing)
      apply (rule a)
     apply (rule m)
    apply (rule b)
    done
qed

section \<open>Facts about saving a batch\<close>

lemma length_filter_all: "length (filter P xs) = length xs \<longleftrightarrow> list_all P xs"
proof (induction xs)
  case Nil
  show ?case by simp
next
  case (Cons x xs)
  have "length (filter P xs) \<le> length xs" by (rule length_filter_le)
  then have "length (filter P xs) \<noteq> Suc (length xs)" by arith
  with Cons show ?case by auto
qed

lemma confirm_loop_prompts:
  "confirm_loop X h False nc nf cs =
     ((nc + length cs,
       nf + length (filter (\<lambda>(i, c). confirm X i (h (snd c)) (h (fst c))) (List.enumerate (Suc nc) cs))),
      map (\<lambda>(i, c). Prompted i (fst c) (snd c)) (List.enumerate (Suc nc) cs))"
proof (induction cs arbitrary: nc nf)
  case Nil
  show ?case by simp
next
  case (Cons c cs)
  obtain ed orig where c: "c = (ed, orig)" by (cases c)
  show ?case
    unfolding c by (simp add: Cons.IH Let_def)
qed

lemma must_confirm_unattended:
  "must_confirm_fact_edits X w conflicts False False =
     (if list_all (\<lambda>(i, c). confirm X i (heap w (snd c)) (heap w (fst c)))
           (List.enumerate 1 (cull_stopped_ongoing (heap w) conflicts))
      then Inr () else Inl SystemExit,
      w\<lparr>trace := trace w @ map (\<lambda>(i, c). Prompted i (fst c) (snd c))
                            (List.enumerate 1 (cull_stopped_ongoing (heap w) conflicts))\<rparr>)"
proof (cases "cull_stopped_ongoing (heap w) conflicts = []")
  case True
  then show ?thesis by (simp add: must_confirm_fact_edits_def)
next
  case False
  let ?cs = "cull_stopped_ongoing (heap w) conflicts"
  let ?P = "\<lambda>(i, c). confirm X i (heap w (snd c)) (heap w (fst c))"
  have "length (filter ?P (List.enumerate (Suc 0) ?cs)) = length (List.enumerate (Suc 0) ?cs)
        \<longleftrightarrow> list_all ?P (List.enumerate (Suc 0) ?cs)"
    by (rule length_filter_all)
  then have eq: "length ?cs = length (filter ?P (List.enumerate (Suc 0) ?cs))
        \<longleftrightarrow> list_all ?P (List.enumerate (Suc 0) ?cs)"
    by auto
  show ?thesis
    using False eq
    by (simp add: must_confirm_fact_edits_def confirm_loop_prompts Let_def)
qed























section \<open>Confirming and saving\<close>

text \<open>
  Claim C7. With neither \<^verbatim>\<open>yes\<close> nor \<^verbatim>\<open>dry\<close> set, \<^verbatim>\<open>must_confirm_fact_edits\<close> shows one
  prompt, numbered from 1 and in order, for each conflict whose edited fact does not
  carry the dirty reason "stopped", and for no other; it returns when every answer is yes
  and leaves through \<^verbatim>\<open>dob_in_user_exit\<close> otherwise. In
  \<^verbatim>\<open>mend_facts_confirm_and_save_maybe\<close> it runs before \<^verbatim>\<open>save_facts_maybe\<close>: when an
  answer is no, the call ends with the store as it found it and a trace that holds the
  mending and the prompts only; when all are yes, the saving follows. The save loop makes
  this call once for each fact of a batch, so a refusal ends the loop at that fact with
  the store as the earlier iterations left it: the fact in hand and the edits asked about
  are not saved, and what was saved for the facts before it stays saved.
\<close>

theorem confirmation_required:
  "must_confirm_fact_edits X w conflicts False False =
     (if list_all (\<lambda>(i, c). confirm X i (heap w (snd c)) (heap w (fst c)))
           (List.enumerate 1 (cull_stopped_ongoing (heap w) conflicts))
      then Inr () else Inl SystemExit,
      w\<lparr>trace := trace w @ map (\<lambda>(i, c). Prompted i (fst c) (snd c))
                            (List.enumerate 1 (cull_stopped_ongoing (heap w) conflicts))\<rparr>)
   \<and> (\<forall>i c. (i, c) \<in> set (List.enumerate 1 (cull_stopped_ongoing (heap w) conflicts)) \<longrightarrow>
         c \<in> set conflicts \<and> ''stopped'' \<notin> dirty_reasons (heap w (fst c)))
   \<and> (\<forall>c. c \<in> set conflicts \<and> ''stopped'' \<notin> dirty_reasons (heap w (fst c)) \<longrightarrow>
         (\<exists>i. (i, c) \<in> set (List.enumerate 1 (cull_stopped_ongoing (heap w) conflicts))))
   \<and> (\<forall>new_fact_or_two cs h'.
         mend_fact_timey_wimey X (heap w) (store w) a hint oe = Some ((new_fact_or_two, cs), h')
         \<and> \<not> list_all (\<lambda>(i, c). confirm X i (h' (snd c)) (h' (fst c)))
                (List.enumerate 1 (cull_stopped_ongoing h' cs))
         \<longrightarrow> mend_facts_confirm_and_save_maybe X w a hint oe False False =
               (Inl SystemExit,
                w\<lparr>heap := h',
                   trace := trace w @ Mended a hint #
                      map (\<lambda>(i, c). Prompted i (fst c) (snd c))
                        (List.enumerate 1 (cull_stopped_ongoing h' cs))\<rparr>))
   \<and> (\<forall>new_fact_or_two cs h'.
         mend_fact_timey_wimey X (heap w) (store w) a hint oe = Some ((new_fact_or_two, cs), h')
         \<and> list_all (\<lambda>(i, c). confirm X i (h' (snd c)) (h' (fst c)))
                (List.enumerate 1 (cull_stopped_ongoing h' cs))
         \<longrightarrow> mend_facts_confirm_and_save_maybe X w a hint oe False False =
               save_facts_maybe X
                 (w\<lparr>heap := h',
                    trace := trace w @ Mended a hint #
                      map (\<lambda>(i, c). Prompted i (fst c) (snd c))
                        (List.enumerate 1 (cull_stopped_ongoing h' cs))\<rparr>)
                 new_fact_or_two cs (map fst oe) False)
   \<and> (\<forall>n idx todo new_fact_or_two cs h'.
         mend_fact_timey_wimey X (heap w) (store w) a (hint_at n idx) oe
           = Some ((new_fact_or_two, cs), h')
         \<and> \<not> list_all (\<lambda>(i, c). confirm X i (h' (snd c)) (h' (fst c)))
                (List.enumerate 1 (cull_stopped_ongoing h' cs))
         \<longrightarrow> record_ready_loop X w n idx (a # todo) oe False False False =
               (Inl SystemExit,
                w\<lparr>heap := h',
                   trace := trace w @ Mended a (hint_at n idx) #
                      map (\<lambda>(i, c). Prompted i (fst c) (snd c))
                        (List.enumerate 1 (cull_stopped_ongoing h' cs))\<rparr>))"
proof (intro conjI allI impI)
  show "must_confirm_fact_edits X w conflicts False False =
     (if list_all (\<lambda>(i, c). confirm X i (heap w (snd c)) (heap w (fst c)))
           (List.enumerate 1 (cull_stopped_ongoing (heap w) conflicts))
      then Inr () else Inl SystemExit,
      w\<lparr>trace := trace w @ map (\<lambda>(i, c). Prompted i (fst c) (snd c))
                            (List.enumerate 1 (cull_stopped_ongoing (heap w) conflicts))\<rparr>)"
    by (rule must_confirm_unattended)
next
  fix i c
  assume "(i, c) \<in> set (List.enumerate 1 (cull_stopped_ongoing (heap w) conflicts))"
  then have c: "c \<in> set (cull_stopped_ongoing (heap w) conflicts)"
    by (auto simp: in_set_enumerate_eq)
  then show "c \<in> set conflicts" and "''stopped'' \<notin> dirty_reasons (heap w (fst c))"
    by (simp_all add: cull_stopped_ongoing_def)
next
  fix c
  assume "c \<in> set conflicts \<and> ''stopped'' \<notin> dirty_reasons (heap w (fst c))"
  then have "c \<in> set (cull_stopped_ongoing (heap w) conflicts)"
    by (simp add: cull_stopped_ongoing_def)
  then obtain k where "k < length (cull_stopped_ongoing (heap w) conflicts)"
    "cull_stopped_ongoing (heap w) conflicts ! k = c"
    by (auto simp: in_set_conv_nth)
  then have "(1 + k, c) \<in> set (List.enumerate 1 (cull_stopped_ongoing (heap w) conflicts))"
    by (simp add: in_set_enumerate_eq)
  then show "\<exists>i. (i, c) \<in> set (List.enumerate 1 (cull_stopped_ongoing (heap w) conflicts))"
    by blast
next
  fix new_fact_or_two cs h'
  assume h: "mend_fact_timey_wimey X (heap w) (store w) a hint oe = Some ((new_fact_or_two, cs), h')
         \<and> \<not> list_all (\<lambda>(i, c). confirm X i (h' (snd c)) (h' (fst c)))
                (List.enumerate 1 (cull_stopped_ongoing h' cs))"
  show "mend_facts_confirm_and_save_maybe X w a hint oe False False =
               (Inl SystemExit,
                w\<lparr>heap := h',
                   trace := trace w @ Mended a hint #
                      map (\<lambda>(i, c). Prompted i (fst c) (snd c))
                        (List.enumerate 1 (cull_stopped_ongoing h' cs))\<rparr>)"
    using h
    by (simp add: mend_facts_confirm_and_save_maybe_def Let_def
        must_confirm_unattended [of X "w\<lparr>heap := h', trace := trace w @ [Mended a hint]\<rparr>" cs])
next
  fix new_fact_or_two cs h'
  assume h: "mend_fact_timey_wimey X (heap w) (store w) a hint oe = Some ((new_fact_or_two, cs), h')
         \<and> list_all (\<lambda>(i, c). confirm X i (h' (snd c)) (h' (fst c)))
                (List.enumerate 1 (cull_stopped_ongoing h' cs))"
  show "mend_facts_confirm_and_save_maybe X w a hint oe False False =
               save_facts_maybe X
                 (w\<lparr>heap := h',
                    trace := trace w @ Mended a hint #
                      map (\<lambda>(i, c). Prompted i (fst c) (snd c))
                        (List.enumerate 1 (cull_stopped_ongoing h' cs))\<rparr>)
                 new_fact_or_two cs (map fst oe) False"
    using h
    by (simp add: mend_facts_confirm_and_save_maybe_def Let_def
        must_confirm_unattended [of X "w\<lparr>heap := h', trace := trace w @ [Mended a hint]\<rparr>" cs])
next
  fix n idx todo new_fact_or_two cs h'
  assume h: "mend_fact_timey_wimey X (heap w) (store w) a (hint_at n idx) oe
           = Some ((new_fact_or_two, cs), h')
         \<and> \<not> list_all (\<lambda>(i, c). confirm X i (h' (snd c)) (h' (fst c)))
                (List.enumerate 1 (cull_stopped_ongoing h' cs))"
  have call: "mend_facts_confirm_and_save_maybe X w a (hint_at n idx) oe False False =
               (Inl SystemExit,
                w\<lparr>heap := h',
                   trace := trace w @ Mended a (hint_at n idx) #
                      map (\<lambda>(i, c). Prompted i (fst c) (snd c))
                        (List.enumerate 1 (cull_stopped_ongoing h' cs))\<rparr>)"
    using h
    by (simp add: mend_facts_confirm_and_save_maybe_def Let_def
        must_confirm_unattended [of X "w\<lparr>heap := h', trace := trace w @ [Mended a (hint_at n idx)]\<rparr>" cs])
  have hint: "(if \<not> int idx = int n - 1 then verify_both else verify_last) = hint_at n idx"
    by (simp add: hint_at_def)
  show "record_ready_loop X w n idx (a # todo) oe False False False =
               (Inl SystemExit,
                w\<lparr>heap := h',
                   trace := trace w @ Mended a (hint_at n idx) #
                      map (\<lambda>(i, c). Prompted i (fst c) (snd c))
                        (List.enumerate 1 (cull_stopped_ongoing h' cs))\<rparr>)"
    by (simp add: persist_fact_def persist_fact_save_def Let_def hint call)
qed

text \<open>
  The mender reports a stopped fact and another edited fact; the user is asked about the
  second only, says no, and nothing is saved.
\<close>

lemma ex_cull:
  "cull_stopped_ongoing example_heap [(7, 8), (9, 10)] = [(9, 10)]"
  by (simp add: cull_stopped_ongoing_def example_heap_def)

theorem confirmation_required_witness:
  "mend_fact_timey_wimey rejecting (heap example_world) (store example_world) 0 verify_last []
     = Some (([0], [(7, 8), (9, 10)]), example_heap)
   \<and> \<not> list_all (\<lambda>(i, c). confirm rejecting i (example_heap (snd c)) (example_heap (fst c)))
          (List.enumerate 1 (cull_stopped_ongoing example_heap [(7, 8), (9, 10)]))
   \<and> mend_facts_confirm_and_save_maybe rejecting example_world 0 verify_last [] False False
      = (Inl SystemExit, \<lparr>heap = example_heap, store = [], trace = [Mended 0 verify_last, Prompted 1 9 10]\<rparr>)"
proof -
  have m: "mend_fact_timey_wimey rejecting (heap example_world) (store example_world) 0 verify_last []
     = Some (([0], [(7, 8), (9, 10)]), example_heap)"
    by (simp add: rejecting_def example_world_def)
  have n: "\<not> list_all (\<lambda>(i, c). confirm rejecting i (example_heap (snd c)) (example_heap (fst c)))
          (List.enumerate 1 (cull_stopped_ongoing example_heap [(7, 8), (9, 10)]))"
    by (simp add: ex_cull rejecting_def)
  note inst = confirmation_required [where X = rejecting and w = example_world and a = 0
      and hint = verify_last and oe = "[]", THEN conjunct2, THEN conjunct2, THEN conjunct2,
      THEN conjunct1, rule_format, OF conjI, OF m n]
  have r: "mend_facts_confirm_and_save_maybe rejecting example_world 0 verify_last [] False False
      = (Inl SystemExit, \<lparr>heap = example_heap, store = [], trace = [Mended 0 verify_last, Prompted 1 9 10]\<rparr>)"
    using inst by (simp add: ex_cull example_world_def)
  from m n r show ?thesis by blast
qed

text \<open>
  The claim as stated fails for a batch of two facts: the first is saved, then the user
  rejects the edit that comes with the second. The program exits, and the first fact is
  in the store.
\<close>

theorem refused_after_save_counterexample:
  "fst (record_ready_facts rejecting_second example_world [0, 1] False False False) = Inl SystemExit
   \<and> trace (snd (record_ready_facts rejecting_second example_world [0, 1] False False False))
       = [Mended 0 verify_both, Saved 0, Mended 1 verify_last, Prompted 1 9 10]
   \<and> store (snd (record_ready_facts rejecting_second example_world [0, 1] False False False))
       = [\<lparr>pk = None, start = Datetime (hours 0), end' = Datetime (hours 1), deleted = False,
           dirty_reasons = {}\<rparr>]"
  by (simp add: record_ready_facts_def initial_other_edits_def persist_fact_def persist_fact_save_def
      mend_facts_confirm_and_save_maybe_def must_confirm_fact_edits_def cull_stopped_ongoing_def
      save_facts_maybe_def save_fact_def edits_key_def Let_def
      rejecting_second_def example_world_def example_heap_def draft_def)








end
